(* ===== verification/Prelude.thy ===== *)
theory Prelude
  imports Main "HOL-Library.Word" "HOL-Library.Code_Target_Numeral" "HOL-Library.Char_ord" "HOL-Library.List_Lexorder"
begin

text \<open>
  The prelude of the KingCrab development: the collections of rewrite rules the
  components share, Go's 64-bit integer arithmetic, error results, decimal numerals and
  the list and order lemmas that several components use.
\<close>

section \<open>Collections and results\<close>

named_theorems go_defs \<open>definitions of the small wrappers of the Go standard library\<close>
named_theorems handler_defs \<open>definitions of the HTTP handlers and of their phases\<close>

text \<open>
  A Go function that returns \<open>(T, error)\<close> is a function into \<open>error + 'a\<close>; the error is
  the text that its \<open>Error()\<close> method gives, because the handlers only ever print it.
\<close>

type_synonym go_error = string

fun is_ok :: "'e + 'a \<Rightarrow> bool" where
  "is_ok (Inl _) = False"
| "is_ok (Inr _) = True"

lemma is_ok_iff: "is_ok r \<longleftrightarrow> (\<exists>x. r = Inr x)"
  by (cases r) auto

lemma sum_case_Inr [simp]:
  "(case r of Inl e \<Rightarrow> Inl (f e) | Inr x \<Rightarrow> g x) = Inr y \<longleftrightarrow> (\<exists>x. r = Inr x \<and> g x = Inr y)"
  by (cases r) auto

section \<open>Go's int and int64\<close>

text \<open>
  \<open>int\<close>, \<open>int64\<close> and \<open>time.Duration\<close> are 64 bits wide (the daemon is built for 64-bit
  Linux). A value is an HOL \<open>int\<close>; an operation that can overflow wraps explicitly.
\<close>

definition max_int64 :: int where "max_int64 = 9223372036854775807"
definition min_int64 :: int where "min_int64 = - 9223372036854775808"

definition in_int64 :: "int \<Rightarrow> bool" where
  "in_int64 x \<longleftrightarrow> min_int64 \<le> x \<and> x \<le> max_int64"

definition wrap64 :: "int \<Rightarrow> int" where
  "wrap64 x = (x + 9223372036854775808) mod 18446744073709551616 - 9223372036854775808"

lemma wrap64_id: "in_int64 x \<Longrightarrow> wrap64 x = x"
  by (simp add: in_int64_def wrap64_def min_int64_def max_int64_def)

lemma wrap64_range: "in_int64 (wrap64 x)"
  by (simp add: in_int64_def wrap64_def min_int64_def max_int64_def)

text \<open>The wrap is that of two's complement: the value of the 64-bit word.\<close>

lemma wrap64_word: "wrap64 x = sint (word_of_int x :: 64 word)"
  by (simp add: wrap64_def sint_sbintrunc' signed_take_bit_eq_take_bit_shift take_bit_eq_mod)

section \<open>Decimal numerals\<close>

definition digit_char :: "nat \<Rightarrow> char" where
  "digit_char d = char_of (48 + d mod 10)"

definition digit_val :: "char \<Rightarrow> nat" where
  "digit_val c = of_char c - 48"

definition is_digit :: "char \<Rightarrow> bool" where
  "is_digit c \<longleftrightarrow> 48 \<le> (of_char c :: nat) \<and> (of_char c :: nat) \<le> 57"

lemma of_digit_char [simp]: "(of_char (digit_char d) :: nat) = 48 + d mod 10"
proof -
  have "48 + d mod 10 < 256" by (simp add: less_trans [of _ 58])
  then show ?thesis by (simp add: digit_char_def)
qed

lemma digit_val_digit_char [simp]: "d < 10 \<Longrightarrow> digit_val (digit_char d) = d"
  by (simp add: digit_val_def)

lemma is_digit_digit_char [simp]: "is_digit (digit_char d)"
proof -
  have "d mod 10 < 10" by simp
  then show ?thesis unfolding is_digit_def of_digit_char by linarith
qed

lemma digit_char_less [simp]: "a < 10 \<Longrightarrow> b < 10 \<Longrightarrow> digit_char a < digit_char b \<longleftrightarrow> a < b"
  by (simp add: less_char_def)

lemma digit_char_inj [simp]: "a < 10 \<Longrightarrow> b < 10 \<Longrightarrow> digit_char a = digit_char b \<longleftrightarrow> a = b"
  by (metis digit_val_digit_char)

text \<open>\<open>%d\<close> of \<open>fmt\<close>, and the value of a list of digits, most significant first.\<close>

fun show_nat :: "nat \<Rightarrow> string" where
  "show_nat n = (if n < 10 then [digit_char n] else show_nat (n div 10) @ [digit_char (n mod 10)])"

declare show_nat.simps [simp del]

definition show_int :: "int \<Rightarrow> string" where
  "show_int i = (if i < 0 then ''-'' @ show_nat (nat (- i)) else show_nat (nat i))"

definition digits_val :: "string \<Rightarrow> nat" where
  "digits_val s = foldl (\<lambda>acc c. 10 * acc + digit_val c) 0 s"

lemma digits_val_snoc [simp]: "digits_val (s @ [c]) = 10 * digits_val s + digit_val c"
  by (simp add: digits_val_def)

lemma digits_val_Nil [simp]: "digits_val [] = 0"
  by (simp add: digits_val_def)

lemma digits_val_show_nat [simp]: "digits_val (show_nat n) = n"
proof (induction n rule: show_nat.induct)
  case (1 n)
  show ?case
  proof (cases "n < 10")
    case True
    then show ?thesis by (subst show_nat.simps) (simp add: digits_val_def)
  next
    case False
    with 1 show ?thesis by (subst show_nat.simps) simp
  qed
qed

lemma show_nat_digits: "\<forall>c \<in> set (show_nat n). is_digit c"
proof (induction n rule: show_nat.induct)
  case (1 n)
  then show ?case by (subst show_nat.simps) auto
qed

lemma show_nat_not_Nil [simp]: "show_nat n \<noteq> []"
  by (subst show_nat.simps) simp

lemma show_nat_inj: "show_nat m = show_nat n \<longleftrightarrow> m = n"
  by (metis digits_val_show_nat)

lemma show_nat_not_minus: "show_nat n \<noteq> ''-'' @ s"
proof
  assume "show_nat n = ''-'' @ s"
  then have "CHR ''-'' \<in> set (show_nat n)" by simp
  with show_nat_digits have "is_digit (CHR ''-'')" by blast
  then show False by (simp add: is_digit_def)
qed

lemma show_int_inj: "show_int i = show_int j \<longleftrightarrow> i = j"
proof -
  have "show_nat (nat i) \<noteq> CHR ''-'' # show_nat n" for i n
    using show_nat_not_minus [of "nat i" "show_nat n"] by simp
  then show ?thesis
    by (auto simp: show_int_def show_nat_inj split: if_splits) (metis eq_nat_nat_iff not_less)
qed

text \<open>Zero-padded numerals of a fixed width, as the layouts of package \<open>time\<close> print them.\<close>

fun fixed_dec :: "nat \<Rightarrow> nat \<Rightarrow> string" where
  "fixed_dec 0 n = []"
| "fixed_dec (Suc w) n = fixed_dec w (n div 10) @ [digit_char (n mod 10)]"

lemma length_fixed_dec [simp]: "length (fixed_dec w n) = w"
  by (induction w n rule: fixed_dec.induct) auto

lemma fixed_dec_digits: "\<forall>c \<in> set (fixed_dec w n). is_digit c"
  by (induction w n rule: fixed_dec.induct) auto

lemma digits_val_fixed_dec: "n < 10 ^ w \<Longrightarrow> digits_val (fixed_dec w n) = n"
proof (induction w n rule: fixed_dec.induct)
  case (2 w n)
  then have "n div 10 < 10 ^ w" by (simp add: less_mult_imp_div_less mult.commute)
  with 2 show ?case by simp
qed simp

section \<open>Lexicographic order of strings\<close>

text \<open>
  The order on \<open>string\<close> is that of \<open>List_Lexorder\<close> over \<open>Char_ord\<close>: bytes are compared
  as numbers and a proper prefix comes first. It is the order of Go's string comparison
  (\<open>sort.Strings\<close>) and of SQLite's default BINARY collation (\<open>memcmp\<close>).
\<close>

lemma append_less_append:
  fixes xs ys us vs :: string
  shows "length xs = length ys \<Longrightarrow>
    (xs @ us < ys @ vs) \<longleftrightarrow> (xs < ys \<or> (xs = ys \<and> us < vs))"
proof (induction xs ys rule: list_induct2)
  case (Cons x xs y ys)
  then show ?case by (auto simp: Cons_less_Cons)
qed simp

lemma append_eq_less_iff [simp]:
  fixes xs us vs :: string
  shows "(xs @ us < xs @ vs) \<longleftrightarrow> us < vs"
  by (induction xs) auto

lemma div_mod_less:
  "(m::nat) < n \<longleftrightarrow> m div 10 < n div 10 \<or> (m div 10 = n div 10 \<and> m mod 10 < n mod 10)"
proof -
  obtain a b where "a = m div 10" "b = n div 10" by blast
  moreover have "m = 10 * (m div 10) + m mod 10" "n = 10 * (n div 10) + n mod 10" by simp_all
  moreover have "m mod 10 < 10" "n mod 10 < 10" by simp_all
  ultimately show ?thesis by arith
qed

lemma fixed_dec_less:
  "m < 10 ^ w \<Longrightarrow> n < 10 ^ w \<Longrightarrow> fixed_dec w m < fixed_dec w n \<longleftrightarrow> m < n"
proof (induction w arbitrary: m n)
  case (Suc w)
  then have b: "m div 10 < 10 ^ w" "n div 10 < 10 ^ w"
    by (simp_all add: less_mult_imp_div_less mult.commute)
  have eq: "fixed_dec w (m div 10) = fixed_dec w (n div 10) \<longleftrightarrow> m div 10 = n div 10"
    by (metis b digits_val_fixed_dec)
  have "fixed_dec (Suc w) m < fixed_dec (Suc w) n \<longleftrightarrow>
      m div 10 < n div 10 \<or> (m div 10 = n div 10 \<and> m mod 10 < n mod 10)"
    by (simp add: append_less_append eq Suc.IH [OF b])
  also have "\<dots> \<longleftrightarrow> m < n" by (rule div_mod_less [symmetric])
  finally show ?case .
qed simp

lemma fixed_dec_inj: "m < 10 ^ w \<Longrightarrow> n < 10 ^ w \<Longrightarrow> fixed_dec w m = fixed_dec w n \<longleftrightarrow> m = n"
  by (metis digits_val_fixed_dec)

section \<open>Lists\<close>

lemma filter_fold_snoc:
  "fold (\<lambda>x acc. if P x then acc @ [x] else acc) xs ys = ys @ filter P xs"
  by (induction xs arbitrary: ys) auto

lemma count_list_update:
  "t < length xs \<Longrightarrow> length (filter P (xs[t := y])) + (if P (xs ! t) then 1 else 0) =
     length (filter P xs) + (if P y then 1 else 0)"
proof (induction xs arbitrary: t)
  case (Cons x xs)
  then show ?case by (cases t) auto
qed simp

lemma map_option_map_of_unique:
  "distinct (map f xs) \<Longrightarrow> x \<in> set xs \<Longrightarrow> find (\<lambda>y. f y = f x) xs = Some x"
  by (induction xs) (auto simp: image_iff)

lemma if_split_elim:
  "\<lbrakk>(if c then x else y) = z; \<lbrakk>c; x = z\<rbrakk> \<Longrightarrow> P; \<lbrakk>\<not> c; y = z\<rbrakk> \<Longrightarrow> P\<rbrakk> \<Longrightarrow> P"
  by (simp split: if_splits)

end
