(* ===== verification/GoText.thy ===== *)
theory GoText
  imports Prelude
begin

text \<open>
  Go strings: sequences of bytes (\<open>string\<close>, a list of 8-bit characters), their decoding
  into runes as \<open>for _, ch := range s\<close> and \<open>[]rune(s)\<close> do it (package
  \<open>unicode/utf8\<close>), and the functions of \<open>strings\<close> and \<open>encoding/hex\<close> the daemon calls.
\<close>

section \<open>Runes\<close>

type_synonym byte_val = nat \<comment> \<open>below 256\<close>
type_synonym rune = nat

definition bytes_of :: "string \<Rightarrow> byte_val list" where
  "bytes_of s = map of_char s"

definition string_of :: "byte_val list \<Rightarrow> string" where
  "string_of bs = map char_of bs"

lemma string_of_bytes_of [simp]: "string_of (bytes_of s) = s"
  by (simp add: string_of_def bytes_of_def comp_def)

lemma bytes_of_string_of [simp]: "\<forall>b \<in> set bs. b < 256 \<Longrightarrow> bytes_of (string_of bs) = bs"
  by (induction bs) (simp_all add: string_of_def bytes_of_def)

lemma bytes_of_append [simp]: "bytes_of (s @ t) = bytes_of s @ bytes_of t"
  by (simp add: bytes_of_def)

lemma bytes_of_Nil_iff [simp]: "bytes_of s = [] \<longleftrightarrow> s = []"
  by (simp add: bytes_of_def)

lemma bytes_of_inj [simp]: "bytes_of s = bytes_of t \<longleftrightarrow> s = t"
  by (metis string_of_bytes_of)

lemma bytes_of_bound: "b \<in> set (bytes_of s) \<Longrightarrow> b < 256"
  by (auto simp: bytes_of_def)

text \<open>\<open>utf8.RuneError\<close>, the rune of every invalid byte.\<close>

definition rune_error :: rune where "rune_error = 0xFFFD"

definition cont_byte :: "byte_val \<Rightarrow> bool" where
  "cont_byte b \<longleftrightarrow> 0x80 \<le> b \<and> b \<le> 0xBF"

text \<open>The second byte of a sequence of three or four: no overlong form, no surrogate.\<close>

definition second_byte :: "byte_val \<Rightarrow> byte_val \<Rightarrow> bool" where
  "second_byte b0 b1 \<longleftrightarrow>
     (if b0 = 0xE0 then 0xA0 else if b0 = 0xF0 then 0x90 else 0x80) \<le> b1 \<and>
     b1 \<le> (if b0 = 0xED then 0x9F else if b0 = 0xF4 then 0x8F else 0xBF)"

definition rune2 :: "byte_val \<Rightarrow> byte_val \<Rightarrow> rune" where
  "rune2 b0 b1 = (b0 - 0xC0) * 64 + (b1 - 0x80)"

definition rune3 :: "byte_val \<Rightarrow> byte_val \<Rightarrow> byte_val \<Rightarrow> rune" where
  "rune3 b0 b1 b2 = (b0 - 0xE0) * 4096 + (b1 - 0x80) * 64 + (b2 - 0x80)"

definition rune4 :: "byte_val \<Rightarrow> byte_val \<Rightarrow> byte_val \<Rightarrow> byte_val \<Rightarrow> rune" where
  "rune4 b0 b1 b2 b3 = (b0 - 0xF0) * 262144 + (b1 - 0x80) * 4096 + (b2 - 0x80) * 64 + (b3 - 0x80)"

text \<open>\<open>utf8.DecodeRune\<close>: the rune and the number of continuation bytes it takes.\<close>

fun decode2 :: "byte_val \<Rightarrow> byte_val list \<Rightarrow> rune \<times> nat" where
  "decode2 b0 (b1 # bs) = (if cont_byte b1 then (rune2 b0 b1, 1) else (rune_error, 0))"
| "decode2 b0 [] = (rune_error, 0)"

fun decode3 :: "byte_val \<Rightarrow> byte_val list \<Rightarrow> rune \<times> nat" where
  "decode3 b0 (b1 # b2 # bs) =
     (if second_byte b0 b1 \<and> cont_byte b2 then (rune3 b0 b1 b2, 2) else (rune_error, 0))"
| "decode3 b0 bs = (rune_error, 0)"

fun decode4 :: "byte_val \<Rightarrow> byte_val list \<Rightarrow> rune \<times> nat" where
  "decode4 b0 (b1 # b2 # b3 # bs) =
     (if second_byte b0 b1 \<and> cont_byte b2 \<and> cont_byte b3 then (rune4 b0 b1 b2 b3, 3)
      else (rune_error, 0))"
| "decode4 b0 bs = (rune_error, 0)"

definition decode_rune :: "byte_val \<Rightarrow> byte_val list \<Rightarrow> rune \<times> nat" where
  "decode_rune b0 bs =
     (if b0 < 0x80 then (b0, 0)
      else if 0xC2 \<le> b0 \<and> b0 \<le> 0xDF then decode2 b0 bs
      else if 0xE0 \<le> b0 \<and> b0 \<le> 0xEF then decode3 b0 bs
      else if 0xF0 \<le> b0 \<and> b0 \<le> 0xF4 then decode4 b0 bs
      else (rune_error, 0))"

text \<open>A string cut into the byte groups of its runes.\<close>

function chunks :: "byte_val list \<Rightarrow> (rune \<times> byte_val list) list" where
  "chunks [] = []"
| "chunks (b # bs) =
     (fst (decode_rune b bs), b # take (snd (decode_rune b bs)) bs)
       # chunks (drop (snd (decode_rune b bs)) bs)"
  by pat_completeness auto
termination
  by (relation "measure length") auto

definition runes :: "string \<Rightarrow> rune list" where
  "runes s = map fst (chunks (bytes_of s))"

text \<open>\<open>utf8.AppendRune\<close> and the conversion \<open>string([]rune)\<close>.\<close>

definition encode_rune :: "rune \<Rightarrow> byte_val list" where
  "encode_rune r =
     (if r < 0x80 then [r]
      else if r < 0x800 then [0xC0 + r div 64, 0x80 + r mod 64]
      else if r > 0x10FFFF \<or> (0xD800 \<le> r \<and> r \<le> 0xDFFF) then [0xEF, 0xBF, 0xBD]
      else if r < 0x10000 then [0xE0 + r div 4096, 0x80 + r div 64 mod 64, 0x80 + r mod 64]
      else [0xF0 + r div 262144, 0x80 + r div 4096 mod 64, 0x80 + r div 64 mod 64, 0x80 + r mod 64])"

definition string_of_runes :: "rune list \<Rightarrow> string" where
  "string_of_runes rs = string_of (concat (map encode_rune rs))"

lemma runes_Nil [simp]: "runes [] = []"
  by (simp add: runes_def bytes_of_def)

lemma string_of_runes_Nil [simp]: "string_of_runes [] = []"
  by (simp add: string_of_runes_def string_of_def)

lemma runes_Nil_iff [simp]: "runes s = [] \<longleftrightarrow> s = []"
  by (cases s) (auto simp: runes_def bytes_of_def)

lemma encode_rune_not_Nil [simp]: "encode_rune r \<noteq> []"
  by (simp add: encode_rune_def)

lemma string_of_runes_Nil_iff [simp]: "string_of_runes rs = [] \<longleftrightarrow> rs = []"
  by (cases rs) (auto simp: string_of_runes_def string_of_def)

lemma Nil_eq_string_of_runes [simp]: "[] = string_of_runes rs \<longleftrightarrow> rs = []"
  by (metis string_of_runes_Nil_iff)

lemma string_of_runes_append [simp]:
  "string_of_runes (rs @ qs) = string_of_runes rs @ string_of_runes qs"
  by (simp add: string_of_runes_def string_of_def)

text \<open>Nothing is lost in the cut: the groups, put together, are the string.\<close>

lemma concat_chunks [simp]: "concat (map snd (chunks bs)) = bs"
  by (induction bs rule: chunks.induct) auto

subsection \<open>Bytes below 128\<close>

text \<open>
  The decoder never takes a byte below 128 as a continuation byte and never makes a rune
  below 128 out of another byte. The delimiters, quotes and metacharacters the daemon
  looks for are all of this kind, so it finds each of them, and only them.
\<close>

lemma decode_ascii [simp]: "b < 128 \<Longrightarrow> decode_rune b bs = (b, 0)"
  by (simp add: decode_rune_def)

lemma second_byte_high: "second_byte b0 b1 \<Longrightarrow> 128 \<le> b1"
  by (simp add: second_byte_def split: if_splits)

lemma cont_byte_high: "cont_byte b \<Longrightarrow> 128 \<le> b"
  by (simp add: cont_byte_def)

lemma decode_takes_cont:
  "b' \<in> set (take (snd (decode_rune b bs)) bs) \<Longrightarrow> 128 \<le> b'"
proof -
  have "b' \<in> set (take (snd (decode2 b bs)) bs) \<Longrightarrow> 128 \<le> b'"
    by (cases "(b, bs)" rule: decode2.cases) (auto dest: cont_byte_high split: if_splits)
  moreover have "b' \<in> set (take (snd (decode3 b bs)) bs) \<Longrightarrow> 128 \<le> b'"
    by (cases "(b, bs)" rule: decode3.cases)
      (auto dest: cont_byte_high second_byte_high simp: numeral_2_eq_2 split: if_splits)
  moreover have "b' \<in> set (take (snd (decode4 b bs)) bs) \<Longrightarrow> 128 \<le> b'"
    by (cases "(b, bs)" rule: decode4.cases)
      (auto dest: cont_byte_high second_byte_high simp: numeral_3_eq_3 split: if_splits)
  ultimately show "b' \<in> set (take (snd (decode_rune b bs)) bs) \<Longrightarrow> 128 \<le> b'"
    by (simp add: decode_rune_def split: if_splits)
qed

lemma rune2_high: "0xC2 \<le> b0 \<Longrightarrow> 128 \<le> rune2 b0 b1"
  unfolding rune2_def by linarith

lemma rune3_high:
  assumes "0xE0 \<le> b0" "second_byte b0 b1"
  shows "128 \<le> rune3 b0 b1 b2"
proof (cases "b0 = 0xE0")
  case True
  with assms(2) have "160 \<le> b1" by (simp add: second_byte_def)
  then have "128 \<le> (b1 - 0x80) * 64" by linarith
  then show ?thesis by (simp add: rune3_def)
next
  case False
  with assms(1) have "128 \<le> (b0 - 0xE0) * 4096" by linarith
  then show ?thesis by (simp add: rune3_def)
qed

lemma rune4_high:
  assumes "0xF0 \<le> b0" "second_byte b0 b1"
  shows "128 \<le> rune4 b0 b1 b2 b3"
proof (cases "b0 = 0xF0")
  case True
  with assms(2) have "144 \<le> b1" by (simp add: second_byte_def)
  then have "128 \<le> (b1 - 0x80) * 4096" by linarith
  then show ?thesis by (simp add: rune4_def)
next
  case False
  with assms(1) have "128 \<le> (b0 - 0xF0) * 262144" by linarith
  then show ?thesis by (simp add: rune4_def)
qed

lemma decode_high:
  assumes "128 \<le> b"
  shows "128 \<le> fst (decode_rune b bs)"
proof -
  have err: "128 \<le> rune_error" by (simp add: rune_error_def)
  have "0xC2 \<le> b \<Longrightarrow> 128 \<le> fst (decode2 b bs)"
    by (cases "(b, bs)" rule: decode2.cases) (simp_all add: err rune2_high)
  moreover have "0xE0 \<le> b \<Longrightarrow> 128 \<le> fst (decode3 b bs)"
    by (cases "(b, bs)" rule: decode3.cases) (simp_all add: err rune3_high)
  moreover have "0xF0 \<le> b \<Longrightarrow> 128 \<le> fst (decode4 b bs)"
    by (cases "(b, bs)" rule: decode4.cases) (simp_all add: err rune4_high)
  ultimately show ?thesis using assms by (simp add: decode_rune_def err)
qed

lemma chunks_ascii_iff: "n < 128 \<Longrightarrow> n \<in> fst ` set (chunks bs) \<longleftrightarrow> n \<in> set bs"
proof (induction bs rule: chunks.induct)
  case (2 b bs)
  let ?k = "snd (decode_rune b bs)"
  have "n \<in> set bs \<longleftrightarrow> n \<in> set (take ?k bs) \<or> n \<in> set (drop ?k bs)"
    by (metis Un_iff append_take_drop_id set_append)
  moreover have "n \<notin> set (take ?k bs)" using decode_takes_cont 2(2) by force
  moreover have "fst (decode_rune b bs) = n \<longleftrightarrow> b = n"
    using decode_high [of b bs] 2(2) by (cases "b < 128") auto
  ultimately show ?case using 2 by auto
qed simp

lemma runes_ascii_iff: "n < 128 \<Longrightarrow> n \<in> set (runes s) \<longleftrightarrow> n \<in> set (bytes_of s)"
  using chunks_ascii_iff by (simp add: runes_def)

text \<open>A string of bytes below 128 is its own list of runes.\<close>

lemma char_in_runes: "of_char c < (128::nat) \<Longrightarrow> of_char c \<in> set (runes s) \<longleftrightarrow> c \<in> set s"
  by (subst runes_ascii_iff) (auto simp: bytes_of_def)

lemma runes_ascii: "\<forall>b \<in> set (bytes_of s). b < 128 \<Longrightarrow> runes s = bytes_of s"
proof -
  have "\<forall>b \<in> set bs. b < 128 \<Longrightarrow> map fst (chunks bs) = bs" for bs
    by (induction bs) auto
  then show "\<forall>b \<in> set (bytes_of s). b < 128 \<Longrightarrow> runes s = bytes_of s"
    by (simp add: runes_def)
qed

subsection \<open>Decoding what was encoded\<close>

definition valid_rune :: "rune \<Rightarrow> bool" where
  "valid_rune r \<longleftrightarrow> r \<le> 0x10FFFF \<and> \<not> (0xD800 \<le> r \<and> r \<le> 0xDFFF)"

lemma decode_encode_rune:
  assumes "valid_rune r"
  shows "decode_rune (hd (encode_rune r)) (tl (encode_rune r) @ bs) = (r, length (tl (encode_rune r)))"
proof -
  have d: "r div 4096 = r div 64 div 64" "r div 262144 = r div 4096 div 64"
    by (simp_all add: div_mult2_eq [symmetric])
  have split: "r = 64 * (r div 64) + r mod 64"
    "r div 64 = 64 * (r div 4096) + r div 64 mod 64"
    "r div 4096 = 64 * (r div 262144) + r div 4096 mod 64"
    unfolding d by simp_all
  have small: "r mod 64 < 64" "r div 64 mod 64 < 64" "r div 4096 mod 64 < 64" by simp_all
  consider "r < 0x80" | "0x80 \<le> r" "r < 0x800" | "0x800 \<le> r" "r < 0x10000" | "0x10000 \<le> r"
    by linarith
  then show ?thesis
  proof cases
    case 1
    then show ?thesis by (simp add: encode_rune_def)
  next
    case 2
    then have "2 \<le> r div 64" "r div 64 < 32" by simp_all
    with 2 small show ?thesis
      by (simp add: encode_rune_def decode_rune_def cont_byte_def rune2_def)
  next
    case 3
    with assms have ns: "\<not> (0xD800 \<le> r \<and> r \<le> 0xDFFF)" by (simp add: valid_rune_def)
    have top: "r div 4096 < 16" using 3 by simp
    have ok: "second_byte (0xE0 + r div 4096) (0x80 + r div 64 mod 64)"
      unfolding second_byte_def using 3 ns split small by simp linarith
    have "rune3 (0xE0 + r div 4096) (0x80 + r div 64 mod 64) (0x80 + r mod 64) = r"
      using split(1,2) by (simp only: rune3_def add_diff_cancel_left')
    moreover have "encode_rune r = [0xE0 + r div 4096, 0x80 + r div 64 mod 64, 0x80 + r mod 64]"
      using 3 ns by (auto simp: encode_rune_def)
    moreover have "cont_byte (0x80 + r mod 64)" using small by (simp add: cont_byte_def)
    ultimately show ?thesis using ok top by (simp add: decode_rune_def)
  next
    case 4
    with assms have le: "r \<le> 0x10FFFF" by (simp add: valid_rune_def)
    then have top: "r div 262144 < 5" by simp
    have ok: "second_byte (0xF0 + r div 262144) (0x80 + r div 4096 mod 64)"
    proof -
      have "r div 262144 = 4 \<Longrightarrow> r div 4096 < 272" using le by simp
      moreover have "16 \<le> r div 4096" using 4 by simp
      moreover have "r div 4096 mod 64 \<le> 63" using small by simp
      ultimately show ?thesis using split(3) by (auto simp: second_byte_def)
    qed
    have "rune4 (0xF0 + r div 262144) (0x80 + r div 4096 mod 64) (0x80 + r div 64 mod 64)
        (0x80 + r mod 64) = r"
      using split by (simp only: rune4_def add_diff_cancel_left')
    moreover have "encode_rune r = [0xF0 + r div 262144, 0x80 + r div 4096 mod 64,
        0x80 + r div 64 mod 64, 0x80 + r mod 64]"
      using 4 le by (auto simp: encode_rune_def)
    moreover have "cont_byte (0x80 + r mod 64)" "cont_byte (0x80 + r div 64 mod 64)"
      using small by (simp_all add: cont_byte_def)
    ultimately show ?thesis using ok top by (simp add: decode_rune_def)
  qed
qed

lemma bytes_of_string_of_runes:
  assumes "\<forall>r \<in> set rs. valid_rune r"
  shows "bytes_of (string_of_runes rs) = concat (map encode_rune rs)"
proof -
  have "\<forall>b \<in> set (encode_rune r). b < 256" if "valid_rune r" for r
    using that by (auto simp: encode_rune_def valid_rune_def)
  then show ?thesis
    unfolding string_of_runes_def using assms by (intro bytes_of_string_of) auto
qed

text \<open>Encoded runes decode to themselves, whatever follows them.\<close>

lemma runes_string_of_runes_append:
  assumes "\<forall>r \<in> set rs. valid_rune r"
  shows "runes (string_of_runes rs @ s) = rs @ runes s"
proof -
  have "map fst (chunks (concat (map encode_rune rs) @ bs)) = rs @ map fst (chunks bs)" for bs
    using assms
  proof (induction rs)
    case (Cons r rs)
    let ?b = "hd (encode_rune r)" and ?t = "tl (encode_rune r)"
    let ?rest = "concat (map encode_rune rs) @ bs"
    have e: "encode_rune r = ?b # ?t" by simp
    have d: "decode_rune ?b (?t @ ?rest) = (r, length ?t)"
      using Cons.prems by (intro decode_encode_rune) simp
    have "chunks (?b # (?t @ ?rest)) = (r, ?b # ?t) # chunks ?rest"
      by (simp only: chunks.simps d fst_conv snd_conv) simp
    moreover have "concat (map encode_rune (r # rs)) @ bs = ?b # (?t @ ?rest)"
      using e by simp
    ultimately show ?case using Cons by (simp only: list.map(2) fst_conv) simp
  qed simp
  then show ?thesis by (simp add: runes_def bytes_of_string_of_runes [OF assms])
qed

lemma runes_string_of_runes [simp]:
  "\<forall>r \<in> set rs. valid_rune r \<Longrightarrow> runes (string_of_runes rs) = rs"
  using runes_string_of_runes_append [of rs "[]"] by simp

lemma decode_valid:
  assumes "b < 256"
  shows "valid_rune (fst (decode_rune b bs))"
proof -
  have err: "valid_rune rune_error" by (simp add: valid_rune_def rune_error_def)
  have "b \<le> 0xDF \<Longrightarrow> 0xC2 \<le> b \<Longrightarrow> valid_rune (fst (decode2 b bs))"
    by (cases "(b, bs)" rule: decode2.cases)
      (simp_all add: err, auto simp: valid_rune_def rune2_def cont_byte_def)
  moreover have "b \<le> 0xEF \<Longrightarrow> 0xE0 \<le> b \<Longrightarrow> valid_rune (fst (decode3 b bs))"
  proof (cases "(b, bs)" rule: decode3.cases)
    case (1 b0 b1 b2 bs')
    assume le: "b \<le> 0xEF" "0xE0 \<le> b"
    have "valid_rune (rune3 b b1 b2)" if "second_byte b b1" "cont_byte b2"
    proof (cases "b \<le> 0xED")
      case True
      have "rune3 b b1 b2 < 0xD800"
        using True that le unfolding rune3_def second_byte_def cont_byte_def
        by (cases "b = 0xED") (simp, linarith)+
      then show ?thesis by (simp add: valid_rune_def)
    next
      case False
      then have "0xE000 \<le> rune3 b b1 b2" "rune3 b b1 b2 \<le> 0xFFFF"
        using that le unfolding rune3_def second_byte_def cont_byte_def
        by (simp_all split: if_splits) linarith+
      then show ?thesis by (simp add: valid_rune_def)
    qed
    with 1 show ?thesis by (simp add: err)
  qed (simp_all add: err)
  moreover have "b \<le> 0xF4 \<Longrightarrow> 0xF0 \<le> b \<Longrightarrow> valid_rune (fst (decode4 b bs))"
  proof (cases "(b, bs)" rule: decode4.cases)
    case (1 b0 b1 b2 b3 bs')
    assume le: "b \<le> 0xF4" "0xF0 \<le> b"
    have "0x10000 \<le> rune4 b b1 b2 b3" "rune4 b b1 b2 b3 \<le> 0x10FFFF"
      if "second_byte b b1" "cont_byte b2" "cont_byte b3"
      using that le unfolding rune4_def second_byte_def cont_byte_def
      by (simp_all split: if_splits) linarith+
    then have "valid_rune (rune4 b b1 b2 b3)"
      if "second_byte b b1" "cont_byte b2" "cont_byte b3"
      using that by (simp add: valid_rune_def)
    with 1 show ?thesis by (simp add: err)
  qed (simp_all add: err)
  ultimately show ?thesis using assms
    by (simp add: decode_rune_def err) (auto simp: valid_rune_def)
qed

lemma runes_valid: "\<forall>r \<in> set (runes s). valid_rune r"
proof -
  have "\<forall>b \<in> set bs. b < 256 \<Longrightarrow> \<forall>r \<in> fst ` set (chunks bs). valid_rune r" for bs
  proof (induction bs rule: chunks.induct)
    case (2 b bs)
    then show ?case by (auto simp: decode_valid dest: in_set_dropD)
  qed simp
  from this [of "bytes_of s"] show ?thesis using bytes_of_bound by (simp add: runes_def)
qed

text \<open>Valid UTF-8: the strings that survive the conversion to runes and back.\<close>

definition valid_utf8 :: "string \<Rightarrow> bool" where
  "valid_utf8 s \<longleftrightarrow> string_of_runes (runes s) = s"

lemma valid_utf8_string_of_runes: "\<forall>r \<in> set rs. valid_rune r \<Longrightarrow> valid_utf8 (string_of_runes rs)"
  by (simp add: valid_utf8_def)

lemma runes_append: "valid_utf8 s \<Longrightarrow> runes (s @ t) = runes s @ runes t"
  by (metis runes_string_of_runes_append runes_valid valid_utf8_def)

lemma valid_utf8_ascii: "\<forall>b \<in> set (bytes_of s). b < 128 \<Longrightarrow> valid_utf8 s"
proof -
  assume a: "\<forall>b \<in> set (bytes_of s). b < 128"
  then have "concat (map encode_rune (bytes_of s)) = bytes_of s"
    by (induction s) (auto simp: bytes_of_def encode_rune_def)
  with a show ?thesis by (simp add: valid_utf8_def runes_ascii string_of_runes_def)
qed

end
