(* ===== verification/GoStrings.thy ===== *)
theory GoStrings
  imports GoText
begin

text \<open>
  The functions of the packages \<open>strings\<close> and \<open>encoding/hex\<close> that the daemon calls, on Go
  strings (lists of bytes), with the laws the components rest on.
\<close>

section \<open>Package strings\<close>

definition has_prefix :: "string \<Rightarrow> string \<Rightarrow> bool" where
  "has_prefix s p \<longleftrightarrow> take (length p) s = p"

definition has_suffix :: "string \<Rightarrow> string \<Rightarrow> bool" where
  "has_suffix s p \<longleftrightarrow> length p \<le> length s \<and> drop (length s - length p) s = p"

definition trim_prefix :: "string \<Rightarrow> string \<Rightarrow> string" where
  "trim_prefix s p = (if has_prefix s p then drop (length p) s else s)"

definition trim_suffix :: "string \<Rightarrow> string \<Rightarrow> string" where
  "trim_suffix s p = (if has_suffix s p then take (length s - length p) s else s)"

lemma has_prefix_iff: "has_prefix s p \<longleftrightarrow> (\<exists>t. s = p @ t)"
  by (auto simp: has_prefix_def) (metis append_take_drop_id)

lemma has_suffix_iff: "has_suffix s p \<longleftrightarrow> (\<exists>t. s = t @ p)"
  by (auto simp: has_suffix_def) (metis append_take_drop_id)

lemma has_prefix_append [simp]: "has_prefix (p @ t) p"
  by (auto simp: has_prefix_iff)

lemma trim_prefix_append [simp]: "trim_prefix (p @ t) p = t"
  by (simp add: trim_prefix_def)

text \<open>\<open>strings.Join\<close>.\<close>

fun join :: "string list \<Rightarrow> string \<Rightarrow> string" where
  "join [] sep = []"
| "join [x] sep = x"
| "join (x # y # xs) sep = x @ sep @ join (y # xs) sep"

lemma join_Cons: "join (x # xs) sep = (if xs = [] then x else x @ sep @ join xs sep)"
  by (cases xs) auto

text \<open>\<open>strings.Split\<close> with a separator of one byte, and \<open>strings.Cut\<close>.\<close>

fun split_on :: "char \<Rightarrow> string \<Rightarrow> string list" where
  "split_on c [] = [[]]"
| "split_on c (x # xs) =
     (if x = c then [] # split_on c xs
      else (case split_on c xs of [] \<Rightarrow> [[x]] | p # ps \<Rightarrow> (x # p) # ps))"

definition cut :: "char \<Rightarrow> string \<Rightarrow> string \<times> string \<times> bool" where
  "cut c s =
     (let pre = takeWhile (\<lambda>x. x \<noteq> c) s
      in if c \<in> set s then (pre, drop (Suc (length pre)) s, True) else (s, [], False))"

lemma split_on_not_Nil [simp]: "split_on c s \<noteq> []"
  by (cases s) (auto split: list.split)

lemma split_on_no_sep: "p \<in> set (split_on c s) \<Longrightarrow> c \<notin> set p"
proof (induction s arbitrary: p)
  case (Cons x xs)
  then show ?case by (cases "split_on c xs") (auto split: if_splits)
qed simp

lemma join_split_on [simp]: "join (split_on c s) [c] = s"
proof (induction s)
  case (Cons x xs)
  then show ?case by (cases "split_on c xs") (auto simp: join_Cons split: if_splits)
qed simp

lemma split_on_append_sep:
  "c \<notin> set p \<Longrightarrow> split_on c (p @ c # s) = p # split_on c s"
  by (induction p) auto

lemma split_on_single: "c \<notin> set p \<Longrightarrow> split_on c p = [p]"
  by (induction p) auto

lemma split_on_join:
  "ps \<noteq> [] \<Longrightarrow> \<forall>p \<in> set ps. c \<notin> set p \<Longrightarrow> split_on c (join ps [c]) = ps"
  by (induction ps "[c]" rule: join.induct) (simp_all add: split_on_single split_on_append_sep)

lemma cut_append_sep: "c \<notin> set p \<Longrightarrow> cut c (p @ c # s) = (p, s, True)"
proof -
  assume "c \<notin> set p"
  then have "takeWhile (\<lambda>x. x \<noteq> c) (p @ c # s) = p" by (induction p) auto
  then show ?thesis by (simp add: cut_def)
qed

text \<open>\<open>unicode.IsSpace\<close> and \<open>strings.TrimSpace\<close>.\<close>

definition is_space :: "rune \<Rightarrow> bool" where
  "is_space r \<longleftrightarrow>
     r \<in> {9, 10, 11, 12, 13, 32, 0x85, 0xA0, 0x1680, 0x2028, 0x2029, 0x202F, 0x205F, 0x3000} \<or>
     (0x2000 \<le> r \<and> r \<le> 0x200A)"

definition trim_space :: "string \<Rightarrow> string" where
  "trim_space s =
     string_of (concat (map snd
       (rev (dropWhile (is_space \<circ> fst) (rev (dropWhile (is_space \<circ> fst) (chunks (bytes_of s))))))))"

lemma dropWhile_both_id:
  "xs \<noteq> [] \<Longrightarrow> \<not> P (hd xs) \<Longrightarrow> \<not> P (last xs) \<Longrightarrow> rev (dropWhile P (rev (dropWhile P xs))) = xs"
  by (cases xs) (simp, metis dropWhile_eq_self_iff hd_rev list.distinct(1) list.sel(1) rev_rev_ident)

text \<open>A string that neither starts nor ends with white space is left alone.\<close>

lemma trim_space_id:
  assumes "s \<noteq> []" "\<not> is_space (hd (runes s))" "\<not> is_space (last (runes s))"
  shows "trim_space s = s"
proof -
  let ?xs = "chunks (bytes_of s)"
  have ne: "?xs \<noteq> []" using assms(1) runes_Nil_iff [of s] by (simp add: runes_def)
  with assms(2,3) have "\<not> (is_space \<circ> fst) (hd ?xs)" "\<not> (is_space \<circ> fst) (last ?xs)"
    by (simp_all add: runes_def hd_map last_map)
  with ne show ?thesis by (simp add: trim_space_def dropWhile_both_id)
qed

lemma trim_space_Nil [simp]: "trim_space [] = []"
  by (simp add: trim_space_def bytes_of_def string_of_def)

section \<open>Package encoding/hex\<close>

definition hex_digit :: "nat \<Rightarrow> char" where
  "hex_digit d = (if d < 10 then char_of (48 + d) else char_of (87 + d))"

definition from_hex_char :: "char \<Rightarrow> nat option" where
  "from_hex_char c =
     (let b = of_char c
      in if 48 \<le> b \<and> b \<le> 57 then Some (b - 48)
         else if 97 \<le> b \<and> b \<le> 102 then Some (b - 87)
         else if 65 \<le> b \<and> b \<le> 70 then Some (b - 55)
         else None)"

definition hex_encode :: "string \<Rightarrow> string" where
  "hex_encode s = concat (map (\<lambda>c. [hex_digit (of_char c div 16), hex_digit (of_char c mod 16)]) s)"

text \<open>The text of \<open>hex.InvalidByteError\<close>: the offending byte in the format \<open>%#U\<close>.\<close>

definition hex_upper :: "nat \<Rightarrow> char" where
  "hex_upper d = (if d < 10 then char_of (48 + d) else char_of (55 + d))"

definition show_U :: "char \<Rightarrow> string" where
  "show_U c =
     (let b = of_char c :: nat;
          code = ''U+00'' @ [hex_upper (b div 16), hex_upper (b mod 16)]
      in if (32 \<le> b \<and> b < 127) \<or> (161 \<le> b \<and> b \<noteq> 173)
         then code @ '' '' @ [CHR 0x27] @ string_of_runes [b] @ [CHR 0x27] else code)"

fun hex_decode :: "string \<Rightarrow> go_error + string" where
  "hex_decode [] = Inr []"
| "hex_decode [c] =
     (case from_hex_char c of
        None \<Rightarrow> Inl (''encoding/hex: invalid byte: '' @ show_U c)
      | Some _ \<Rightarrow> Inl ''encoding/hex: odd length hex string'')"
| "hex_decode (c # d # s) =
     (case from_hex_char c of
        None \<Rightarrow> Inl (''encoding/hex: invalid byte: '' @ show_U c)
      | Some h \<Rightarrow>
          (case from_hex_char d of
             None \<Rightarrow> Inl (''encoding/hex: invalid byte: '' @ show_U d)
           | Some l \<Rightarrow>
               (case hex_decode s of
                  Inl e \<Rightarrow> Inl e
                | Inr bs \<Rightarrow> Inr (char_of (16 * h + l) # bs))))"

lemma from_hex_digit [simp]: "d < 16 \<Longrightarrow> from_hex_char (hex_digit d) = Some d"
  by (auto simp: from_hex_char_def hex_digit_def Let_def)

lemma of_char_less_256 [simp]: "(of_char c :: nat) < 256"
  using bytes_of_bound [of "of_char c" "[c]"] by (simp add: bytes_of_def)

lemma hex_decode_encode [simp]: "hex_decode (hex_encode s) = Inr s"
proof (induction s)
  case (Cons c s)
  have d: "(of_char c :: nat) div 16 < 16"
    using of_char_less_256 [of c] by (simp add: less_mult_imp_div_less)
  have "hex_encode (c # s) = hex_digit (of_char c div 16) # hex_digit (of_char c mod 16) # hex_encode s"
    by (simp add: hex_encode_def)
  with Cons d show ?case by simp
qed (simp add: hex_encode_def)

lemma hex_encode_inj: "hex_encode s = hex_encode t \<longleftrightarrow> s = t"
  by (metis hex_decode_encode sum.inject(2))

lemma length_hex_encode [simp]: "length (hex_encode s) = 2 * length s"
  by (induction s) (simp_all add: hex_encode_def)

lemma hex_decode_length: "hex_decode s = Inr bs \<Longrightarrow> length s = 2 * length bs"
  by (induction s arbitrary: bs rule: hex_decode.induct) (auto split: option.splits sum.splits)

section \<open>Package path/filepath\<close>

text \<open>
  \<open>filepath.Join\<close> and \<open>filepath.Clean\<close> on Unix: empty elements are ignored, and the
  path is rewritten by its components, the stack of which is kept in reverse.
\<close>

definition path_step :: "bool \<Rightarrow> string list \<Rightarrow> string \<Rightarrow> string list" where
  "path_step rooted stack c =
     (if c = [] \<or> c = ''.'' then stack
      else if c = ''..'' then
        (if stack \<noteq> [] \<and> hd stack \<noteq> ''..'' then tl stack
         else if rooted then stack else c # stack)
      else c # stack)"

definition path_clean :: "string \<Rightarrow> string" where
  "path_clean p =
     (let rooted = (p \<noteq> [] \<and> hd p = CHR ''/'');
          comps = rev (foldl (path_step rooted) [] (split_on (CHR ''/'') p));
          body = join comps ''/''
      in if rooted then ''/'' @ body else if comps = [] then ''.'' else body)"

definition path_join :: "string list \<Rightarrow> string" where
  "path_join elems =
     (let es = filter (\<lambda>e. e \<noteq> []) elems in if es = [] then [] else path_clean (join es ''/''))"

definition plain_name :: "string \<Rightarrow> bool" where
  "plain_name n \<longleftrightarrow> n \<noteq> [] \<and> n \<noteq> ''.'' \<and> n \<noteq> ''..'' \<and> CHR ''/'' \<notin> set n"

lemma split_on_append: "split_on c (p @ c # s) = split_on c p @ split_on c s"
proof (induction p)
  case (Cons x p)
  then show ?case by (cases "split_on c p") auto
qed simp

lemma join_snoc: "join (xs @ [x]) sep = (if xs = [] then x else join xs sep @ sep @ x)"
  by (induction xs) (auto simp: join_Cons)

text \<open>Below a fixed directory, different plain names give different paths.\<close>

lemma path_join_name:
  assumes "plain_name n"
  shows "\<exists>pre. \<forall>n. plain_name n \<longrightarrow> path_join [d, n] = pre @ n"
proof (cases "d = []")
  case True
  have "path_join [d, n] = [] @ n" if "plain_name n" for n
  proof -
    have "hd n \<noteq> CHR ''/''" using that by (cases n) (auto simp: plain_name_def)
    with that True show ?thesis
      by (simp add: path_join_def path_clean_def plain_name_def split_on_single path_step_def Let_def)
  qed
  then show ?thesis by blast
next
  case False
  define rooted where "rooted = (hd d = CHR ''/'')"
  define comps where "comps = rev (foldl (path_step rooted) [] (split_on (CHR ''/'') d))"
  define pre where "pre = (if rooted then ''/'' else []) @ (if comps = [] then [] else join comps ''/'' @ ''/'')"
  have "path_join [d, n] = pre @ n" if "plain_name n" for n
  proof -
    have j: "path_join [d, n] = path_clean (d @ CHR ''/'' # n)"
      using that False by (simp add: path_join_def plain_name_def)
    have f: "foldl (path_step rooted) [] (split_on (CHR ''/'') (d @ CHR ''/'' # n)) = n # rev comps"
      using that by (simp add: split_on_append split_on_single plain_name_def comps_def path_step_def)
    have r: "(d @ CHR ''/'' # n \<noteq> [] \<and> hd (d @ CHR ''/'' # n) = CHR ''/'') = rooted"
      using False by (simp add: rooted_def)
    have "path_clean (d @ CHR ''/'' # n) =
        (if rooted then ''/'' @ join (comps @ [n]) ''/'' else join (comps @ [n]) ''/'')"
      unfolding path_clean_def Let_def r f by simp
    then show ?thesis by (simp add: j pre_def join_snoc)
  qed
  then show ?thesis by blast
qed

lemma path_join_inj:
  "plain_name m \<Longrightarrow> plain_name n \<Longrightarrow> path_join [d, m] = path_join [d, n] \<longleftrightarrow> m = n"
  using path_join_name [of m d] by auto

section \<open>Scanning a number\<close>

text \<open>
  \<open>fmt.Sscanf(s, "%d", &n)\<close>: white space is skipped (a newline is an error), then an
  optional sign and at least one digit; the rest of the input is ignored. \<open>None\<close> is an
  error, which leaves the variable as it was.
\<close>

fun scan_skip_space :: "rune list \<Rightarrow> rune list option" where
  "scan_skip_space [] = Some []"
| "scan_skip_space (r # s) =
     (if r = 13 \<and> s \<noteq> [] \<and> hd s = 10 then scan_skip_space s
      else if r = 10 then None
      else if is_space r then scan_skip_space s
      else Some (r # s))"

definition is_digit_rune :: "rune \<Rightarrow> bool" where
  "is_digit_rune r \<longleftrightarrow> 48 \<le> r \<and> r \<le> 57"

definition digits_value :: "rune list \<Rightarrow> int" where
  "digits_value ds = foldl (\<lambda>n d. 10 * n + (int d - 48)) 0 ds"

definition sscanf_d :: "string \<Rightarrow> int option" where
  "sscanf_d s =
     (case scan_skip_space (runes s) of
        None \<Rightarrow> None
      | Some rs \<Rightarrow>
          let neg = (rs \<noteq> [] \<and> hd rs = 45);
              body = (if rs \<noteq> [] \<and> (hd rs = 45 \<or> hd rs = 43) then tl rs else rs);
              ds = takeWhile is_digit_rune body;
              n = (if neg then - digits_value ds else digits_value ds)
          in if ds = [] \<or> \<not> in_int64 n then None else Some n)"

section \<open>Searching\<close>

text \<open>\<open>strings.Contains\<close>, \<open>strings.Count\<close> and the last part of \<open>strings.Split\<close>, for a non-empty separator.\<close>

fun contains :: "string \<Rightarrow> string \<Rightarrow> bool" where
  "contains [] sub = (sub = [])"
| "contains (c # s) sub = (has_prefix (c # s) sub \<or> contains s sub)"

function count_sub :: "string \<Rightarrow> string \<Rightarrow> nat" where
  "count_sub s sub =
     (if s = [] \<or> sub = [] then 0
      else if has_prefix s sub then Suc (count_sub (drop (length sub) s) sub)
      else count_sub (tl s) sub)"
  by pat_completeness auto
termination by (relation "measure (\<lambda>(s, sub). length s)") auto

function last_part :: "string \<Rightarrow> string \<Rightarrow> string \<Rightarrow> string" where
  "last_part s sub cur =
     (if s = [] \<or> sub = [] then cur
      else if has_prefix s sub then last_part (drop (length sub) s) sub []
      else last_part (tl s) sub (cur @ [hd s]))"
  by pat_completeness auto
termination by (relation "measure (\<lambda>(s, sub, cur). length s)") auto

declare count_sub.simps [simp del] last_part.simps [simp del]

end
