(* ===== verification/GoTime.thy ===== *)
theory GoTime
  imports GoStrings
begin

text \<open>
  The parts of package \<open>time\<close> the daemon uses. A \<open>time.Time\<close> is the number of
  nanoseconds since the Unix epoch in UTC, a \<open>time.Duration\<close> a 64-bit number of
  nanoseconds. The RFC 3339 layout with nanoseconds is modelled on the proleptic Gregorian
  calendar, because the SQLite store keeps its times as text in that layout and compares
  the texts.
\<close>

section \<open>Instants and durations\<close>

type_synonym gotime = int
type_synonym duration = int

definition nanosecond_per_second :: int where "nanosecond_per_second = 1000000000"
definition time_Second :: duration where "time_Second = 1000000000"
definition time_Minute :: duration where "time_Minute = 60000000000"
definition time_Hour :: duration where "time_Hour = 3600000000000"

text \<open>\<open>time.Duration(n) * unit\<close> on 64-bit integers, \<open>t.Add(d)\<close> and \<open>t.Sub(u)\<close>, which saturates.\<close>

definition dur_times :: "int \<Rightarrow> duration \<Rightarrow> duration" where
  "dur_times n unit = wrap64 (n * unit)"

definition time_add :: "gotime \<Rightarrow> duration \<Rightarrow> gotime" where
  "time_add t d = t + d"

definition time_sub :: "gotime \<Rightarrow> gotime \<Rightarrow> duration" where
  "time_sub t u = max min_int64 (min max_int64 (t - u))"

definition time_after :: "gotime \<Rightarrow> gotime \<Rightarrow> bool" where
  "time_after t u \<longleftrightarrow> u < t"

definition time_before :: "gotime \<Rightarrow> gotime \<Rightarrow> bool" where
  "time_before t u \<longleftrightarrow> t < u"

lemmas time_defs [go_defs] = time_add_def time_after_def time_before_def
  time_Second_def time_Minute_def time_Hour_def

lemma time_sub_le: "d < max_int64 \<Longrightarrow> min_int64 \<le> d \<Longrightarrow> time_sub t u \<le> d \<longleftrightarrow> t - u \<le> d"
  by (auto simp: time_sub_def)

lemma dur_times_minute: "0 \<le> n \<Longrightarrow> n \<le> 153722867 \<Longrightarrow> dur_times n time_Minute = n * 60000000000"
  unfolding dur_times_def time_Minute_def
  by (rule wrap64_id) (simp add: in_int64_def min_int64_def max_int64_def)

text \<open>
  The successive readings of the clock during one call: \<open>clk i\<close> is the \<open>i\<close>-th call of
  \<open>time.Now()\<close>, counted along the source text of the handler.
\<close>

type_synonym clock = "nat \<Rightarrow> gotime"

section \<open>Calendar\<close>

text \<open>Days before a year of a 400-year cycle that starts in a year divisible by 400.\<close>

definition days_before_year :: "nat \<Rightarrow> nat" where
  "days_before_year y = 365 * y + (y + 3) div 4 + (y + 399) div 400 - (y + 99) div 100"

definition is_leap :: "nat \<Rightarrow> bool" where
  "is_leap y \<longleftrightarrow> y mod 4 = 0 \<and> (y mod 100 \<noteq> 0 \<or> y mod 400 = 0)"

definition month_starts :: "bool \<Rightarrow> nat list" where
  "month_starts leap =
     (if leap then [0, 31, 60, 91, 121, 152, 182, 213, 244, 274, 305, 335]
      else [0, 31, 59, 90, 120, 151, 181, 212, 243, 273, 304, 334])"

lemma div_Suc4: "(Suc y + 3) div 4 = (y + 3) div 4 + (if y mod 4 = 0 then 1 else 0)"
  using div_Suc [of "y + 3" 4] by (simp add: add.commute [of y])

lemma div_Suc100: "(Suc y + 99) div 100 = (y + 99) div 100 + (if y mod 100 = 0 then 1 else 0)"
  using div_Suc [of "y + 99" 100] by (simp add: add.commute [of y])

lemma div_Suc400: "(Suc y + 399) div 400 = (y + 399) div 400 + (if y mod 400 = 0 then 1 else 0)"
  using div_Suc [of "y + 399" 400] by (simp add: add.commute [of y])

lemma leap_count_le: "(y + 99) div 100 \<le> (y + 3) div (4::nat)"
proof (induction y)
  case (Suc y)
  have "y mod 100 = 0 \<Longrightarrow> y mod 4 = 0"
    using mod_mod_cancel [of 4 100 y] by simp
  with Suc show ?case unfolding div_Suc4 div_Suc100 by auto
qed simp

lemma days_before_year_step:
  "days_before_year (Suc y) = days_before_year y + (if is_leap y then 366 else 365)"
proof -
  have "y mod 100 = 0 \<Longrightarrow> y mod 4 = 0" "y mod 400 = 0 \<Longrightarrow> y mod 100 = 0"
    using mod_mod_cancel [of 4 100 y] mod_mod_cancel [of 100 400 y] by simp_all
  moreover have "365 + x + a + b - c = x + a + b + 365 - c" "c \<le> a \<Longrightarrow> x + a + b + 365 - c = x + a + b - c + 365"
    for x a b c :: nat by simp_all
  ultimately show ?thesis using leap_count_le [of y]
    unfolding days_before_year_def div_Suc4 div_Suc100 div_Suc400 is_leap_def by auto
qed

lemma days_before_year_ge: "365 * y \<le> days_before_year y"
  by (induction y) (simp_all add: days_before_year_step)

lemma days_before_year_le: "days_before_year y \<le> 366 * y"
  by (induction y) (simp_all add: days_before_year_step days_before_year_def [of 0])

lemma days_before_year_mono: "x \<le> y \<Longrightarrow> days_before_year x \<le> days_before_year y"
  by (rule lift_Suc_mono_le [of days_before_year]) (simp_all add: days_before_year_step)

function year_search :: "nat \<Rightarrow> nat \<Rightarrow> nat" where
  "year_search n y = (if days_before_year (Suc y) \<le> n then year_search n (Suc y) else y)"
  by pat_completeness auto
termination
proof (relation "measure (\<lambda>(n, y). n - y)")
  fix n y assume "days_before_year (Suc y) \<le> n"
  with days_before_year_ge [of "Suc y"] show "((n, Suc y), (n, y)) \<in> measure (\<lambda>(n, y). n - y)" by simp
qed simp

declare year_search.simps [simp del]

definition year_in_cycle :: "nat \<Rightarrow> nat" where
  "year_in_cycle r = year_search r (r div 366)"

lemma year_search_bounds:
  "days_before_year y \<le> n \<Longrightarrow>
     days_before_year (year_search n y) \<le> n \<and> n < days_before_year (Suc (year_search n y))"
proof (induction n y rule: year_search.induct)
  case (1 n y)
  then show ?case by (cases "days_before_year (Suc y) \<le> n") (simp_all add: year_search.simps [of n y])
qed

lemma year_in_cycle_bounds:
  "days_before_year (year_in_cycle r) \<le> r" "r < days_before_year (Suc (year_in_cycle r))"
proof -
  have "days_before_year (r div 366) \<le> r"
    using days_before_year_le [of "r div 366"] by linarith
  then show "days_before_year (year_in_cycle r) \<le> r" "r < days_before_year (Suc (year_in_cycle r))"
    using year_search_bounds unfolding year_in_cycle_def by blast+
qed

lemma year_in_cycle_mono: "r \<le> s \<Longrightarrow> year_in_cycle r \<le> year_in_cycle s"
proof (rule ccontr)
  assume "r \<le> s" "\<not> year_in_cycle r \<le> year_in_cycle s"
  then have "days_before_year (Suc (year_in_cycle s)) \<le> days_before_year (year_in_cycle r)"
    by (intro days_before_year_mono) simp
  with year_in_cycle_bounds [of r] year_in_cycle_bounds [of s] \<open>r \<le> s\<close> show False by linarith
qed

lemma year_in_cycle_less: "r < 146097 \<Longrightarrow> year_in_cycle r < 400"
proof (rule ccontr)
  assume "r < 146097" "\<not> year_in_cycle r < 400"
  then have "days_before_year 400 \<le> days_before_year (year_in_cycle r)"
    by (intro days_before_year_mono) simp
  moreover have "days_before_year 400 = 146097" by (simp add: days_before_year_def)
  ultimately show False using year_in_cycle_bounds(1) [of r] \<open>r < 146097\<close> by linarith
qed

fun month_search :: "nat list \<Rightarrow> nat \<Rightarrow> nat" where
  "month_search (a # b # xs) d = (if d < b then 0 else Suc (month_search (b # xs) d))"
| "month_search _ d = 0"

definition month_index :: "bool \<Rightarrow> nat \<Rightarrow> nat" where
  "month_index leap d = month_search (month_starts leap) d"

text \<open>Year, month and day of a day number; day 0 is the first of January of the year 0.\<close>

definition civil :: "int \<Rightarrow> int \<times> nat \<times> nat" where
  "civil n =
     (let r = nat (n mod 146097);
          y = year_in_cycle r;
          d = r - days_before_year y;
          m = month_index (is_leap y) d
      in (400 * (n div 146097) + int y, m + 1, d - month_starts (is_leap y) ! m + 1))"

definition days_of :: "int \<Rightarrow> nat \<Rightarrow> nat \<Rightarrow> int" where
  "days_of Y M D =
     146097 * (Y div 400) +
     int (days_before_year (nat (Y mod 400)) + month_starts (is_leap (nat (Y mod 400))) ! (M - 1) + (D - 1))"

lemma month_search_mono: "d \<le> e \<Longrightarrow> month_search xs d \<le> month_search xs e"
  by (induction xs d rule: month_search.induct) auto

lemma month_index_mono: "d \<le> e \<Longrightarrow> month_index l d \<le> month_index l e"
  unfolding month_index_def by (rule month_search_mono)

lemma month_search_spec:
  "xs \<noteq> [] \<Longrightarrow> hd xs \<le> d \<Longrightarrow>
     month_search xs d < length xs \<and> xs ! month_search xs d \<le> d \<and>
     (Suc (month_search xs d) < length xs \<longrightarrow> d < xs ! Suc (month_search xs d))"
  by (induction xs d rule: month_search.induct) auto

definition month_len :: "bool \<Rightarrow> nat \<Rightarrow> nat" where
  "month_len l M = (if M = 2 then (if l then 29 else 28) else if M \<in> {4, 6, 9, 11} then 30 else 31)"

lemma month_starts_len:
  "i < 12 \<Longrightarrow> (if i < 11 then month_starts l ! Suc i else if l then 366 else 365) =
     month_starts l ! i + month_len l (i + 1)"
proof -
  assume "i < 12"
  then have "i \<in> {0, 1, 2, 3, 4, 5, 6, 7, 8, 9, 10, 11}" by (simp add: numeral_eq_Suc less_Suc_eq)
  then show ?thesis by (auto simp: month_starts_def month_len_def)
qed

text \<open>The month of a day of the year is the one whose first day is the last not after it.\<close>

lemma month_index_spec:
  assumes "d < (if l then 366 else 365)"
  shows "month_index l d < 12" "month_starts l ! month_index l d \<le> d"
    "d < month_starts l ! month_index l d + month_len l (month_index l d + 1)"
proof -
  have len: "length (month_starts l) = 12" "month_starts l \<noteq> []" "hd (month_starts l) = 0"
    by (simp_all add: month_starts_def)
  then have spec: "month_index l d < 12" "month_starts l ! month_index l d \<le> d"
    "Suc (month_index l d) < 12 \<Longrightarrow> d < month_starts l ! Suc (month_index l d)"
    using month_search_spec [of "month_starts l" d] by (simp_all add: month_index_def)
  then show "month_index l d < 12" "month_starts l ! month_index l d \<le> d" by simp_all
  show "d < month_starts l ! month_index l d + month_len l (month_index l d + 1)"
    using month_starts_len [OF spec(1), of l] spec(3) assms by (cases "month_index l d < 11") simp_all
qed

lemma month_len_le: "month_len l M \<le> 31"
  by (simp add: month_len_def)

lemma year_in_cycle_day: "r - days_before_year (year_in_cycle r) < (if is_leap (year_in_cycle r) then 366 else 365)"
  using year_in_cycle_bounds [of r] by (simp add: days_before_year_step split: if_splits)

text \<open>The three components of \<open>civil\<close>, one after the other.\<close>

definition civil_year :: "int \<Rightarrow> int" where
  "civil_year n = 400 * (n div 146097) + int (year_in_cycle (nat (n mod 146097)))"

definition civil_leap :: "int \<Rightarrow> bool" where
  "civil_leap n = is_leap (year_in_cycle (nat (n mod 146097)))"

definition civil_yday :: "int \<Rightarrow> nat" where
  "civil_yday n = nat (n mod 146097) - days_before_year (year_in_cycle (nat (n mod 146097)))"

lemma civil_split:
  "civil n = (civil_year n, month_index (civil_leap n) (civil_yday n) + 1,
     civil_yday n - month_starts (civil_leap n) ! month_index (civil_leap n) (civil_yday n) + 1)"
  by (simp add: civil_def civil_year_def civil_leap_def civil_yday_def Let_def)

lemma civil_yday_less: "civil_yday n < (if civil_leap n then 366 else 365)"
  unfolding civil_yday_def civil_leap_def by (rule year_in_cycle_day)

lemma year_of_cycle: "year_in_cycle (nat (n mod 146097)) < 400"
  by (rule year_in_cycle_less) (simp add: nat_less_iff)

lemma civil_year_mod: "civil_year n mod 400 = int (year_in_cycle (nat (n mod 146097)))"
  "civil_year n div 400 = n div 146097"
  using year_of_cycle [of n] by (simp_all add: civil_year_def)

lemma civil_year_mono:
  assumes "m \<le> n" shows "civil_year m \<le> civil_year n"
proof (cases "m div 146097 = n div 146097")
  case True
  then have "m mod 146097 \<le> n mod 146097" using assms by (simp add: minus_div_mult_eq_mod [symmetric])
  then show ?thesis using True by (simp add: civil_year_def year_in_cycle_mono nat_mono)
next
  case False
  then have "m div 146097 < n div 146097" using assms zdiv_mono1 [of m n 146097] by simp
  then show ?thesis using year_of_cycle [of m] by (simp add: civil_year_def)
qed

lemma civil_same_year:
  assumes "civil_year m = civil_year n"
  shows "civil_leap m = civil_leap n" "m < n \<Longrightarrow> civil_yday m < civil_yday n"
proof -
  have y: "year_in_cycle (nat (m mod 146097)) = year_in_cycle (nat (n mod 146097))"
    using civil_year_mod(1) [of m] civil_year_mod(1) [of n] assms by simp
  then show "civil_leap m = civil_leap n" by (simp add: civil_leap_def)
  assume "m < n"
  moreover have "m div 146097 = n div 146097"
    using civil_year_mod(2) [of m] civil_year_mod(2) [of n] assms by simp
  ultimately have "m mod 146097 < n mod 146097" by (simp add: minus_div_mult_eq_mod [symmetric])
  then have "nat (m mod 146097) < nat (n mod 146097)" by (simp add: nat_mono_iff)
  then show "civil_yday m < civil_yday n"
    using year_in_cycle_bounds(1) [of "nat (m mod 146097)"] unfolding civil_yday_def y
    by (intro diff_less_mono)
qed

lemma days_of_civil:
  "civil n = (Y, M, D) \<Longrightarrow> days_of Y M D = n"
proof -
  assume "civil n = (Y, M, D)"
  then have Y: "Y = civil_year n" and M: "M - 1 = month_index (civil_leap n) (civil_yday n)"
    and D: "D - 1 = civil_yday n - month_starts (civil_leap n) ! month_index (civil_leap n) (civil_yday n)"
    by (auto simp: civil_split)
  have leap: "is_leap (nat (Y mod 400)) = civil_leap n"
    by (simp add: Y civil_year_mod civil_leap_def)
  have "month_starts (civil_leap n) ! (M - 1) + (D - 1) = civil_yday n"
    using month_index_spec(2) [OF civil_yday_less [of n]] unfolding M D by simp
  then have "days_of Y M D = 146097 * (n div 146097) +
      int (days_before_year (year_in_cycle (nat (n mod 146097))) + civil_yday n)"
    by (simp add: days_of_def leap) (simp add: Y civil_year_mod)
  also have "\<dots> = 146097 * (n div 146097) + int (nat (n mod 146097))"
    using year_in_cycle_bounds(1) [of "nat (n mod 146097)"] by (simp add: civil_yday_def)
  also have "\<dots> = n" by simp
  finally show ?thesis .
qed

lemma civil_bounds:
  assumes "civil n = (Y, M, D)"
  shows "1 \<le> M" "M \<le> 12" "1 \<le> D" "D \<le> 31"
  using assms month_index_spec [OF civil_yday_less [of n]]
    month_len_le [of "civil_leap n" "month_index (civil_leap n) (civil_yday n) + 1"]
  by (auto simp: civil_split)

section \<open>The layout time.RFC3339Nano in UTC\<close>

text \<open>Days from 0000-01-01 to the epoch, and the range of instants whose year has four digits.\<close>

definition epoch_day :: int where "epoch_day = 719528"

definition in_years :: "gotime \<Rightarrow> bool" where
  "in_years t \<longleftrightarrow> - epoch_day * 86400000000000 \<le> t \<and> t < (3652425 - epoch_day) * 86400000000000"

text \<open>\<open>appendInt(b, n, width)\<close> for the year; the other fields always fit their width.\<close>

definition year_text :: "int \<Rightarrow> string" where
  "year_text Y =
     (let n = nat \<bar>Y\<bar>; d = (if n < 10000 then fixed_dec 4 n else show_nat n)
      in if Y < 0 then ''-'' @ d else d)"

definition date_text :: "int \<Rightarrow> string" where
  "date_text n = (let (Y, M, D) = civil n in year_text Y @ ''-'' @ fixed_dec 2 M @ ''-'' @ fixed_dec 2 D)"

definition clock_text :: "nat \<Rightarrow> string" where
  "clock_text s = fixed_dec 2 (s div 3600) @ '':'' @ fixed_dec 2 (s div 60 mod 60) @ '':'' @ fixed_dec 2 (s mod 60)"

definition strip_zeros :: "string \<Rightarrow> string" where
  "strip_zeros s = rev (dropWhile (\<lambda>c. c = CHR ''0'') (rev s))"

definition frac_text :: "nat \<Rightarrow> string" where
  "frac_text n = (if n = 0 then [] else ''.'' @ strip_zeros (fixed_dec 9 n))"

definition unix_seconds :: "gotime \<Rightarrow> int" where
  "unix_seconds t = t div nanosecond_per_second"

definition seconds_text :: "int \<Rightarrow> string" where
  "seconds_text s = date_text (s div 86400 + epoch_day) @ ''T'' @ clock_text (nat (s mod 86400))"

definition rfc3339nano :: "gotime \<Rightarrow> string" where
  "rfc3339nano t =
     seconds_text (unix_seconds t) @ frac_text (nat (t mod nanosecond_per_second)) @ ''Z''"

text \<open>
  \<open>time.Parse\<close> for this layout: the strict reader \<open>parseRFC3339\<close> that the standard
  library tries first. It is the only reader a text of the store reaches, because the store
  writes no other form.
\<close>

definition parse_uint :: "string \<Rightarrow> nat \<Rightarrow> nat \<Rightarrow> nat option" where
  "parse_uint s lo hi =
     (if list_all is_digit s \<and> lo \<le> digits_val s \<and> digits_val s \<le> hi then Some (digits_val s) else None)"

definition days_in :: "nat \<Rightarrow> nat \<Rightarrow> nat" where
  "days_in M Y = month_len (is_leap Y) M"

text \<open>The fraction: its digits beyond the ninth are ignored.\<close>

definition parse_frac :: "string \<Rightarrow> nat \<times> string" where
  "parse_frac s =
     (case s of
        c # d # _ \<Rightarrow>
          if c = CHR ''.'' \<and> is_digit d then
            (let ds = takeWhile is_digit (tl s)
             in (digits_val (take 9 ds @ replicate (9 - length ds) (CHR ''0'')), dropWhile is_digit (tl s)))
          else (0, s)
      | _ \<Rightarrow> (0, s))"

definition parse_zone :: "string \<Rightarrow> int option" where
  "parse_zone s =
     (if s = ''Z'' then Some 0
      else if length s \<noteq> 6 then None
      else case (parse_uint (take 2 (drop 1 s)) 0 23, parse_uint (take 2 (drop 4 s)) 0 59) of
             (Some hr, Some mm) \<Rightarrow>
               if (s ! 0 = CHR ''-'' \<or> s ! 0 = CHR ''+'') \<and> s ! 3 = CHR '':''
               then Some ((if s ! 0 = CHR ''-'' then -1 else 1) * ((int hr * 60 + int mm) * 60))
               else None
           | _ \<Rightarrow> None)"

definition parse_rfc3339 :: "string \<Rightarrow> gotime option" where
  "parse_rfc3339 s =
     (if length s < 19 then None
      else case parse_uint (take 4 s) 0 9999 of None \<Rightarrow> None | Some Y \<Rightarrow>
           case parse_uint (take 2 (drop 5 s)) 1 12 of None \<Rightarrow> None | Some M \<Rightarrow>
           case parse_uint (take 2 (drop 8 s)) 1 (days_in M Y) of None \<Rightarrow> None | Some D \<Rightarrow>
           case parse_uint (take 2 (drop 11 s)) 0 23 of None \<Rightarrow> None | Some h \<Rightarrow>
           case parse_uint (take 2 (drop 14 s)) 0 59 of None \<Rightarrow> None | Some mi \<Rightarrow>
           case parse_uint (take 2 (drop 17 s)) 0 59 of None \<Rightarrow> None | Some sec \<Rightarrow>
           if \<not> (s ! 4 = CHR ''-'' \<and> s ! 7 = CHR ''-'' \<and> s ! 10 = CHR ''T'' \<and>
                 s ! 13 = CHR '':'' \<and> s ! 16 = CHR '':'') then None
           else
             let (nsec, rest) = parse_frac (drop 19 s)
             in case parse_zone rest of None \<Rightarrow> None | Some off \<Rightarrow>
                Some (((days_of (int Y) M D - epoch_day) * 86400 + int (h * 3600 + mi * 60 + sec) - off)
                        * nanosecond_per_second + int nsec))"

section \<open>Order of the texts\<close>

lemma epoch_range:
  "in_years t \<longleftrightarrow> 0 \<le> unix_seconds t div 86400 + epoch_day \<and>
     unix_seconds t div 86400 + epoch_day < 3652425"
proof -
  have "unix_seconds t div 86400 = t div 86400000000000"
    by (simp add: unix_seconds_def nanosecond_per_second_def div_mult2_eq' zdiv_zmult2_eq [symmetric])
  then show ?thesis by (auto simp: in_years_def epoch_day_def)
qed

lemma civil_year_range: "0 \<le> n \<Longrightarrow> n < 3652425 \<Longrightarrow> 0 \<le> civil_year n \<and> civil_year n < 10000"
proof -
  assume n: "0 \<le> n" "n < 3652425"
  then have "0 \<le> n div 146097" "n div 146097 < 25"
    using zdiv_mono1 [of n 3652424 146097] by simp_all
  then show ?thesis using year_of_cycle [of n] unfolding civil_year_def by linarith
qed

lemma dash_less [simp]: "(CHR ''-'' # us < CHR ''-'' # vs) \<longleftrightarrow> us < vs" for us vs :: string
  by (simp add: Cons_less_Cons)

lemma date_text_less:
  assumes "m < n" "0 \<le> m" "n < 3652425"
  shows "date_text m < date_text n"
proof -
  obtain Y M D Y' M' D' where c: "civil m = (Y, M, D)" "civil n = (Y', M', D')"
    by (metis prod_cases3)
  have Y: "0 \<le> Y" "Y < 10000" "0 \<le> Y'" "Y' < 10000" "Y \<le> Y'"
    using civil_year_range [of m] civil_year_range [of n] civil_year_mono [of m n] assms c
    by (auto simp: civil_split)
  have Mle: "M \<le> M'" if "Y = Y'"
    using that c civil_same_year [of m n] assms month_index_mono [of "civil_yday m" "civil_yday n"]
    by (auto simp: civil_split)
  have Dlt: "D < D'" if "Y = Y'" "M = M'"
  proof -
    from c that have y: "civil_year m = civil_year n" by (simp add: civil_split)
    have "month_index (civil_leap m) (civil_yday m) = month_index (civil_leap n) (civil_yday n)"
      using c that by (simp add: civil_split)
    with civil_same_year [OF y] assms(1) c month_index_spec(2) [OF civil_yday_less [of m]]
    show ?thesis by (auto simp: civil_split)
  qed
  have b: "M < 100" "M' < 100" "D < 100" "D' < 100"
    using civil_bounds [OF c(1)] civil_bounds [OF c(2)] by auto
  have "nat Y < nat Y' \<or> nat Y = nat Y' \<and> (M < M' \<or> M = M' \<and> D < D')"
    using Y Mle Dlt by fastforce
  then show ?thesis using Y b
    by (auto simp: date_text_def c year_text_def Let_def append_less_append fixed_dec_less)
qed

lemma colon_less [simp]: "(CHR '':'' # us < CHR '':'' # vs) \<longleftrightarrow> us < vs" for us vs :: string
  by (simp add: Cons_less_Cons)

lemma sexagesimal_less:
  fixes a b :: nat
  assumes "a < b"
  shows "a div 3600 < b div 3600 \<or> a div 3600 = b div 3600 \<and>
     (a div 60 mod 60 < b div 60 mod 60 \<or> a div 60 mod 60 = b div 60 mod 60 \<and> a mod 60 < b mod 60)"
proof -
  have h: "x div 3600 = (x div 60) div 60" for x :: nat by (simp add: div_mult2_eq [symmetric])
  have lex: "x < y \<Longrightarrow> x div 60 < y div 60 \<or> x div 60 = y div 60 \<and> x mod 60 < y mod 60" for x y :: nat
    using div_le_mono [of x y 60] by (cases "x div 60 = y div 60") (simp_all add: minus_div_mult_eq_mod [symmetric])
  show ?thesis
    using lex [OF assms] lex [of "a div 60" "b div 60"] unfolding h by auto
qed

lemma clock_text_less:
  assumes "a < b" "b < 86400" shows "clock_text a < clock_text b"
proof -
  have "a div 3600 < 100" "b div 3600 < 100" using assms by (simp_all add: less_mult_imp_div_less)
  moreover have "x mod 60 < 100" for x :: nat by (simp add: less_trans [of _ 60])
  ultimately show ?thesis using sexagesimal_less [OF assms(1)]
    by (auto simp: clock_text_def append_less_append fixed_dec_less)
qed

lemma length_clock_text [simp]: "length (clock_text n) = 8"
  by (simp add: clock_text_def)

lemma length_date_text:
  "0 \<le> n \<Longrightarrow> n < 3652425 \<Longrightarrow> length (date_text n) = 10"
  using civil_year_range [of n] by (cases "civil n") (auto simp: date_text_def year_text_def Let_def civil_split)

lemma seconds_text_less:
  assumes "in_years t" "in_years u" "unix_seconds t < unix_seconds u"
  shows "seconds_text (unix_seconds t) @ x < seconds_text (unix_seconds u) @ y"
proof -
  let ?d = "\<lambda>t. unix_seconds t div 86400 + epoch_day" and ?s = "\<lambda>t. nat (unix_seconds t mod 86400)"
  have r: "0 \<le> ?d t" "?d t < 3652425" "0 \<le> ?d u" "?d u < 3652425" using assms by (simp_all add: epoch_range)
  have le: "?d t \<le> ?d u" using assms(3) zdiv_mono1 [of "unix_seconds t" "unix_seconds u" 86400] by simp
  show ?thesis
  proof (cases "?d t = ?d u")
    case True
    then have "?s t < ?s u" using assms(3) by (simp add: minus_div_mult_eq_mod [symmetric] nat_less_eq_zless)
    moreover have "?s u < 86400" by (simp add: nat_less_iff)
    ultimately have "clock_text (?s t) < clock_text (?s u)" by (rule clock_text_less)
    then show ?thesis using True by (simp add: seconds_text_def append_less_append Cons_less_Cons)
  next
    case False
    then have "date_text (?d t) < date_text (?d u)" using le r by (intro date_text_less) auto
    then show ?thesis using r by (simp add: seconds_text_def append_less_append length_date_text)
  qed
qed

text \<open>Instants of different seconds are ordered as their texts are.\<close>

lemma rfc3339nano_less:
  "in_years t \<Longrightarrow> in_years u \<Longrightarrow> unix_seconds t < unix_seconds u \<Longrightarrow> rfc3339nano t < rfc3339nano u"
  unfolding rfc3339nano_def by (rule seconds_text_less)

lemma rfc3339nano_order:
  "in_years t \<Longrightarrow> in_years u \<Longrightarrow> rfc3339nano t < rfc3339nano u \<Longrightarrow> unix_seconds t \<le> unix_seconds u"
  using rfc3339nano_less [of u t] by (meson less_asym not_le)

section \<open>Reading back\<close>

lemma strip_zeros_pad: "strip_zeros s @ replicate (length s - length (strip_zeros s)) (CHR ''0'') = s"
proof -
  define r where "r = rev s"
  have "\<forall>c \<in> set (takeWhile (\<lambda>c. c = CHR ''0'') r). c = CHR ''0''" by (auto dest: set_takeWhileD)
  then have "takeWhile (\<lambda>c. c = CHR ''0'') r = replicate (length (takeWhile (\<lambda>c. c = CHR ''0'') r)) (CHR ''0'')"
    by (metis replicate_length_same)
  moreover have "length (takeWhile (\<lambda>c. c = CHR ''0'') r) = length r - length (dropWhile (\<lambda>c. c = CHR ''0'') r)"
    by (metis add_diff_cancel_right' length_append takeWhile_dropWhile_id)
  ultimately have "r = replicate (length r - length (dropWhile (\<lambda>c. c = CHR ''0'') r)) (CHR ''0'') @
      dropWhile (\<lambda>c. c = CHR ''0'') r"
    by (metis takeWhile_dropWhile_id)
  then have "rev r = rev (dropWhile (\<lambda>c. c = CHR ''0'') r) @
      replicate (length r - length (dropWhile (\<lambda>c. c = CHR ''0'') r)) (CHR ''0'')"
    by (metis rev_append rev_replicate)
  then show ?thesis by (simp add: strip_zeros_def r_def)
qed

lemma strip_zeros_digits: "\<forall>c \<in> set s. is_digit c \<Longrightarrow> \<forall>c \<in> set (strip_zeros s). is_digit c"
  by (auto simp: strip_zeros_def dest: set_dropWhileD)

lemma length_strip_zeros: "length (strip_zeros s) \<le> length s"
  using length_dropWhile_le [of _ "rev s"] by (simp add: strip_zeros_def)

text \<open>
  Within a second the texts do not follow the instants, for the trailing zeros of the fraction
  are dropped and the letter that follows it is greater than every digit: an instant with
  a multiple of some power of ten nanoseconds has a greater text than those right after it.
\<close>

lemma fixed_dec_append: "fixed_dec (a + b) n = fixed_dec a (n div 10 ^ b) @ fixed_dec b (n mod 10 ^ b)"
proof (induction b arbitrary: n)
  case (Suc b)
  have "n div 10 div 10 ^ b = n div 10 ^ Suc b" by (simp add: div_mult2_eq)
  moreover have "n div 10 mod 10 ^ b = n mod 10 ^ Suc b div 10" "n mod 10 ^ Suc b mod 10 = n mod 10"
    by (simp_all add: mod_mult2_eq mod_mod_cancel)
  ultimately show ?case using Suc [of "n div 10"] by simp
qed simp

lemma fixed_dec_0: "fixed_dec w 0 = replicate w (CHR ''0'')"
proof (induction w)
  case (Suc w)
  have "digit_char 0 = CHR ''0''" by code_simp
  with Suc show ?case by (simp add: replicate_append_same)
qed simp

lemma strip_zeros_append:
  "strip_zeros (xs @ ys) = (if \<forall>c \<in> set ys. c = CHR ''0'' then strip_zeros xs else xs @ strip_zeros ys)"
  by (auto simp: strip_zeros_def dropWhile_append1 dropWhile_append2 dropWhile_append)

lemma strip_zeros_replicate: "strip_zeros xs = [] \<longleftrightarrow> (\<forall>c \<in> set xs. c = CHR ''0'')"
  by (simp add: strip_zeros_def)

lemma is_digit_less_Z: "is_digit c \<Longrightarrow> c < CHR ''Z''"
  by (simp add: is_digit_def less_char_def)

lemma frac_text_less:
  assumes "m \<le> 9" "10 ^ m dvd a" "a < b" "b < a + 10 ^ m" "b < 1000000000"
  shows "frac_text b @ ''Z'' < frac_text a @ ''Z''"
proof -
  define P where "P = fixed_dec (9 - m) (a div 10 ^ m)"
  define R where "R = fixed_dec m (b - a)"
  obtain k where k: "a = 10 ^ m * k" using assms(2) by (elim dvdE)
  have r: "b - a < 10 ^ m" "a \<le> b" using assms(3,4) by linarith+
  have "b div 10 ^ m = k" using assms(3,4) by (intro div_nat_eqI) (simp_all add: k mult.commute)
  moreover have "b mod 10 ^ m = b - a" using r assms(2) by (intro mod_nat_eqI) simp_all
  moreover have "a div 10 ^ m = k" "a mod 10 ^ m = 0" by (simp_all add: k)
  ultimately have fb: "fixed_dec 9 b = P @ R" and fa: "fixed_dec 9 a = P @ replicate m (CHR ''0'')"
    using fixed_dec_append [of "9 - m" m] assms(1) by (simp_all add: P_def R_def fixed_dec_0)
  have "R \<noteq> replicate m (CHR ''0'')"
  proof
    assume "R = replicate m (CHR ''0'')"
    then have "fixed_dec m (b - a) = fixed_dec m 0" by (simp add: R_def fixed_dec_0)
    then show False using assms(3) r by (simp add: fixed_dec_inj)
  qed
  then have nz: "\<not> (\<forall>c \<in> set R. c = CHR ''0'')" by (metis R_def length_fixed_dec replicate_length_same)
  have sb: "strip_zeros (fixed_dec 9 b) = P @ strip_zeros R" and sa: "strip_zeros (fixed_dec 9 a) = strip_zeros P"
    by (simp_all add: fb fa strip_zeros_append nz)
  let ?tail = "replicate (length P - length (strip_zeros P)) (CHR ''0'') @ strip_zeros R"
  have Pd: "P = strip_zeros P @ replicate (length P - length (strip_zeros P)) (CHR ''0'')"
    by (rule strip_zeros_pad [symmetric])
  have "\<forall>c \<in> set ?tail. is_digit c"
    using strip_zeros_digits [OF fixed_dec_digits [of m "b - a"]] by (auto simp: R_def is_digit_def)
  moreover have "?tail \<noteq> []" using nz by (simp add: strip_zeros_replicate)
  ultimately obtain c cs where t: "?tail = c # cs" "is_digit c" by (cases ?tail) auto
  have "strip_zeros P @ ?tail @ ''Z'' < strip_zeros P @ ''Z''"
    by (simp add: append_less_append t Cons_less_Cons is_digit_less_Z del: append_assoc)
  then have "P @ strip_zeros R @ ''Z'' < strip_zeros P @ ''Z''" by (subst Pd) simp
  moreover have "b \<noteq> 0" using assms(3) by simp
  ultimately show ?thesis
    by (cases "a = 0") (simp_all add: frac_text_def sa sb Cons_less_Cons less_char_def)
qed

lemma rfc3339nano_coarse:
  assumes "m \<le> 9" "10 ^ m dvd t" "t < u" "u < t + 10 ^ m"
  shows "rfc3339nano u < rfc3339nano t"
proof -
  define a where "a = nat (t mod nanosecond_per_second)"
  define b where "b = nat (u mod nanosecond_per_second)"
  have d: "(10 ^ m :: int) dvd nanosecond_per_second"
    using assms(1) le_imp_power_dvd [of m 9 "10 :: int"] by (simp add: nanosecond_per_second_def)
  have p: "(0::int) < nanosecond_per_second" by (simp add: nanosecond_per_second_def)
  have "10 ^ m dvd t mod nanosecond_per_second" using assms(2) d by (simp add: dvd_mod)
  then have da: "10 ^ m dvd a" and "10 ^ m dvd nanosecond_per_second - t mod nanosecond_per_second"
    using d p by (simp_all add: a_def nat_dvd_iff int_dvd_int_iff [symmetric])
  moreover have "0 < nanosecond_per_second - t mod nanosecond_per_second" using p by simp
  ultimately have room: "10 ^ m \<le> nanosecond_per_second - t mod nanosecond_per_second" by (intro zdvd_imp_le)
  have u: "u = nanosecond_per_second * (t div nanosecond_per_second) + (t mod nanosecond_per_second + (u - t))"
    by (simp add: algebra_simps)
  have r: "0 \<le> t mod nanosecond_per_second + (u - t)" "t mod nanosecond_per_second + (u - t) < nanosecond_per_second"
    using room assms(3,4) p by simp_all
  have "u div nanosecond_per_second = t div nanosecond_per_second"
    "u mod nanosecond_per_second = t mod nanosecond_per_second + (u - t)"
    by (rule int_div_pos_eq [OF u r], rule int_mod_pos_eq [OF u r])
  then have s: "unix_seconds u = unix_seconds t" and ab: "int b = int a + (u - t)" "int b < nanosecond_per_second"
    using r p by (simp_all add: unix_seconds_def a_def b_def)
  have "int a < int b" "int b < int (a + 10 ^ m)" "int b < int 1000000000"
    using ab assms(3,4) by (simp_all add: nanosecond_per_second_def)
  then have "a < b" "b < a + 10 ^ m" "b < 1000000000" by (simp_all only: of_nat_less_iff)
  from frac_text_less [OF assms(1) da this] show ?thesis
    by (simp add: rfc3339nano_def s append_less_append a_def b_def)
qed

lemma takeWhile_digits:
  "\<forall>c \<in> set ds. is_digit c \<Longrightarrow>
     takeWhile is_digit (ds @ ''Z'') = ds \<and> dropWhile is_digit (ds @ ''Z'') = ''Z''"
  by (induction ds) (auto simp: is_digit_def)

lemma parse_frac_text:
  assumes "n < 1000000000"
  shows "parse_frac (frac_text n @ ''Z'') = (n, ''Z'')"
proof (cases "n = 0")
  case True
  then show ?thesis by (simp add: frac_text_def parse_frac_def)
next
  case False
  let ?ds = "strip_zeros (fixed_dec 9 n)"
  have dv: "digits_val (fixed_dec 9 n) = n" using assms by (intro digits_val_fixed_dec) simp
  have pad: "?ds @ replicate (9 - length ?ds) (CHR ''0'') = fixed_dec 9 n"
    using strip_zeros_pad [of "fixed_dec 9 n"] by simp
  have dig: "\<forall>c \<in> set ?ds. is_digit c" by (intro strip_zeros_digits fixed_dec_digits)
  have len: "length ?ds \<le> 9" using length_strip_zeros [of "fixed_dec 9 n"] by simp
  have "?ds \<noteq> []"
  proof
    assume "?ds = []"
    with pad have "fixed_dec 9 n = replicate 9 (CHR ''0'')" by simp
    also have "\<dots> = fixed_dec 9 0" by code_simp
    finally show False using False dv by (metis digits_val_fixed_dec zero_less_numeral zero_less_power)
  qed
  then obtain d ds where "?ds = d # ds" by (cases ?ds) auto
  with dig takeWhile_digits [OF dig] len pad dv False show ?thesis
    by (simp add: frac_text_def parse_frac_def Let_def)
qed

lemma parse_uint_fixed_dec:
  "n < 10 ^ w \<Longrightarrow> lo \<le> n \<Longrightarrow> n \<le> hi \<Longrightarrow> parse_uint (fixed_dec w n) lo hi = Some n"
  using fixed_dec_digits [of w n] by (simp add: parse_uint_def digits_val_fixed_dec list_all_iff)

lemma civil_days_in:
  "civil n = (Y, M, D) \<Longrightarrow> 0 \<le> Y \<Longrightarrow> D \<le> days_in M (nat Y)"
proof -
  assume c: "civil n = (Y, M, D)" "0 \<le> Y"
  have "is_leap (nat Y) = is_leap (nat (Y mod 400))"
    using c(2) mod_mod_cancel [of 4 400 "nat Y"] mod_mod_cancel [of 100 400 "nat Y"]
    by (simp add: is_leap_def nat_mod_distrib)
  also have "\<dots> = civil_leap n"
    using c(1) by (auto simp: civil_split civil_year_mod civil_leap_def)
  finally have leap: "is_leap (nat Y) = civil_leap n" .
  have "civil_yday n - month_starts (civil_leap n) ! month_index (civil_leap n) (civil_yday n) + 1
      \<le> month_len (civil_leap n) (month_index (civil_leap n) (civil_yday n) + 1)"
    using month_index_spec(2,3) [OF civil_yday_less [of n]] by linarith
  then show ?thesis using c(1) by (simp add: civil_split days_in_def leap)
qed

text \<open>Every instant of the years 0 to 9999 is read back exactly as it was written.\<close>

lemma fixed_dec_2: "\<exists>a b. fixed_dec 2 n = [a, b]"
proof -
  have "length (fixed_dec 2 n) = Suc (Suc 0)" by simp
  then show ?thesis unfolding length_Suc_conv by auto
qed

lemma fixed_dec_4: "\<exists>a b c d. fixed_dec 4 n = [a, b, c, d]"
proof -
  have "length (fixed_dec 4 n) = Suc (Suc (Suc (Suc 0)))" by simp
  then show ?thesis unfolding length_Suc_conv by auto
qed

lemma parse_rfc3339_fields:
  assumes "Y < 10000" "1 \<le> M" "M \<le> 12" "1 \<le> D" "D \<le> days_in M Y" "h < 24" "mi < 60" "sec < 60"
  shows "parse_rfc3339 (fixed_dec 4 Y @ ''-'' @ fixed_dec 2 M @ ''-'' @ fixed_dec 2 D @ ''T'' @
      fixed_dec 2 h @ '':'' @ fixed_dec 2 mi @ '':'' @ fixed_dec 2 sec @ r) =
    (let (nsec, rest) = parse_frac r
     in case parse_zone rest of None \<Rightarrow> None | Some off \<Rightarrow>
        Some (((days_of (int Y) M D - epoch_day) * 86400 + int (h * 3600 + mi * 60 + sec) - off)
                * nanosecond_per_second + int nsec))"
proof -
  obtain y0 y1 y2 y3 where y: "fixed_dec 4 Y = [y0, y1, y2, y3]" using fixed_dec_4 by blast
  obtain m0 m1 where m: "fixed_dec 2 M = [m0, m1]" using fixed_dec_2 by blast
  obtain d0 d1 where d: "fixed_dec 2 D = [d0, d1]" using fixed_dec_2 by blast
  obtain h0 h1 where h: "fixed_dec 2 h = [h0, h1]" using fixed_dec_2 by blast
  obtain i0 i1 where i: "fixed_dec 2 mi = [i0, i1]" using fixed_dec_2 by blast
  obtain s0 s1 where s: "fixed_dec 2 sec = [s0, s1]" using fixed_dec_2 by blast
  have "D \<le> 31" using assms(5) month_len_le [of "is_leap Y" M] by (simp add: days_in_def)
  then have u: "parse_uint [y0, y1, y2, y3] 0 9999 = Some Y" "parse_uint [m0, m1] 1 12 = Some M"
    "parse_uint [d0, d1] 1 (days_in M Y) = Some D" "parse_uint [h0, h1] 0 23 = Some h"
    "parse_uint [i0, i1] 0 59 = Some mi" "parse_uint [s0, s1] 0 59 = Some sec"
    unfolding y [symmetric] m [symmetric] d [symmetric] h [symmetric] i [symmetric] s [symmetric]
    using assms by (simp_all add: parse_uint_fixed_dec)
  let ?s = "y0 # y1 # y2 # y3 # CHR ''-'' # m0 # m1 # CHR ''-'' # d0 # d1 # CHR ''T'' #
      h0 # h1 # CHR '':'' # i0 # i1 # CHR '':'' # s0 # s1 # r"
  have p: "\<not> length ?s < 19" "take 4 ?s = [y0, y1, y2, y3]" "take 2 (drop 5 ?s) = [m0, m1]"
    "take 2 (drop 8 ?s) = [d0, d1]" "take 2 (drop 11 ?s) = [h0, h1]" "take 2 (drop 14 ?s) = [i0, i1]"
    "take 2 (drop 17 ?s) = [s0, s1]" "drop 19 ?s = r"
    "?s ! 4 = CHR ''-'' \<and> ?s ! 7 = CHR ''-'' \<and> ?s ! 10 = CHR ''T'' \<and> ?s ! 13 = CHR '':'' \<and> ?s ! 16 = CHR '':''"
    by simp_all
  show ?thesis unfolding y m d h i s parse_rfc3339_def append_Cons append_Nil p(2-8) u option.case
    using p(1,9) by simp
qed

lemma clock_fields:
  "s < 86400 \<Longrightarrow> s div 3600 < 24 \<and> s div 60 mod 60 < 60 \<and> s mod 60 < 60 \<and>
     s div 3600 * 3600 + s div 60 mod 60 * 60 + s mod 60 = (s :: nat)"
proof -
  assume "s < 86400"
  moreover have "s div 3600 = s div 60 div 60" by (simp add: div_mult2_eq [symmetric])
  moreover have "s = 60 * (s div 60) + s mod 60" "s div 60 = 60 * (s div 60 div 60) + s div 60 mod 60"
    by simp_all
  ultimately have "s div 3600 * 3600 + s div 60 mod 60 * 60 + s mod 60 = s" by linarith
  then show ?thesis using \<open>s < 86400\<close> by (simp add: less_mult_imp_div_less)
qed

lemma parse_rfc3339nano:
  assumes "in_years t"
  shows "parse_rfc3339 (rfc3339nano t) = Some t"
proof -
  define n where "n = unix_seconds t div 86400 + epoch_day"
  define s where "s = nat (unix_seconds t mod 86400)"
  define f where "f = nat (t mod nanosecond_per_second)"
  obtain Y M D where c: "civil n = (Y, M, D)" by (cases "civil n")
  have n: "0 \<le> n" "n < 3652425" using assms by (simp_all add: epoch_range n_def)
  have Y: "0 \<le> Y" "Y < 10000" using civil_year_range [OF n] c by (auto simp: civil_split)
  have s: "s < 86400" by (simp add: s_def nat_less_iff)
  have f: "f < 1000000000" by (simp add: f_def nanosecond_per_second_def nat_less_iff)
  have layout: "rfc3339nano t =
      fixed_dec 4 (nat Y) @ ''-'' @ fixed_dec 2 M @ ''-'' @ fixed_dec 2 D @ ''T'' @
      fixed_dec 2 (s div 3600) @ '':'' @ fixed_dec 2 (s div 60 mod 60) @ '':'' @ fixed_dec 2 (s mod 60) @
      (frac_text f @ ''Z'')"
    using Y by (simp add: rfc3339nano_def seconds_text_def date_text_def clock_text_def year_text_def
        Let_def c n_def [symmetric] s_def [symmetric] f_def [symmetric] nat_less_iff)
  have "(days_of (int (nat Y)) M D - epoch_day) * 86400 +
      int (s div 3600 * 3600 + s div 60 mod 60 * 60 + s mod 60) = unix_seconds t"
    unfolding conjunct2 [OF conjunct2 [OF conjunct2 [OF clock_fields [OF s]]]]
    using Y(1) days_of_civil [OF c] by (simp add: n_def s_def)
  moreover have "unix_seconds t * nanosecond_per_second + int f = t"
    by (simp add: unix_seconds_def f_def nanosecond_per_second_def)
  ultimately show ?thesis unfolding layout
    using parse_rfc3339_fields [of "nat Y" M D "s div 3600" "s div 60 mod 60" "s mod 60" "frac_text f @ ''Z''"]
      civil_bounds [OF c] civil_days_in [OF c Y(1)] clock_fields [OF s] Y
    by (simp add: parse_frac_text [OF f] parse_zone_def nat_less_iff del: of_nat_add of_nat_mult)
qed

end
