(* ===== verification/Requests.thy ===== *)
theory Requests
  imports GoTime
begin

text \<open>
  \<open>internal/pam/store_request.go\<close>: the elevation request, the interface \<open>RequestStore\<close>
  and its in-memory implementation. The interface is a record of functions over the state
  of the store, and the locale \<open>request_store\<close> states what every implementation
  promises; the facts that handlers and the server rest on are proved once inside it.
\<close>

section \<open>Elevation requests\<close>

record User =
  TelegramID :: int
  Name :: string

record ElevationRequest =
  ID :: string
  Command :: string
  Reason :: string
  Requester :: string
  TargetSystem :: string
  Status :: string
  CreatedAt :: gotime
  ExpiresAt :: gotime
  ApprovedBy :: string
  ApprovedAt :: "gotime option"
  NotifyChatID :: int
  IPAddress :: string
  UserAgent :: string
  Output :: "string option"
  ReqExitCode :: "int option"

text \<open>The zero value of \<open>time.Time\<close>, the first of January of the year 1.\<close>

definition time_zero :: gotime where
  "time_zero = - 62135596800000000000"

definition zero_request :: ElevationRequest where
  "zero_request =
     \<lparr>ID = [], Command = [], Reason = [], Requester = [], TargetSystem = [], Status = [],
      CreatedAt = time_zero, ExpiresAt = time_zero, ApprovedBy = [], ApprovedAt = None,
      NotifyChatID = 0, IPAddress = [], UserAgent = [], Output = None, ReqExitCode = None\<rparr>"

text \<open>The identifier is drawn by the UUID package; the clock is read twice.\<close>

definition NewElevationRequest ::
  "string \<Rightarrow> clock \<Rightarrow> string \<Rightarrow> string \<Rightarrow> string \<Rightarrow> string \<Rightarrow> duration \<Rightarrow> int \<Rightarrow> ElevationRequest" where
  "NewElevationRequest uuid clk command reason requester targetSystem ttl notifyChatID =
     zero_request\<lparr>ID := uuid, Command := command, Reason := reason, Requester := requester,
       TargetSystem := targetSystem, Status := ''pending'', CreatedAt := clk 0,
       ExpiresAt := time_add (clk 1) ttl, NotifyChatID := notifyChatID\<rparr>"

text \<open>
  The copy, field by field. A request is a value here; the lemma says that the copy forgets
  no field, so that handing out copies and handing out values agree.
\<close>

definition deepCopyElevationRequest :: "ElevationRequest \<Rightarrow> ElevationRequest" where
  "deepCopyElevationRequest req =
     (let copy1 = zero_request\<lparr>ID := ID req, Command := Command req, Reason := Reason req,
            Requester := Requester req, TargetSystem := TargetSystem req, Status := Status req,
            CreatedAt := CreatedAt req, ExpiresAt := ExpiresAt req, ApprovedBy := ApprovedBy req,
            NotifyChatID := NotifyChatID req, IPAddress := IPAddress req, UserAgent := UserAgent req\<rparr>;
          copy2 = (case ApprovedAt req of None \<Rightarrow> copy1 | Some a \<Rightarrow> copy1\<lparr>ApprovedAt := Some a\<rparr>);
          copy3 = (case Output req of None \<Rightarrow> copy2 | Some x \<Rightarrow> copy2\<lparr>Output := Some x\<rparr>)
      in case ReqExitCode req of None \<Rightarrow> copy3 | Some n \<Rightarrow> copy3\<lparr>ReqExitCode := Some n\<rparr>)"

lemma deepCopy_id [simp]: "deepCopyElevationRequest req = req"
  by (cases req) (simp add: deepCopyElevationRequest_def zero_request_def Let_def split: option.split)

lemma map_deepCopy [simp]: "map_option deepCopyElevationRequest q = q"
  by (cases q) simp_all

section \<open>The interface RequestStore\<close>

text \<open>
  The audit entry and the two extra methods of the PostgreSQL store that the PAM handler
  reaches with a type assertion; \<open>DBOps\<close> is \<open>None\<close> for every other store.
\<close>

record audit_entry =
  audit_action :: string
  audit_user :: "int option"
  audit_ip :: string
  audit_agent :: string
  audit_details :: "(string \<times> string) list"

record 's DBStoreOps =
  GetAuthorizedUsers :: "'s \<Rightarrow> 's \<times> (go_error + User list)"
  LogAudit :: "audit_entry \<Rightarrow> 's \<Rightarrow> 's"

text \<open>Each method takes the clock it reads and the state of the store, and returns the new state.\<close>

record 's RequestStore =
  Create :: "ElevationRequest \<Rightarrow> 's \<Rightarrow> 's \<times> go_error option"
  Get :: "string \<Rightarrow> 's \<Rightarrow> 's \<times> (go_error + ElevationRequest option)"
  Update :: "ElevationRequest \<Rightarrow> 's \<Rightarrow> 's \<times> go_error option"
  UpdateStateIf :: "clock \<Rightarrow> string \<Rightarrow> string \<Rightarrow> string \<Rightarrow> string \<Rightarrow> 's \<Rightarrow> 's \<times> (go_error + bool)"
  ListPending :: "clock \<Rightarrow> 's \<Rightarrow> 's \<times> (go_error + ElevationRequest list)"
  Delete :: "string \<Rightarrow> 's \<Rightarrow> 's \<times> go_error option"
  ExpireOldRequests :: "clock \<Rightarrow> 's \<Rightarrow> 's \<times> (go_error + int)"
  DBOps :: "'s DBStoreOps option"

definition timely :: "ElevationRequest \<Rightarrow> bool" where
  "timely r \<longleftrightarrow> in_years (CreatedAt r) \<and> in_years (ExpiresAt r) \<and>
     (case ApprovedAt r of None \<Rightarrow> True | Some t \<Rightarrow> in_years t)"

text \<open>The outcomes that record an approver and are refused once the request has expired.\<close>

definition decided :: "string \<Rightarrow> bool" where
  "decided s \<longleftrightarrow> s \<in> {''approved'', ''denied'', ''failed''}"

text \<open>
  What a request is about does not change in a state transition. The lookup is the
  abstract value of a store: the request that a fault-free \<open>Get\<close> would return.
\<close>

definition same_subject :: "ElevationRequest \<Rightarrow> ElevationRequest \<Rightarrow> bool" where
  "same_subject r r' \<longleftrightarrow> ID r' = ID r \<and> Command r' = Command r \<and> Requester r' = Requester r \<and>
     ExpiresAt r' = ExpiresAt r"

locale request_store =
  fixes st :: "'s RequestStore"
    and lookup :: "'s \<Rightarrow> string \<Rightarrow> ElevationRequest option"
    and ok :: "'s \<Rightarrow> bool"
  assumes ids: "ok s \<Longrightarrow> lookup s i = Some r \<Longrightarrow> ID r = i"
    and get: "ok s \<Longrightarrow> Get st i s = (s', q) \<Longrightarrow>
        ok s' \<and> lookup s' = lookup s \<and> (\<forall>x. q = Inr x \<longrightarrow> x = lookup s i)"
    and create: "ok s \<Longrightarrow> timely r \<Longrightarrow> Create st r s = (s', e) \<Longrightarrow>
        ok s' \<and> (\<forall>i. i \<noteq> ID r \<longrightarrow> lookup s' i = lookup s i) \<and>
        (e \<noteq> None \<longrightarrow> lookup s' = lookup s) \<and>
        (e = None \<longrightarrow> (\<exists>r'. lookup s' (ID r) = Some r' \<and> same_subject r r' \<and> Status r' = Status r))"
    and update: "ok s \<Longrightarrow> timely r \<Longrightarrow> Update st r s = (s', e) \<Longrightarrow>
        ok s' \<and> (\<forall>i. i \<noteq> ID r \<longrightarrow> lookup s' i = lookup s i) \<and>
        (e \<noteq> None \<longrightarrow> lookup s' = lookup s) \<and>
        (\<forall>r'. e = None \<and> lookup s' (ID r) = Some r' \<longrightarrow> Status r' = Status r)"
    and cas: "ok s \<Longrightarrow> in_years (clk 0) \<Longrightarrow> in_years (clk 1) \<Longrightarrow>
        UpdateStateIf st clk i old new by s = (s', b) \<Longrightarrow>
        ok s' \<and> (b = Inr False \<longrightarrow> lookup s' = lookup s) \<and>
        (b \<noteq> Inr True \<and> lookup s' = lookup s \<or>
         (\<exists>r r'. lookup s i = Some r \<and> lookup s' = (lookup s)(i \<mapsto> r') \<and>
           Status r = old \<and> Status r' = new \<and> same_subject r r' \<and>
           (decided new \<longrightarrow> unix_seconds (clk 0) \<le> unix_seconds (ExpiresAt r))))"
    and list_pending: "ok s \<Longrightarrow> ListPending st clk s = (s', ql) \<Longrightarrow>
        ok s' \<and> lookup s' = lookup s \<and>
        (\<forall>rs r. ql = Inr rs \<and> r \<in> set rs \<longrightarrow> lookup s (ID r) = Some r \<and> Status r = ''pending'')"
    and delete: "ok s \<Longrightarrow> Delete st i s = (s', e) \<Longrightarrow>
        ok s' \<and> (e \<noteq> None \<longrightarrow> lookup s' = lookup s) \<and> (e = None \<longrightarrow> lookup s' = (lookup s)(i := None))"
    and expire: "ok s \<Longrightarrow> in_years (clk 0) \<Longrightarrow> ExpireOldRequests st clk s = (s', n) \<Longrightarrow>
        ok s' \<and> (lookup s' i = lookup s i \<or>
          (\<exists>r. lookup s i = Some r \<and> Status r = ''pending'' \<and>
             unix_seconds (ExpiresAt r) \<le> unix_seconds (clk 0) \<and>
             lookup s' i = Some (r\<lparr>Status := ''expired''\<rparr>)))"
    and db_ops: "ok s \<Longrightarrow> DBOps st = Some ops \<Longrightarrow>
        ok (fst (GetAuthorizedUsers ops s)) \<and> lookup (fst (GetAuthorizedUsers ops s)) = lookup s \<and>
        ok (LogAudit ops a s) \<and> lookup (LogAudit ops a s) = lookup s"

section \<open>Sequences of calls\<close>

text \<open>
  The store serialises its calls (a mutex, or a connection pool of size one), so that any
  concurrent use of it is a sequence of calls. Each call comes with its clock. The result
  says, call by call, whether a compare-and-set succeeded.
\<close>

datatype store_call =
    CallCreate ElevationRequest
  | CallGet string
  | CallUpdate ElevationRequest
  | CallUpdateStateIf string string string string
  | CallListPending
  | CallDelete string
  | CallExpire

fun do_call :: "'s RequestStore \<Rightarrow> clock \<Rightarrow> store_call \<Rightarrow> 's \<Rightarrow> 's \<times> bool" where
  "do_call st clk (CallCreate r) s = (fst (Create st r s), False)"
| "do_call st clk (CallGet i) s = (fst (Get st i s), False)"
| "do_call st clk (CallUpdate r) s = (fst (Update st r s), False)"
| "do_call st clk (CallUpdateStateIf i old new by) s =
     (let (s', b) = UpdateStateIf st clk i old new by s in (s', b = Inr True))"
| "do_call st clk CallListPending s = (fst (ListPending st clk s), False)"
| "do_call st clk (CallDelete i) s = (fst (Delete st i s), False)"
| "do_call st clk CallExpire s = (fst (ExpireOldRequests st clk s), False)"

fun run_calls :: "'s RequestStore \<Rightarrow> (clock \<times> store_call) list \<Rightarrow> 's \<Rightarrow> 's \<times> (store_call \<times> bool) list" where
  "run_calls st [] s = (s, [])"
| "run_calls st ((clk, c) # cs) s =
     (let (s1, b) = do_call st clk c s; (s2, bs) = run_calls st cs s1 in (s2, (c, b) # bs))"

text \<open>The calls that decided the pending request \<open>i\<close>, and calls that cannot reopen it.\<close>

fun decides :: "string \<Rightarrow> store_call \<times> bool \<Rightarrow> bool" where
  "decides i (CallUpdateStateIf j old new by, b) \<longleftrightarrow> b \<and> j = i \<and> old = ''pending''"
| "decides i _ \<longleftrightarrow> False"

fun call_ok :: "string \<Rightarrow> clock \<times> store_call \<Rightarrow> bool" where
  "call_ok i (clk, CallCreate r) \<longleftrightarrow> timely r \<and> ID r \<noteq> i"
| "call_ok i (clk, CallUpdate r) \<longleftrightarrow> timely r \<and> (ID r = i \<longrightarrow> Status r \<noteq> ''pending'')"
| "call_ok i (clk, CallUpdateStateIf j old new by) \<longleftrightarrow>
     in_years (clk 0) \<and> in_years (clk 1) \<and> (j = i \<longrightarrow> new \<noteq> ''pending'')"
| "call_ok i (clk, CallExpire) \<longleftrightarrow> in_years (clk 0)"
| "call_ok i (clk, _) \<longleftrightarrow> True"

definition is_pending :: "ElevationRequest option \<Rightarrow> bool" where
  "is_pending q \<longleftrightarrow> (\<exists>r. q = Some r \<and> Status r = ''pending'')"

context request_store
begin

lemma do_call_ok: "ok s \<Longrightarrow> call_ok i (clk, c) \<Longrightarrow> ok (fst (do_call st clk c s))"
proof (cases c)
  case (CallUpdateStateIf j old new a)
  assume "ok s" "call_ok i (clk, c)"
  then show ?thesis using CallUpdateStateIf cas [of s clk j old new a]
    by (cases "UpdateStateIf st clk j old new a s") simp
qed (auto dest: get [OF _ prod.collapse [symmetric]] create [OF _ _ prod.collapse [symmetric]]
      update [OF _ _ prod.collapse [symmetric]] list_pending [OF _ prod.collapse [symmetric]]
      delete [OF _ prod.collapse [symmetric]] expire [OF _ _ prod.collapse [symmetric]])

text \<open>A request that is not pending stays so, and a successful compare-and-set makes it so.\<close>

lemma do_call_settled:
  assumes "ok s" "call_ok i (clk, c)" "\<not> is_pending (lookup s i)"
  shows "\<not> is_pending (lookup (fst (do_call st clk c s)) i)" "\<not> decides i (c, snd (do_call st clk c s))"
proof -
  have "\<not> is_pending (lookup (fst (do_call st clk c s)) i) \<and> \<not> decides i (c, snd (do_call st clk c s))"
  proof (cases c)
    case (CallCreate r)
    then have "timely r" "i \<noteq> ID r" using assms(2) by auto
    then have "lookup (fst (Create st r s)) i = lookup s i"
      using create [OF assms(1) _ prod.collapse [symmetric], of r] by blast
    then show ?thesis using CallCreate assms(3) by simp
  next
    case (CallGet j)
    then show ?thesis using assms(3) get [OF assms(1) prod.collapse [symmetric], of j] by simp
  next
    case (CallUpdate r)
    then have t: "timely r" "ID r = i \<longrightarrow> Status r \<noteq> ''pending''" using assms(2) by auto
    obtain s' e where u: "Update st r s = (s', e)" by fastforce
    note l = update [OF assms(1) t(1) u]
    have "\<not> is_pending (lookup s' i)"
    proof (cases "ID r = i \<and> e = None")
      case True
      with l t(2) show ?thesis unfolding is_pending_def by metis
    next
      case False
      with l have "lookup s' i = lookup s i" by metis
      with assms(3) show ?thesis by simp
    qed
    then show ?thesis using CallUpdate u by simp
  next
    case (CallUpdateStateIf j old new a)
    obtain s' b where u: "UpdateStateIf st clk j old new a s = (s', b)" by fastforce
    with cas [OF assms(1) _ _ u] assms CallUpdateStateIf show ?thesis
      by (auto simp: is_pending_def split: if_splits)
  next
    case CallListPending
    then show ?thesis using assms(3) list_pending [OF assms(1) prod.collapse [symmetric], of clk] by simp
  next
    case (CallDelete j)
    then have "lookup (fst (Delete st j s)) i = lookup s i \<or> lookup (fst (Delete st j s)) i = None"
      using delete [OF assms(1) prod.collapse [symmetric], of j] by (cases "snd (Delete st j s)") auto
    then show ?thesis using CallDelete assms(3) by (auto simp: is_pending_def)
  next
    case CallExpire
    then have "lookup (fst (ExpireOldRequests st clk s)) i = lookup s i"
      using expire [OF assms(1) _ prod.collapse [symmetric], of clk i] assms(2,3)
      unfolding is_pending_def by fastforce
    then show ?thesis using CallExpire assms(3) by simp
  qed
  then show "\<not> is_pending (lookup (fst (do_call st clk c s)) i)" "\<not> decides i (c, snd (do_call st clk c s))"
    by simp_all
qed

lemma do_call_decides:
  assumes "ok s" "call_ok i (clk, c)" "decides i (c, snd (do_call st clk c s))"
  shows "\<not> is_pending (lookup (fst (do_call st clk c s)) i)"
proof -
  obtain new a where c: "c = CallUpdateStateIf i ''pending'' new a"
    using assms(3) by (cases "(i, (c, snd (do_call st clk c s)))" rule: decides.cases) auto
  obtain s' b where u: "UpdateStateIf st clk i ''pending'' new a s = (s', b)" by fastforce
  with cas [OF assms(1) _ _ u] assms c show ?thesis by (auto simp: is_pending_def)
qed

lemma run_calls_settled:
  "ok s \<Longrightarrow> \<forall>c \<in> set cs. call_ok i c \<Longrightarrow> \<not> is_pending (lookup s i) \<Longrightarrow>
     filter (decides i) (snd (run_calls st cs s)) = []"
proof (induction cs arbitrary: s)
  case (Cons x cs)
  obtain clk c where x: "x = (clk, c)" by (cases x)
  with Cons show ?case
    using do_call_settled [of s i clk c] do_call_ok [of s i clk c] by (simp add: split_beta Let_def)
qed simp

lemma at_most_one_decision:
  "ok s \<Longrightarrow> \<forall>c \<in> set cs. call_ok i c \<Longrightarrow> length (filter (decides i) (snd (run_calls st cs s))) \<le> 1"
proof (induction cs arbitrary: s)
  case (Cons x cs)
  obtain clk c where x: "x = (clk, c)" by (cases x)
  let ?s = "fst (do_call st clk c s)"
  have ok: "ok ?s" using do_call_ok [of s i clk c] Cons.prems x by simp
  show ?case
  proof (cases "decides i (c, snd (do_call st clk c s))")
    case True
    with do_call_decides [of s i clk c] Cons.prems x have "\<not> is_pending (lookup ?s i)" by simp
    with run_calls_settled [OF ok] Cons.prems True show ?thesis by (simp add: x split_beta Let_def)
  next
    case False
    with Cons.IH [OF ok] Cons.prems show ?thesis by (simp add: x split_beta Let_def)
  qed
qed simp

end

section \<open>The in-memory store\<close>

text \<open>
  \<open>InMemoryRequestStore\<close>: a Go map from identifiers to requests. The order in which
  \<open>range\<close> visits the map is chosen by the runtime; it is the argument \<open>ord\<close>, a
  function from the map to the list of keys visited.
\<close>

record InMemoryRequestStore =
  requests :: "string \<Rightarrow> ElevationRequest option"

type_synonym range_order = "(string \<Rightarrow> ElevationRequest option) \<Rightarrow> string list"

definition NewInMemoryRequestStore :: InMemoryRequestStore where
  "NewInMemoryRequestStore = \<lparr>requests = Map.empty\<rparr>"

definition mem_Create ::
  "ElevationRequest \<Rightarrow> InMemoryRequestStore \<Rightarrow> InMemoryRequestStore \<times> go_error option" where
  "mem_Create req s = (s\<lparr>requests := (requests s)(ID req \<mapsto> deepCopyElevationRequest req)\<rparr>, None)"

definition mem_Get ::
  "string \<Rightarrow> InMemoryRequestStore \<Rightarrow> InMemoryRequestStore \<times> (go_error + ElevationRequest option)" where
  "mem_Get i s = (s, Inr (map_option deepCopyElevationRequest (requests s i)))"

definition mem_Update ::
  "ElevationRequest \<Rightarrow> InMemoryRequestStore \<Rightarrow> InMemoryRequestStore \<times> go_error option" where
  "mem_Update req s = (s\<lparr>requests := (requests s)(ID req \<mapsto> deepCopyElevationRequest req)\<rparr>, None)"

definition mem_UpdateStateIf ::
  "clock \<Rightarrow> string \<Rightarrow> string \<Rightarrow> string \<Rightarrow> string \<Rightarrow> InMemoryRequestStore \<Rightarrow>
     InMemoryRequestStore \<times> (go_error + bool)" where
  "mem_UpdateStateIf clk i expectedState newState approvedBy s =
     (case requests s i of
        None \<Rightarrow> (s, Inr False)
      | Some req \<Rightarrow>
          if Status req \<noteq> expectedState then (s, Inr False)
          else if time_after (clk 0) (ExpiresAt req) then (s, Inr False)
          else
            let reqCopy = (deepCopyElevationRequest req)\<lparr>Status := newState\<rparr>;
                reqCopy' =
                  (if newState = ''approved'' \<and> approvedBy \<noteq> []
                   then reqCopy\<lparr>ApprovedBy := approvedBy, ApprovedAt := Some (clk 1)\<rparr>
                   else reqCopy\<lparr>ApprovedBy := [], ApprovedAt := None\<rparr>)
            in (s\<lparr>requests := (requests s)(i \<mapsto> reqCopy')\<rparr>, Inr True))"

text \<open>The loop reads the clock for each pending request it meets.\<close>

fun mem_list_loop ::
  "clock \<Rightarrow> nat \<Rightarrow> (string \<Rightarrow> ElevationRequest option) \<Rightarrow> string list \<Rightarrow> ElevationRequest list" where
  "mem_list_loop clk n m [] = []"
| "mem_list_loop clk n m (i # ks) =
     (case m i of
        None \<Rightarrow> mem_list_loop clk n m ks
      | Some req \<Rightarrow>
          if Status req = ''pending'' then
            (if time_before (clk n) (ExpiresAt req)
             then deepCopyElevationRequest req # mem_list_loop clk (Suc n) m ks
             else mem_list_loop clk (Suc n) m ks)
          else mem_list_loop clk n m ks)"

definition mem_ListPending ::
  "range_order \<Rightarrow> clock \<Rightarrow> InMemoryRequestStore \<Rightarrow>
     InMemoryRequestStore \<times> (go_error + ElevationRequest list)" where
  "mem_ListPending ord clk s = (s, Inr (mem_list_loop clk 0 (requests s) (ord (requests s))))"

definition mem_Delete :: "string \<Rightarrow> InMemoryRequestStore \<Rightarrow> InMemoryRequestStore \<times> go_error option" where
  "mem_Delete i s = (s\<lparr>requests := (requests s)(i := None)\<rparr>, None)"

fun mem_expire_loop ::
  "gotime \<Rightarrow> string list \<Rightarrow> (string \<Rightarrow> ElevationRequest option) \<Rightarrow> int \<Rightarrow>
     (string \<Rightarrow> ElevationRequest option) \<times> int" where
  "mem_expire_loop now [] m n = (m, n)"
| "mem_expire_loop now (i # ks) m n =
     (case m i of
        None \<Rightarrow> mem_expire_loop now ks m n
      | Some req \<Rightarrow>
          if Status req = ''pending'' \<and> time_after now (ExpiresAt req)
          then mem_expire_loop now ks (m(i \<mapsto> (deepCopyElevationRequest req)\<lparr>Status := ''expired''\<rparr>)) (n + 1)
          else mem_expire_loop now ks m n)"

definition mem_ExpireOldRequests ::
  "range_order \<Rightarrow> clock \<Rightarrow> InMemoryRequestStore \<Rightarrow> InMemoryRequestStore \<times> (go_error + int)" where
  "mem_ExpireOldRequests ord clk s =
     (let (m, n) = mem_expire_loop (clk 0) (ord (requests s)) (requests s) 0
      in (s\<lparr>requests := m\<rparr>, Inr n))"

definition mem_store :: "range_order \<Rightarrow> InMemoryRequestStore RequestStore" where
  "mem_store ord =
     \<lparr>Create = mem_Create, Get = mem_Get, Update = mem_Update, UpdateStateIf = mem_UpdateStateIf,
      ListPending = mem_ListPending ord, Delete = mem_Delete,
      ExpireOldRequests = mem_ExpireOldRequests ord, DBOps = None\<rparr>"

lemmas mem_defs = mem_store_def mem_Create_def mem_Get_def mem_Update_def mem_UpdateStateIf_def
  mem_ListPending_def mem_Delete_def mem_ExpireOldRequests_def

text \<open>Every stored request is filed under its own identifier.\<close>

definition mem_ok :: "InMemoryRequestStore \<Rightarrow> bool" where
  "mem_ok s \<longleftrightarrow> (\<forall>i r. requests s i = Some r \<longrightarrow> ID r = i)"

lemma unix_seconds_mono: "t \<le> u \<Longrightarrow> unix_seconds t \<le> unix_seconds u"
  by (simp add: unix_seconds_def nanosecond_per_second_def zdiv_mono1)

text \<open>What the expiry loop does to one key: the order of the visit does not matter.\<close>

definition expired_entry :: "gotime \<Rightarrow> ElevationRequest \<Rightarrow> bool" where
  "expired_entry now r \<longleftrightarrow> Status r = ''pending'' \<and> ExpiresAt r < now"

definition expire_entry :: "gotime \<Rightarrow> ElevationRequest \<Rightarrow> ElevationRequest" where
  "expire_entry now r = (if expired_entry now r then r\<lparr>Status := ''expired''\<rparr> else r)"

definition expired_keys :: "gotime \<Rightarrow> (string \<Rightarrow> ElevationRequest option) \<Rightarrow> string set" where
  "expired_keys now m = {i. \<exists>r. m i = Some r \<and> expired_entry now r}"

lemma mem_expire_loop_step:
  "mem_expire_loop now (i # ks) m n =
     (if i \<in> expired_keys now m
      then mem_expire_loop now ks (m(i \<mapsto> (the (m i))\<lparr>Status := ''expired''\<rparr>)) (n + 1)
      else mem_expire_loop now ks m n)"
  by (simp add: expired_keys_def expired_entry_def time_after_def split: option.split)

lemma mem_expire_loop_spec:
  "mem_expire_loop now ks m n =
     ((\<lambda>i. if i \<in> set ks then map_option (expire_entry now) (m i) else m i),
      n + int (card (expired_keys now m \<inter> set ks)))"
proof (induction ks arbitrary: m n)
  case (Cons i ks)
  show ?case
  proof (cases "i \<in> expired_keys now m")
    case True
    then obtain r where r: "m i = Some r" "expired_entry now r" by (auto simp: expired_keys_def)
    let ?m = "m(i \<mapsto> r\<lparr>Status := ''expired''\<rparr>)"
    have "expired_keys now ?m = expired_keys now m - {i}"
      by (auto simp: expired_keys_def expired_entry_def)
    then have "expired_keys now m \<inter> set (i # ks) = insert i (expired_keys now ?m \<inter> set ks)"
      using True by auto
    moreover have "i \<notin> expired_keys now ?m" by (simp add: \<open>expired_keys now ?m = _\<close>)
    ultimately have "card (expired_keys now m \<inter> set (i # ks)) = Suc (card (expired_keys now ?m \<inter> set ks))"
      by simp
    moreover have "expire_entry now (r\<lparr>Status := ''expired''\<rparr>) = r\<lparr>Status := ''expired''\<rparr>"
      by (simp add: expire_entry_def expired_entry_def)
    ultimately show ?thesis using True r
      by (simp add: mem_expire_loop_step Cons.IH [of ?m "n + 1"] del: mem_expire_loop.simps)
        (auto simp: expire_entry_def fun_upd_def)
  next
    case False
    then have "expired_keys now m \<inter> set (i # ks) = expired_keys now m \<inter> set ks" by auto
    moreover have "map_option (expire_entry now) (m i) = m i"
      using False by (cases "m i") (auto simp: expired_keys_def expire_entry_def)
    ultimately show ?thesis using False Cons.IH [of m n]
      by (auto simp: mem_expire_loop_step intro!: ext simp del: mem_expire_loop.simps)
  qed
qed simp

lemma mem_list_loop_sound:
  "r \<in> set (mem_list_loop clk n m ks) \<Longrightarrow> \<exists>i. m i = Some r \<and> Status r = ''pending''"
  by (induction clk n m ks rule: mem_list_loop.induct) (auto split: option.splits if_splits)

interpretation mem: request_store "mem_store ord" requests mem_ok
proof (unfold_locales, goal_cases)
  case (5 s clk i old new a s' b)
  then show ?case
    by (auto simp: mem_defs mem_ok_def same_subject_def time_after_def Let_def unix_seconds_mono
        split: option.splits if_splits)
next
  case (6 s clk s' q)
  then show ?case using mem_list_loop_sound [of _ clk 0 "requests s" "ord (requests s)"]
    by (fastforce simp: mem_defs mem_ok_def)
next
  case (8 s clk s' n i)
  then have "requests s' i = (if i \<in> set (ord (requests s))
      then map_option (expire_entry (clk 0)) (requests s i) else requests s i)"
    by (auto simp: mem_defs mem_expire_loop_spec)
  moreover have "mem_ok s'" using 8
    by (auto simp: mem_defs mem_ok_def mem_expire_loop_spec expire_entry_def split: if_splits)
  ultimately show ?case
    by (cases "requests s i") (auto simp: expire_entry_def expired_entry_def unix_seconds_mono)
qed (auto simp: mem_defs mem_ok_def same_subject_def split: if_splits)

section \<open>Properties of the in-memory store\<close>

text \<open>
  C12: on the in-memory store a pending request is decided at most once: in any sequence of
  calls (hence under any interleaving of handlers, since every method holds the mutex) in
  which no call creates the request again or writes the status pending back to it, at most
  one \<open>UpdateStateIf\<close> from \<open>pending\<close> on the request returns true. The times of the calls lie in
  four-digit years.
\<close>

theorem mem_at_most_one_decision:
  assumes "mem_ok s" "\<forall>c \<in> set cs. call_ok i c"
  shows "length (filter (decides i) (snd (run_calls (mem_store ord) cs s))) \<le> 1"
  using assms by (rule mem.at_most_one_decision)

definition sample_request :: ElevationRequest where
  "sample_request = zero_request\<lparr>ID := ''r1'', Command := ''apt install curl'', Status := ''pending'',
     CreatedAt := 1700000000000000000, ExpiresAt := 1700000300000000000\<rparr>"

definition sample_mem :: InMemoryRequestStore where
  "sample_mem = fst (mem_Create sample_request NewInMemoryRequestStore)"

definition sample_race :: "(clock \<times> store_call) list" where
  "sample_race =
     [(\<lambda>_. 1700000001000000000, CallUpdateStateIf ''r1'' ''pending'' ''approved'' ''tg:1''),
      (\<lambda>_. 1700000002000000000, CallUpdateStateIf ''r1'' ''pending'' ''denied'' ''tg:2'')]"

theorem mem_at_most_one_decision_witness:
  "mem_ok sample_mem \<and> list_all (call_ok ''r1'') sample_race \<and>
   map snd (snd (run_calls (mem_store (\<lambda>_. [''r1''])) sample_race sample_mem)) = [True, False] \<and>
   length (filter (decides ''r1'') (snd (run_calls (mem_store (\<lambda>_. [''r1''])) sample_race sample_mem))) \<le> 1"
proof -
  have ok: "mem_ok sample_mem" by (simp add: mem_ok_def sample_mem_def mem_defs NewInMemoryRequestStore_def)
  have c: "\<forall>c \<in> set sample_race. call_ok ''r1'' c" by code_simp
  have "map snd (snd (run_calls (mem_store (\<lambda>_. [''r1''])) sample_race sample_mem)) = [True, False]"
    by code_simp
  with ok c [folded list_all_iff] mem_at_most_one_decision [OF ok c, of "\<lambda>_. [''r1'']"] show ?thesis by blast
qed

text \<open>
  The exact behaviour of \<open>UpdateStateIf\<close> on the in-memory store: it answers true
  precisely for a stored request in the expected state that has not expired, whatever the
  new state is; then only that entry changes, to the new state, with approver and time
  recorded for an approval and cleared otherwise; and it never reports an error.
\<close>

theorem mem_UpdateStateIf_characterisation:
  "mem_UpdateStateIf clk i old new approver s =
     (case requests s i of
        None \<Rightarrow> (s, Inr False)
      | Some r \<Rightarrow>
          if Status r = old \<and> clk 0 \<le> ExpiresAt r
          then (s\<lparr>requests := (requests s)(i \<mapsto>
                 (if new = ''approved'' \<and> approver \<noteq> []
                  then r\<lparr>Status := new, ApprovedBy := approver, ApprovedAt := Some (clk 1)\<rparr>
                  else r\<lparr>Status := new, ApprovedBy := [], ApprovedAt := None\<rparr>))\<rparr>, Inr True)
          else (s, Inr False))"
  by (auto simp: mem_UpdateStateIf_def time_after_def Let_def split: option.split)

text \<open>
  \<open>UpdateStateIf\<close> of the in-memory store can never mark an expired request: once
  the clock is past \<open>ExpiresAt\<close>, the call that the handlers make to set the status to
  \<open>expired\<close> answers false and leaves the request pending.
\<close>

theorem mem_cannot_mark_expired:
  assumes "requests s i = Some r" "ExpiresAt r < clk 0"
  shows "mem_UpdateStateIf clk i ''pending'' ''expired'' [] s = (s, Inr False)"
  using assms by (simp add: mem_UpdateStateIf_def time_after_def)

theorem mem_cannot_mark_expired_witness:
  "mem_UpdateStateIf (\<lambda>_. 1700000301000000000) ''r1'' ''pending'' ''expired'' [] sample_mem =
     (sample_mem, Inr False)"
proof -
  have "requests sample_mem ''r1'' = Some sample_request"
    by (simp add: sample_mem_def mem_defs sample_request_def)
  then show ?thesis
    by (rule mem_cannot_mark_expired) (simp add: sample_request_def)
qed

text \<open>
  \<open>ExpireOldRequests\<close> does not depend on the order in which Go visits the map: for
  every order that visits each stored key it turns exactly the pending requests whose
  expiry lies before the clock into expired ones, leaves all others alone and returns
  their number.
\<close>

theorem mem_ExpireOldRequests_spec:
  assumes "dom (requests s) \<subseteq> set (ord (requests s))"
  shows "mem_ExpireOldRequests ord clk s =
     (s\<lparr>requests := (\<lambda>i. map_option (expire_entry (clk 0)) (requests s i))\<rparr>,
      Inr (int (card (expired_keys (clk 0) (requests s)))))"
proof -
  have "expired_keys (clk 0) (requests s) \<inter> set (ord (requests s)) = expired_keys (clk 0) (requests s)"
    using assms by (auto simp: expired_keys_def)
  moreover have "(if i \<in> set (ord (requests s)) then map_option (expire_entry (clk 0)) (requests s i)
      else requests s i) = map_option (expire_entry (clk 0)) (requests s i)" for i
    using assms by (cases "requests s i") auto
  ultimately show ?thesis by (simp add: mem_ExpireOldRequests_def mem_expire_loop_spec)
qed

theorem mem_ExpireOldRequests_spec_witness:
  "dom (requests sample_mem) \<subseteq> set [''r1''] \<and>
   snd (mem_ExpireOldRequests (\<lambda>_. [''r1'']) (\<lambda>_. 1700000301000000000) sample_mem) =
     Inr (int (card (expired_keys 1700000301000000000 (requests sample_mem))))"
proof -
  have d: "dom (requests sample_mem) \<subseteq> set [''r1'']"
    by (simp add: sample_mem_def mem_defs sample_request_def NewInMemoryRequestStore_def)
  with mem_ExpireOldRequests_spec [of sample_mem "\<lambda>_. [''r1'']" "\<lambda>_. 1700000301000000000"]
  show ?thesis by simp
qed

end
