(* ===== verification/Http.thy ===== *)
theory Http
  imports Requests
begin

text \<open>
  HTTP requests and responses as the handlers see them, and the JSON values they write.
  A request carries what a handler reads of it; a response is its status, its body and the
  headers set by the middleware.
\<close>

datatype json =
    JNull
  | JBool bool
  | JInt int
  | JStr string
  | JTime gotime \<comment> \<open>a \<open>time.Time\<close>, printed in the zone it carries\<close>
  | JArr "json list"
  | JObj "(string \<times> json) list"

datatype http_body =
    NoBody
  | TextBody string
  | JsonBody json

record http_response =
  resp_status :: int
  resp_headers :: "(string \<times> string) list"
  resp_body :: http_body

record http_request =
  Method :: string
  URLPath :: string
  Header :: "string \<Rightarrow> string"
  QueryGet :: "string \<Rightarrow> string"
  RemoteAddr :: string
  ReqBody :: string

definition StatusOK :: int where "StatusOK = 200"
definition StatusCreated :: int where "StatusCreated = 201"
definition StatusBadRequest :: int where "StatusBadRequest = 400"
definition StatusUnauthorized :: int where "StatusUnauthorized = 401"
definition StatusForbidden :: int where "StatusForbidden = 403"
definition StatusNotFound :: int where "StatusNotFound = 404"
definition StatusMethodNotAllowed :: int where "StatusMethodNotAllowed = 405"
definition StatusConflict :: int where "StatusConflict = 409"
definition StatusGone :: int where "StatusGone = 410"
definition StatusInternalServerError :: int where "StatusInternalServerError = 500"

lemmas status_defs [handler_defs] = StatusOK_def StatusCreated_def StatusBadRequest_def
  StatusUnauthorized_def StatusForbidden_def StatusNotFound_def StatusMethodNotAllowed_def
  StatusConflict_def StatusGone_def StatusInternalServerError_def

text \<open>\<open>http.Error\<close> writes a line of text, \<open>http.NotFound\<close> its standard one.\<close>

definition http_Error :: "string \<Rightarrow> int \<Rightarrow> http_response" where
  "http_Error msg code = \<lparr>resp_status = code, resp_headers = [], resp_body = TextBody (msg @ [CHR 0x0A])\<rparr>"

definition http_NotFound :: http_response where
  "http_NotFound = http_Error ''404 page not found'' StatusNotFound"

definition empty_response :: "int \<Rightarrow> http_response" where
  "empty_response code = \<lparr>resp_status = code, resp_headers = [], resp_body = NoBody\<rparr>"

text \<open>A handler that panics: the server recovers and drops the connection without a response.\<close>

definition handler_panic :: http_response where
  "handler_panic = \<lparr>resp_status = 0, resp_headers = [], resp_body = NoBody\<rparr>"

text \<open>The two response helpers, which the PAM and the v1 handlers define alike.\<close>

definition respond :: "json \<Rightarrow> http_response" where
  "respond data = \<lparr>resp_status = StatusOK, resp_headers = [], resp_body = JsonBody data\<rparr>"

definition respondError :: "int \<Rightarrow> string \<Rightarrow> http_response" where
  "respondError code message =
     \<lparr>resp_status = code, resp_headers = [], resp_body = JsonBody (JObj [(''error'', JStr message)])\<rparr>"

lemma respond_status [simp]: "resp_status (respond d) = 200" "resp_status (respondError c m) = c"
  "resp_status (http_Error m c) = c" "resp_status (empty_response c) = c"
  by (simp_all add: respond_def respondError_def http_Error_def empty_response_def StatusOK_def)

text \<open>The JSON form of a request: empty optional fields are omitted.\<close>

definition json_of_request :: "ElevationRequest \<Rightarrow> json" where
  "json_of_request r = JObj (
     [(''id'', JStr (ID r)), (''command'', JStr (Command r)), (''reason'', JStr (Reason r)),
      (''requester'', JStr (Requester r)), (''target_system'', JStr (TargetSystem r)),
      (''status'', JStr (Status r)), (''created_at'', JTime (CreatedAt r)),
      (''expires_at'', JTime (ExpiresAt r))] @
     (if ApprovedBy r = [] then [] else [(''approved_by'', JStr (ApprovedBy r))]) @
     (case ApprovedAt r of None \<Rightarrow> [] | Some t \<Rightarrow> [(''approved_at'', JTime t)]) @
     [(''notify_chat_id'', JInt (NotifyChatID r))] @
     (if IPAddress r = [] then [] else [(''ip_address'', JStr (IPAddress r))]) @
     (if UserAgent r = [] then [] else [(''user_agent'', JStr (UserAgent r))]) @
     (case Output r of None \<Rightarrow> [] | Some x \<Rightarrow> [(''output'', JStr x)]) @
     (case ReqExitCode r of None \<Rightarrow> [] | Some n \<Rightarrow> [(''exit_code'', JInt n)]))"

text \<open>\<open>t.Format(time.RFC3339)\<close> for a time in UTC.\<close>

definition rfc3339 :: "gotime \<Rightarrow> string" where
  "rfc3339 t = seconds_text (unix_seconds t) @ ''Z''"

text \<open>
  What \<open>http.ServeMux\<close> does before it looks for a route: the path is cleaned, and a request
  for another path than the cleaned one is redirected.
\<close>

definition http_clean_path :: "string \<Rightarrow> string" where
  "http_clean_path p =
     (if p = [] then ''/''
      else let p1 = (if hd p = CHR ''/'' then p else ''/'' @ p);
               np = path_clean p1
           in if last p1 = CHR ''/'' \<and> np \<noteq> ''/'' then np @ ''/'' else np)"

text \<open>\<open>http.Redirect\<close>: the body, a link, is written for GET only.\<close>

definition html_escape :: "string \<Rightarrow> string" where
  "html_escape u =
     concat (map (\<lambda>c. if c = CHR ''&'' then ''&amp;'' else if c = CHR ''<'' then ''&lt;'' else if c = CHR ''>'' then ''&gt;''
        else if c = CHR 0x22 then ''&#34;'' else if c = CHR 0x27 then ''&#39;'' else [c]) u)"

definition redirect :: "http_request \<Rightarrow> string \<Rightarrow> http_response" where
  "redirect r url =
     \<lparr>resp_status = 301, resp_headers = [(''Location'', url)],
      resp_body = (if Method r = ''GET''
        then TextBody (''<a href='' @ [CHR 0x22] @ html_escape url @ [CHR 0x22] @ ''>Moved Permanently</a>.'' @ [CHR 0x0A])
        else NoBody)\<rparr>"

text \<open>The clock readings from the \<open>k\<close>-th on, for a callee.\<close>

definition clk_from :: "nat \<Rightarrow> clock \<Rightarrow> clock" where
  "clk_from k clk = (\<lambda>i. clk (k + i))"

lemma clk_from_simps [simp]: "clk_from k clk i = clk (k + i)"
  by (simp add: clk_from_def)

end
