(* ===== verification/OpenClaw.thy ===== *)
theory OpenClaw
  imports Http
begin

text \<open>
  \<open>internal/notifications/openclaw.go\<close>: the client of the OpenClaw webhook. A notification
  returns the posts that were attempted and the error, if any. The HTTP client is outside
  the program: it is a function from a post to a failure or a status code.
\<close>

section \<open>The notifier\<close>

record OpenClawNotifier =
  webhookURL :: string
  oc_enabled :: bool

record Notification =
  nt_Type :: string
  nt_RequestID :: string
  nt_Command :: string
  nt_Reason :: string
  nt_Requester :: string
  nt_ExpiresAt :: gotime
  nt_Metadata :: "(string \<times> json) list"

record NotificationRequest =
  nr_RequestID :: string
  nr_Command :: string
  nr_Reason :: string
  nr_Requester :: string
  nr_TargetSystem :: string
  nr_ExpiresAt :: gotime

record webhook_post =
  post_url :: string
  post_headers :: "(string \<times> string) list"
  post_payload :: Notification

record openclaw_net =
  bad_url :: "string \<Rightarrow> go_error option" \<comment> \<open>\<open>http.NewRequestWithContext\<close>\<close>
  http_do :: "webhook_post \<Rightarrow> go_error + int"

definition zero_notification :: Notification where
  "zero_notification = \<lparr>nt_Type = [], nt_RequestID = [], nt_Command = [], nt_Reason = [], nt_Requester = [],
     nt_ExpiresAt = time_zero, nt_Metadata = []\<rparr>"

definition NewOpenClawNotifier :: "string \<Rightarrow> OpenClawNotifier" where
  "NewOpenClawNotifier url = \<lparr>webhookURL = url, oc_enabled = (url \<noteq> [])\<rparr>"

text \<open>Only a year outside the range of the JSON form of a time makes \<open>json.Marshal\<close> fail.\<close>

definition marshal_notification :: "Notification \<Rightarrow> go_error option" where
  "marshal_notification p =
     (if in_years (nt_ExpiresAt p) then None
      else Some ''json: error calling MarshalJSON for type time.Time: Time.MarshalJSON: year outside of range [0,9999]'')"

definition oc_send ::
  "openclaw_net \<Rightarrow> OpenClawNotifier \<Rightarrow> Notification \<Rightarrow> webhook_post list \<times> go_error option" where
  "oc_send net n payload =
     (case marshal_notification payload of
        Some err \<Rightarrow> ([], Some (''marshal notification: '' @ err))
      | None \<Rightarrow>
     (case bad_url net (webhookURL n) of
        Some err \<Rightarrow> ([], Some (''create request: '' @ err))
      | None \<Rightarrow>
          let p = \<lparr>post_url = webhookURL n,
                   post_headers = [(''Content-Type'', ''application/json''), (''User-Agent'', ''KingCrab/1.0'')],
                   post_payload = payload\<rparr>
          in case http_do net p of
               Inl err \<Rightarrow> ([p], Some (''send notification: '' @ err))
             | Inr code \<Rightarrow>
                 if code < 200 \<or> code \<ge> 300
                 then ([p], Some (''notification failed: status '' @ show_int code))
                 else ([p], None)))"

definition truncateOutput :: "string \<Rightarrow> nat \<Rightarrow> string" where
  "truncateOutput s maxLen =
     (let rs = runes s
      in if length rs \<le> maxLen then s else string_of_runes (take maxLen rs) @ ''...'')"

section \<open>The four notifications\<close>

definition oc_Notify ::
  "openclaw_net \<Rightarrow> OpenClawNotifier \<Rightarrow> NotificationRequest \<Rightarrow> webhook_post list \<times> go_error option" where
  "oc_Notify net n req =
     (if \<not> oc_enabled n then ([], None)
      else oc_send net n (zero_notification\<lparr>nt_Type := ''new_request'', nt_RequestID := nr_RequestID req,
        nt_Command := nr_Command req, nt_Reason := nr_Reason req, nt_Requester := nr_Requester req,
        nt_ExpiresAt := nr_ExpiresAt req,
        nt_Metadata := [(''target_system'', JStr (nr_TargetSystem req))]\<rparr>))"

definition oc_NotifyApproved ::
  "openclaw_net \<Rightarrow> OpenClawNotifier \<Rightarrow> string \<Rightarrow> string \<Rightarrow> webhook_post list \<times> go_error option" where
  "oc_NotifyApproved net n reqID command =
     (if \<not> oc_enabled n then ([], None)
      else oc_send net n (zero_notification\<lparr>nt_Type := ''request_approved'', nt_RequestID := reqID,
        nt_Command := command\<rparr>))"

definition oc_NotifyDenied ::
  "openclaw_net \<Rightarrow> OpenClawNotifier \<Rightarrow> string \<Rightarrow> string \<Rightarrow> string \<Rightarrow> webhook_post list \<times> go_error option" where
  "oc_NotifyDenied net n reqID command reason =
     (if \<not> oc_enabled n then ([], None)
      else oc_send net n (zero_notification\<lparr>nt_Type := ''request_denied'', nt_RequestID := reqID,
        nt_Command := command, nt_Metadata := [(''reason'', JStr reason)]\<rparr>))"

definition oc_NotifyExecuted ::
  "openclaw_net \<Rightarrow> OpenClawNotifier \<Rightarrow> string \<Rightarrow> string \<Rightarrow> int \<Rightarrow> string \<Rightarrow> webhook_post list \<times> go_error option" where
  "oc_NotifyExecuted net n reqID command exitCode out =
     (if \<not> oc_enabled n then ([], None)
      else oc_send net n (zero_notification\<lparr>nt_Type := ''request_executed'', nt_RequestID := reqID,
        nt_Command := command,
        nt_Metadata := [(''exit_code'', JInt exitCode), (''output'', JStr (truncateOutput out 500))]\<rparr>))"

section \<open>Properties\<close>

lemma take_runes_valid: "\<forall>r \<in> set (take n (runes s)). valid_rune r"
  using runes_valid in_set_takeD by fastforce

text \<open>
  The output of a command is cut at a rune boundary: the text sent holds at most the
  given number of runes and the three dots, is the output itself when that is short enough,
  and otherwise the UTF-8 text of its first runes followed by the dots.
\<close>

theorem truncateOutput_bounds:
  "length (runes (truncateOutput s n)) \<le> n + 3 \<and>
   (if length (runes s) \<le> n then truncateOutput s n = s
    else runes (truncateOutput s n) = take n (runes s) @ [46, 46, 46] \<and> valid_utf8 (truncateOutput s n))"
proof (cases "length (runes s) \<le> n")
  case False
  have dots: "''...'' = string_of_runes [46, 46, 46]" by code_simp
  have v: "\<forall>r \<in> set (take n (runes s) @ [46, 46, 46]). valid_rune r"
    using take_runes_valid [of n s] by (auto simp: valid_rune_def)
  have t: "truncateOutput s n = string_of_runes (take n (runes s) @ [46, 46, 46])"
    using False by (simp add: truncateOutput_def dots)
  have "runes (truncateOutput s n) = take n (runes s) @ [46, 46, 46]"
    unfolding t using v by (rule runes_string_of_runes)
  moreover have "valid_utf8 (truncateOutput s n)"
    unfolding t using v by (rule valid_utf8_string_of_runes)
  ultimately show ?thesis using False by simp
qed (simp add: truncateOutput_def)

end
