(* ===== verification/SqliteStore.thy ===== *)
theory SqliteStore
  imports Requests "HOL-Library.Multiset"
begin

text \<open>
  \<open>internal/pam/store_sqlite.go\<close>: the persistent store the daemon uses. The table is a
  list of rows in insertion order, its columns as declared in the schema (a nullable column
  is an option, a time is its text). Every SQL statement of the file is a function on the
  rows. A statement or a \<open>RowsAffected\<close> call can fail: the database carries the list of
  coming outcomes, one for each such call, a missing or \<open>None\<close> entry meaning success; a
  failed statement changes nothing.
\<close>

section \<open>Table and statements\<close>

record elevation_row =
  c_id :: string
  c_requester :: string
  c_target_system :: string
  c_command :: string
  c_reason :: string
  c_status :: string
  c_created_at :: string
  c_expires_at :: string
  c_approved_by :: "string option"
  c_approved_at :: "string option"
  c_ip_address :: "string option"
  c_user_agent :: "string option"
  c_notify_chat_id :: int
  c_output :: "string option"
  c_exit_code :: "int option"

record SQLiteRequestStore =
  sql_rows :: "elevation_row list"
  sql_outcomes :: "go_error option list"
  sql_unique_error :: go_error \<comment> \<open>the driver's text for a duplicate primary key\<close>

text \<open>The next outcome, and a statement that runs if the outcome is a success.\<close>

definition sql_next :: "SQLiteRequestStore \<Rightarrow> SQLiteRequestStore \<times> go_error option" where
  "sql_next db =
     (case sql_outcomes db of [] \<Rightarrow> (db, None) | oc # ocs \<Rightarrow> (db\<lparr>sql_outcomes := ocs\<rparr>, oc))"

definition sql_query :: "(elevation_row list \<Rightarrow> 'a) \<Rightarrow> SQLiteRequestStore \<Rightarrow> SQLiteRequestStore \<times> (go_error + 'a)" where
  "sql_query f db =
     (case sql_next db of
        (db1, Some e) \<Rightarrow> (db1, Inl e)
      | (db1, None) \<Rightarrow> (db1, Inr (f (sql_rows db1))))"

text \<open>\<open>UPDATE ... SET f WHERE p\<close>, with the number of rows it matched.\<close>

definition sql_update ::
  "(elevation_row \<Rightarrow> bool) \<Rightarrow> (elevation_row \<Rightarrow> elevation_row) \<Rightarrow> SQLiteRequestStore \<Rightarrow>
     SQLiteRequestStore \<times> (go_error + nat)" where
  "sql_update p f db =
     (case sql_next db of
        (db1, Some e) \<Rightarrow> (db1, Inl e)
      | (db1, None) \<Rightarrow>
          (db1\<lparr>sql_rows := map (\<lambda>r. if p r then f r else r) (sql_rows db1)\<rparr>,
           Inr (length (filter p (sql_rows db1)))))"

text \<open>\<open>result.RowsAffected()\<close> can report an error of the driver.\<close>

definition rows_affected :: "nat \<Rightarrow> SQLiteRequestStore \<Rightarrow> SQLiteRequestStore \<times> (go_error + nat)" where
  "rows_affected n db =
     (case sql_next db of (db1, Some e) \<Rightarrow> (db1, Inl e) | (db1, None) \<Rightarrow> (db1, Inr n))"

text \<open>
  \<open>sql.Open\<close> and the schema statement, whose outcomes come from the driver. The schema
  creates the table only if it is missing, so rows already in the file stay.
\<close>

definition NewSQLiteRequestStore ::
  "go_error option \<Rightarrow> go_error option \<Rightarrow> SQLiteRequestStore \<Rightarrow> go_error + SQLiteRequestStore" where
  "NewSQLiteRequestStore open_err schema_err file =
     (case open_err of
        Some e \<Rightarrow> Inl (''open sqlite database: '' @ e)
      | None \<Rightarrow>
          (case schema_err of
             Some e \<Rightarrow> Inl (''initialise sqlite schema: '' @ e)
           | None \<Rightarrow> Inr file))"

definition format_utc :: "gotime \<Rightarrow> string" where
  "format_utc t = rfc3339nano t"

text \<open>The row of an \<open>INSERT\<close>: the columns it does not name are NULL.\<close>

definition insert_row :: "ElevationRequest \<Rightarrow> elevation_row" where
  "insert_row req =
     \<lparr>c_id = ID req, c_requester = Requester req, c_target_system = TargetSystem req,
      c_command = Command req, c_reason = Reason req, c_status = Status req,
      c_created_at = format_utc (CreatedAt req), c_expires_at = format_utc (ExpiresAt req),
      c_approved_by = None, c_approved_at = None,
      c_ip_address = Some (IPAddress req), c_user_agent = Some (UserAgent req),
      c_notify_chat_id = NotifyChatID req, c_output = None, c_exit_code = None\<rparr>"

definition sqlite_Create ::
  "ElevationRequest \<Rightarrow> SQLiteRequestStore \<Rightarrow> SQLiteRequestStore \<times> go_error option" where
  "sqlite_Create req db =
     (case sql_next db of
        (db1, Some e) \<Rightarrow> (db1, Some e)
      | (db1, None) \<Rightarrow>
          if list_ex (\<lambda>r. c_id r = ID req) (sql_rows db1) then (db1, Some (sql_unique_error db1))
          else (db1\<lparr>sql_rows := sql_rows db1 @ [insert_row req]\<rparr>, None))"

definition scan_null_error :: "string \<Rightarrow> string \<Rightarrow> go_error" where
  "scan_null_error i column =
     ''sql: Scan error on column index '' @ i @ '', name \"'' @ column @
     ''\": converting NULL to string is unsupported''"

definition scanSQLiteRequest :: "elevation_row \<Rightarrow> go_error + ElevationRequest" where
  "scanSQLiteRequest row =
     (case c_ip_address row of
        None \<Rightarrow> Inl (scan_null_error ''10'' ''ip_address'')
      | Some ip \<Rightarrow>
      (case c_user_agent row of
        None \<Rightarrow> Inl (scan_null_error ''11'' ''user_agent'')
      | Some ua \<Rightarrow>
          let req = zero_request\<lparr>ID := c_id row, Requester := c_requester row,
                TargetSystem := c_target_system row, Command := c_command row, Reason := c_reason row,
                Status := c_status row, IPAddress := ip, UserAgent := ua,
                NotifyChatID := c_notify_chat_id row\<rparr>;
              req = (case parse_rfc3339 (c_created_at row) of None \<Rightarrow> req | Some t \<Rightarrow> req\<lparr>CreatedAt := t\<rparr>);
              req = (case parse_rfc3339 (c_expires_at row) of None \<Rightarrow> req | Some t \<Rightarrow> req\<lparr>ExpiresAt := t\<rparr>);
              req = (case c_approved_by row of None \<Rightarrow> req | Some a \<Rightarrow> req\<lparr>ApprovedBy := a\<rparr>);
              req = (case c_approved_at row of
                       None \<Rightarrow> req
                     | Some s \<Rightarrow> (case parse_rfc3339 s of None \<Rightarrow> req | Some t \<Rightarrow> req\<lparr>ApprovedAt := Some t\<rparr>))
          in Inr req))"

definition sqlite_Get ::
  "string \<Rightarrow> SQLiteRequestStore \<Rightarrow> SQLiteRequestStore \<times> (go_error + ElevationRequest option)" where
  "sqlite_Get i db =
     (case sql_query (find (\<lambda>r. c_id r = i)) db of
        (db1, Inl e) \<Rightarrow> (db1, Inl e)
      | (db1, Inr None) \<Rightarrow> (db1, Inr None)
      | (db1, Inr (Some row)) \<Rightarrow>
          (case scanSQLiteRequest row of
             Inl e \<Rightarrow> (db1, Inl e)
           | Inr req \<Rightarrow> (db1, Inr (Some req))))"

definition sqlite_Update ::
  "ElevationRequest \<Rightarrow> SQLiteRequestStore \<Rightarrow> SQLiteRequestStore \<times> go_error option" where
  "sqlite_Update req db =
     (let approvedBy = (if ApprovedBy req \<noteq> [] then Some (ApprovedBy req) else None);
          approvedAt = (case ApprovedAt req of None \<Rightarrow> None | Some t \<Rightarrow> Some (format_utc t))
      in case sql_update (\<lambda>r. c_id r = ID req)
                (\<lambda>r. r\<lparr>c_status := Status req, c_approved_by := approvedBy, c_approved_at := approvedAt,
                       c_output := Output req, c_exit_code := ReqExitCode req\<rparr>) db of
           (db1, Inl e) \<Rightarrow> (db1, Some e)
         | (db1, Inr n) \<Rightarrow> (db1, None))"

text \<open>The three statements of \<open>UpdateStateIf\<close>; times are compared as texts.\<close>

definition cas_statement ::
  "string \<Rightarrow> string \<Rightarrow> string \<Rightarrow> string \<Rightarrow> string \<Rightarrow> SQLiteRequestStore \<Rightarrow>
     SQLiteRequestStore \<times> (go_error + nat)" where
  "cas_statement now i expectedState newState approvedBy db =
     (if newState \<in> {''approved'', ''denied'', ''failed''} then
        let ab = (if approvedBy \<noteq> [] then Some approvedBy else None)
        in sql_update (\<lambda>r. c_id r = i \<and> c_status r = expectedState \<and> c_expires_at r > now)
             (\<lambda>r. r\<lparr>c_status := newState, c_approved_by := ab, c_approved_at := Some now\<rparr>) db
      else if newState = ''expired'' then
        sql_update (\<lambda>r. c_id r = i \<and> c_status r = expectedState) (\<lambda>r. r\<lparr>c_status := newState\<rparr>) db
      else
        sql_update (\<lambda>r. c_id r = i \<and> c_status r = expectedState) (\<lambda>r. r\<lparr>c_status := newState\<rparr>) db)"

definition sqlite_UpdateStateIf ::
  "clock \<Rightarrow> string \<Rightarrow> string \<Rightarrow> string \<Rightarrow> string \<Rightarrow> SQLiteRequestStore \<Rightarrow>
     SQLiteRequestStore \<times> (go_error + bool)" where
  "sqlite_UpdateStateIf clk i expectedState newState approvedBy db =
     (case cas_statement (format_utc (clk 0)) i expectedState newState approvedBy db of
        (db1, Inl e) \<Rightarrow> (db1, Inl e)
      | (db1, Inr n) \<Rightarrow>
          (case rows_affected n db1 of
             (db2, Inl e) \<Rightarrow> (db2, Inl e)
           | (db2, Inr k) \<Rightarrow> (db2, Inr (k > 0))))"

text \<open>\<open>ORDER BY created_at DESC\<close>, and the loop over \<open>rows.Next\<close>.\<close>

definition order_desc :: "elevation_row list \<Rightarrow> elevation_row list" where
  "order_desc rs = rev (sort_key c_created_at (rev rs))"

fun scan_rows :: "elevation_row list \<Rightarrow> go_error + ElevationRequest list" where
  "scan_rows [] = Inr []"
| "scan_rows (r # rs) =
     (case scanSQLiteRequest r of
        Inl e \<Rightarrow> Inl e
      | Inr q \<Rightarrow> (case scan_rows rs of Inl e \<Rightarrow> Inl e | Inr qs \<Rightarrow> Inr (q # qs)))"

definition sqlite_ListPending ::
  "clock \<Rightarrow> SQLiteRequestStore \<Rightarrow> SQLiteRequestStore \<times> (go_error + ElevationRequest list)" where
  "sqlite_ListPending clk db =
     (let now = format_utc (clk 0)
      in case sql_query (\<lambda>rs. order_desc (filter (\<lambda>r. c_status r = ''pending'' \<and> c_expires_at r > now) rs)) db of
           (db1, Inl e) \<Rightarrow> (db1, Inl e)
         | (db1, Inr rs) \<Rightarrow> (db1, scan_rows rs))"

definition sqlite_Delete ::
  "string \<Rightarrow> SQLiteRequestStore \<Rightarrow> SQLiteRequestStore \<times> go_error option" where
  "sqlite_Delete i db =
     (case sql_next db of
        (db1, Some e) \<Rightarrow> (db1, Some e)
      | (db1, None) \<Rightarrow> (db1\<lparr>sql_rows := filter (\<lambda>r. c_id r \<noteq> i) (sql_rows db1)\<rparr>, None))"

definition sqlite_ExpireOldRequests ::
  "clock \<Rightarrow> SQLiteRequestStore \<Rightarrow> SQLiteRequestStore \<times> (go_error + int)" where
  "sqlite_ExpireOldRequests clk db =
     (let now = format_utc (clk 0)
      in case sql_update (\<lambda>r. c_status r = ''pending'' \<and> c_expires_at r \<le> now)
                (\<lambda>r. r\<lparr>c_status := ''expired''\<rparr>) db of
           (db1, Inl e) \<Rightarrow> (db1, Inl e)
         | (db1, Inr n) \<Rightarrow>
             (case rows_affected n db1 of
                (db2, Inl e) \<Rightarrow> (db2, Inl e)
              | (db2, Inr k) \<Rightarrow> (db2, Inr (int k))))"

definition sqlite_store :: "SQLiteRequestStore RequestStore" where
  "sqlite_store =
     \<lparr>Create = sqlite_Create, Get = sqlite_Get, Update = sqlite_Update,
      UpdateStateIf = sqlite_UpdateStateIf, ListPending = sqlite_ListPending, Delete = sqlite_Delete,
      ExpireOldRequests = sqlite_ExpireOldRequests, DBOps = None\<rparr>"

section \<open>Invariant and abstraction\<close>

text \<open>
  The table keeps its primary key unique, every time in it is the text of an instant with a
  four-digit year, and the columns that are scanned into Go strings are not NULL.
\<close>

definition time_text :: "string \<Rightarrow> bool" where
  "time_text x \<longleftrightarrow> (\<exists>t. in_years t \<and> x = rfc3339nano t)"

definition row_ok :: "elevation_row \<Rightarrow> bool" where
  "row_ok r \<longleftrightarrow> time_text (c_created_at r) \<and> time_text (c_expires_at r) \<and>
     (\<forall>x. c_approved_at r = Some x \<longrightarrow> time_text x) \<and>
     c_ip_address r \<noteq> None \<and> c_user_agent r \<noteq> None"

definition sqlite_ok :: "SQLiteRequestStore \<Rightarrow> bool" where
  "sqlite_ok db \<longleftrightarrow> distinct (map c_id (sql_rows db)) \<and> (\<forall>r \<in> set (sql_rows db). row_ok r)"

definition find_row :: "string \<Rightarrow> elevation_row list \<Rightarrow> elevation_row option" where
  "find_row i rs = find (\<lambda>r. c_id r = i) rs"

definition sqlite_lookup :: "SQLiteRequestStore \<Rightarrow> string \<Rightarrow> ElevationRequest option" where
  "sqlite_lookup db i =
     (case find_row i (sql_rows db) of
        None \<Rightarrow> None
      | Some row \<Rightarrow> (case scanSQLiteRequest row of Inl _ \<Rightarrow> None | Inr q \<Rightarrow> Some q))"

text \<open>What scanning a well-formed row gives.\<close>

definition request_of :: "elevation_row \<Rightarrow> ElevationRequest" where
  "request_of row = (case scanSQLiteRequest row of Inr q \<Rightarrow> q | Inl _ \<Rightarrow> zero_request)"

lemma parse_time_text: "time_text x \<Longrightarrow> \<exists>t. parse_rfc3339 x = Some t \<and> in_years t \<and> rfc3339nano t = x"
  using parse_rfc3339nano by (auto simp: time_text_def)

lemma scan_row_ok:
  assumes "row_ok row"
  shows "scanSQLiteRequest row = Inr (request_of row)"
    "ID (request_of row) = c_id row" "Status (request_of row) = c_status row"
    "Command (request_of row) = c_command row" "Requester (request_of row) = c_requester row"
    "rfc3339nano (ExpiresAt (request_of row)) = c_expires_at row"
    "rfc3339nano (CreatedAt (request_of row)) = c_created_at row"
    "ApprovedBy (request_of row) = (case c_approved_by row of None \<Rightarrow> [] | Some a \<Rightarrow> a)"
    "timely (request_of row)"
proof -
  obtain tc te where t: "parse_rfc3339 (c_created_at row) = Some tc" "rfc3339nano tc = c_created_at row"
    "parse_rfc3339 (c_expires_at row) = Some te" "rfc3339nano te = c_expires_at row"
    "in_years tc" "in_years te"
    using assms parse_time_text by (metis row_ok_def)
  obtain ip ua where n: "c_ip_address row = Some ip" "c_user_agent row = Some ua"
    using assms by (auto simp: row_ok_def)
  have a: "\<forall>x. c_approved_at row = Some x \<longrightarrow> (\<exists>ta. parse_rfc3339 x = Some ta \<and> in_years ta)"
    using assms parse_time_text by (auto simp: row_ok_def)
  show "scanSQLiteRequest row = Inr (request_of row)"
    "ID (request_of row) = c_id row" "Status (request_of row) = c_status row"
    "Command (request_of row) = c_command row" "Requester (request_of row) = c_requester row"
    "rfc3339nano (ExpiresAt (request_of row)) = c_expires_at row"
    "rfc3339nano (CreatedAt (request_of row)) = c_created_at row"
    "ApprovedBy (request_of row) = (case c_approved_by row of None \<Rightarrow> [] | Some x \<Rightarrow> x)"
    "timely (request_of row)"
    using t n a by (auto simp: request_of_def scanSQLiteRequest_def zero_request_def timely_def Let_def
        split: option.splits)
qed

lemma find_row_Some: "find_row i rs = Some r \<Longrightarrow> r \<in> set rs \<and> c_id r = i"
  by (induction rs) (auto simp: find_row_def split: if_splits)

lemma find_row_None: "find_row i rs = None \<longleftrightarrow> i \<notin> c_id ` set rs"
  by (induction rs) (auto simp: find_row_def)

lemma find_row_mem: "distinct (map c_id rs) \<Longrightarrow> r \<in> set rs \<Longrightarrow> find_row (c_id r) rs = Some r"
  by (induction rs) (auto simp: find_row_def image_iff)

lemma find_row_append: "find_row i (rs @ [r]) =
    (case find_row i rs of None \<Rightarrow> (if c_id r = i then Some r else None) | Some x \<Rightarrow> Some x)"
  by (induction rs) (auto simp: find_row_def)

lemma find_row_map:
  "(\<And>r. c_id (g r) = c_id r) \<Longrightarrow> find_row i (map g rs) = map_option g (find_row i rs)"
  by (induction rs) (auto simp: find_row_def)

lemma find_row_filter: "find_row i (filter (\<lambda>r. c_id r \<noteq> j) rs) = (if i = j then None else find_row i rs)"
  by (induction rs) (auto simp: find_row_def)

lemma sqlite_lookup_ok:
  "sqlite_ok db \<Longrightarrow> sqlite_lookup db i = map_option request_of (find_row i (sql_rows db))"
  using scan_row_ok(1) find_row_Some [of i "sql_rows db"]
  by (cases "find_row i (sql_rows db)") (auto simp: sqlite_lookup_def sqlite_ok_def)

section \<open>Statements and the invariant\<close>

lemma sql_next_rows: "sql_next db = (db', oc) \<Longrightarrow> sql_rows db' = sql_rows db"
  by (auto simp: sql_next_def split: list.splits)

lemma sql_update_cases:
  assumes "sql_update p f db = (db', q)"
  obtains (failed) e where "q = Inl e" "sql_rows db' = sql_rows db"
  | (ran) "q = Inr (length (filter p (sql_rows db)))"
      "sql_rows db' = map (\<lambda>r. if p r then f r else r) (sql_rows db)"
  using assms sql_next_rows by (fastforce simp: sql_update_def split: prod.splits option.splits)

lemma rows_affected_rows: "rows_affected n db = (db', q) \<Longrightarrow> sql_rows db' = sql_rows db \<and> (q = Inr n \<or> (\<exists>e. q = Inl e))"
  using sql_next_rows by (auto simp: rows_affected_def split: prod.splits option.splits)

lemma sqlite_ok_cong: "sql_rows db' = sql_rows db \<Longrightarrow> sqlite_ok db' = sqlite_ok db"
  by (simp add: sqlite_ok_def)

lemma sqlite_lookup_cong: "sql_rows db' = sql_rows db \<Longrightarrow> sqlite_lookup db' = sqlite_lookup db"
  by (simp add: sqlite_lookup_def fun_eq_iff)

lemma sqlite_ok_map:
  assumes "sqlite_ok db" "sql_rows db' = map g (sql_rows db)" "\<And>r. c_id (g r) = c_id r"
    "\<And>r. row_ok r \<Longrightarrow> row_ok (g r)"
  shows "sqlite_ok db'"
  using assms by (auto simp: sqlite_ok_def comp_def)

text \<open>An update that names a primary key touches at most the one row found under it.\<close>

lemma same_key:
  "distinct (map c_id rs) \<Longrightarrow> find_row i rs = Some r \<Longrightarrow> x \<in> set rs \<Longrightarrow> c_id x = i \<Longrightarrow> x = r"
  using find_row_mem by fastforce

lemma filter_key:
  "distinct (map c_id rs) \<Longrightarrow> find_row i rs = Some r \<Longrightarrow> filter (\<lambda>x. c_id x = i) rs = [r]"
proof (induction rs)
  case (Cons y rs)
  have "i \<notin> set (map c_id rs) \<Longrightarrow> filter (\<lambda>x. c_id x = i) rs = []"
    by (auto simp: filter_empty_conv)
  then have "c_id y = i \<Longrightarrow> filter (\<lambda>x. c_id x = i) rs = []" using Cons.prems(1) by simp
  then show ?case using Cons by (auto simp: find_row_def split: if_splits)
qed (simp add: find_row_def)

lemma update_one:
  assumes "distinct (map c_id rs)" "find_row i rs = Some r"
  shows "filter (\<lambda>x. c_id x = i \<and> p x) rs = (if p r then [r] else [])"
    "map (\<lambda>x. if c_id x = i \<and> p x then f x else x) rs =
       map (\<lambda>x. if c_id x = i then (if p r then f r else r) else x) rs"
proof -
  have "filter (\<lambda>x. c_id x = i \<and> p x) rs = filter p (filter (\<lambda>x. c_id x = i) rs)"
    by (simp add: conj_commute)
  then show "filter (\<lambda>x. c_id x = i \<and> p x) rs = (if p r then [r] else [])"
    by (simp add: filter_key [OF assms])
  show "map (\<lambda>x. if c_id x = i \<and> p x then f x else x) rs =
       map (\<lambda>x. if c_id x = i then (if p r then f r else r) else x) rs"
    using same_key [OF assms] by (intro map_cong) auto
qed

lemma update_none:
  assumes "find_row i rs = None"
  shows "filter (\<lambda>x. c_id x = i \<and> p x) rs = []" "map (\<lambda>x. if c_id x = i \<and> p x then f x else x) rs = rs"
  using assms by (induction rs) (auto simp: find_row_def split: if_splits)

lemma map_same_row:
  "distinct (map c_id rs) \<Longrightarrow> find_row i rs = Some r \<Longrightarrow> map (\<lambda>x. if c_id x = i then r else x) rs = rs"
  by (rule map_idI) (use same_key in force)

lemma update_key:
  assumes "sqlite_ok db" "sqlite_ok db'"
    "sql_rows db' = map (\<lambda>x. if c_id x = i \<and> p x then f x else x) (sql_rows db)" "\<And>r. c_id (f r) = c_id r"
  obtains (no_match) "filter (\<lambda>x. c_id x = i \<and> p x) (sql_rows db) = []" "sqlite_lookup db' = sqlite_lookup db"
  | (match) r where "find_row i (sql_rows db) = Some r" "row_ok r" "row_ok (f r)" "p r"
      "length (filter (\<lambda>x. c_id x = i \<and> p x) (sql_rows db)) = 1"
      "sqlite_lookup db i = Some (request_of r)"
      "sqlite_lookup db' = (sqlite_lookup db)(i \<mapsto> request_of (f r))"
proof (cases "find_row i (sql_rows db)")
  case None
  then have "sql_rows db' = sql_rows db" using update_none(2) [OF None] assms(3) by simp
  then show ?thesis using no_match [OF update_none(1) [OF None]] sqlite_lookup_cong by blast
next
  case (Some r)
  have d: "distinct (map c_id (sql_rows db))" and rok: "row_ok r"
    using assms(1) find_row_Some [OF Some] by (auto simp: sqlite_ok_def)
  note u1 = update_one(1) [OF d Some, of p] and u2 = update_one(2) [OF d Some, of p f]
  show ?thesis
  proof (cases "p r")
    case False
    then have "sql_rows db' = sql_rows db" unfolding assms(3) u2 if_not_P [OF False]
      by (intro map_same_row [OF d Some])
    then show ?thesis using no_match [OF _ sqlite_lookup_cong] u1 False by simp
  next
    case True
    have frow: "find_row j (sql_rows db') = (if j = i then Some (f r) else find_row j (sql_rows db))" for j
    proof -
      have "find_row j (sql_rows db') =
          map_option (\<lambda>x. if c_id x = i \<and> p x then f x else x) (find_row j (sql_rows db))"
        unfolding assms(3) by (rule find_row_map) (simp add: assms(4))
      then show ?thesis using find_row_Some [of j "sql_rows db"] Some True find_row_Some [OF Some]
        by (cases "j = i"; cases "find_row j (sql_rows db)") simp_all
    qed
    then have "f r \<in> set (sql_rows db')" 
      using find_row_Some [of i "sql_rows db'" "f r"] frow [of i] by simp
    then have fok: "row_ok (f r)" using assms(2) by (simp add: sqlite_ok_def)
    have "sqlite_lookup db' = (sqlite_lookup db)(i \<mapsto> request_of (f r))"
      by (simp add: sqlite_lookup_ok assms(1,2) frow fun_eq_iff)
    moreover have "sqlite_lookup db i = Some (request_of r)" by (simp add: sqlite_lookup_ok assms(1) Some)
    moreover have "length (filter (\<lambda>x. c_id x = i \<and> p x) (sql_rows db)) = 1" by (simp add: u1 True)
    ultimately show ?thesis by (intro match [OF Some rok fok True])
  qed
qed

section \<open>The store satisfies the interface\<close>

lemma time_text_format: "in_years t \<Longrightarrow> time_text (format_utc t)"
  by (auto simp: time_text_def format_utc_def)

lemma row_ok_insert: "timely r \<Longrightarrow> row_ok (insert_row r)"
  by (auto simp: row_ok_def insert_row_def timely_def time_text_format)

lemma insert_row_id [simp]: "c_id (insert_row r) = ID r"
  by (simp add: insert_row_def)

text \<open>A row written by \<open>INSERT\<close> reads back as the request without its decision and result.\<close>

lemma request_of_insert:
  assumes "timely r"
  shows "request_of (insert_row r) =
    r\<lparr>ApprovedBy := [], ApprovedAt := None, Output := None, ReqExitCode := None\<rparr>"
proof -
  have "parse_rfc3339 (format_utc (CreatedAt r)) = Some (CreatedAt r)"
    "parse_rfc3339 (format_utc (ExpiresAt r)) = Some (ExpiresAt r)"
    using assms by (simp_all add: timely_def format_utc_def parse_rfc3339nano)
  then show ?thesis
    by (cases r) (simp add: request_of_def scanSQLiteRequest_def insert_row_def zero_request_def Let_def)
qed

lemma sqlite_Create_cases:
  assumes "sqlite_Create r db = (db', e)"
  shows "e \<noteq> None \<and> sql_rows db' = sql_rows db \<or>
    e = None \<and> sql_rows db' = sql_rows db @ [insert_row r] \<and> find_row (ID r) (sql_rows db) = None"
proof -
  obtain db1 oc where n: "sql_next db = (db1, oc)" by fastforce
  then have r: "sql_rows db1 = sql_rows db" by (rule sql_next_rows)
  show ?thesis
  proof (cases oc)
    case None
    with assms r show ?thesis
      by (cases "list_ex (\<lambda>x. c_id x = ID r) (sql_rows db)")
        (auto simp: sqlite_Create_def n find_row_None list_ex_iff)
  next
    case (Some x)
    with assms r show ?thesis by (auto simp: sqlite_Create_def n)
  qed
qed

lemma sqlite_create:
  assumes "sqlite_ok db" "timely r" "sqlite_Create r db = (db', e)"
  obtains (failed) "e \<noteq> None" "sqlite_ok db'" "sqlite_lookup db' = sqlite_lookup db"
  | (created) "e = None" "sqlite_ok db'" "sqlite_lookup db (ID r) = None"
      "sqlite_lookup db' = (sqlite_lookup db)(ID r \<mapsto> request_of (insert_row r))"
  using sqlite_Create_cases [OF assms(3)]
proof (elim disjE conjE)
  assume "e \<noteq> None" "sql_rows db' = sql_rows db"
  then show thesis using failed assms(1) sqlite_ok_cong sqlite_lookup_cong by blast
next
  assume db': "e = None" "sql_rows db' = sql_rows db @ [insert_row r]"
    and none: "find_row (ID r) (sql_rows db) = None"
  have ok': "sqlite_ok db'"
    using assms(1,2) none by (auto simp: sqlite_ok_def db' row_ok_insert find_row_None)
  have frow: "find_row i (sql_rows db') = (if i = ID r then Some (insert_row r) else find_row i (sql_rows db))" for i
    using none by (auto simp: db' find_row_append split: option.split)
  have "sqlite_lookup db' = (sqlite_lookup db)(ID r \<mapsto> request_of (insert_row r))"
    by (simp add: sqlite_lookup_ok assms(1) ok' frow fun_eq_iff)
  then show thesis using created ok' none db'(1) by (simp add: sqlite_lookup_ok assms(1))
qed

lemma sqlite_get:
  assumes "sqlite_ok db" "sqlite_Get i db = (db', q)"
  shows "sql_rows db' = sql_rows db" "q = Inr x \<Longrightarrow> x = sqlite_lookup db i"
proof -
  obtain db1 oc where n: "sql_next db = (db1, oc)" by fastforce
  have rows1: "sql_rows db1 = sql_rows db" by (rule sql_next_rows [OF n])
  have f: "find (\<lambda>r. c_id r = i) (sql_rows db) = find_row i (sql_rows db)" by (simp add: find_row_def)
  show "sql_rows db' = sql_rows db"
    using assms(2) rows1 by (auto simp: sqlite_Get_def sql_query_def n split: option.splits sum.splits)
  show "x = sqlite_lookup db i" if "q = Inr x"
    using assms(2) that by (auto simp: sqlite_Get_def sql_query_def n rows1 f sqlite_lookup_def
        split: option.splits sum.splits)
qed

text \<open>An update of the one row with a given key, as \<open>Update\<close> and \<open>UpdateStateIf\<close> issue it.\<close>

lemma sql_update_key:
  assumes "sqlite_ok db" "sql_update (\<lambda>r. c_id r = i \<and> p r) f db = (db', q)"
    "\<forall>r. c_id (f r) = c_id r" "\<forall>r. row_ok r \<longrightarrow> row_ok (f r)"
  obtains (failed) e where "q = Inl e" "sqlite_ok db'" "sqlite_lookup db' = sqlite_lookup db"
  | (no_match) "q = Inr 0" "sqlite_ok db'" "sqlite_lookup db' = sqlite_lookup db"
  | (match) r where "q = Inr 1" "sqlite_ok db'" "row_ok r" "row_ok (f r)" "p r" "c_id r = i"
      "sqlite_lookup db i = Some (request_of r)"
      "sqlite_lookup db' = (sqlite_lookup db)(i \<mapsto> request_of (f r))"
  using assms(2)
proof (cases rule: sql_update_cases)
  case (failed e)
  then show ?thesis using that(1) assms(1) sqlite_ok_cong sqlite_lookup_cong by blast
next
  case ran
  have ok': "sqlite_ok db'" by (rule sqlite_ok_map [OF assms(1) ran(2)]) (simp_all add: assms(3,4))
  have "c_id (f r) = c_id r" for r using assms(3) by simp
  with assms(1) ok' ran(2) show ?thesis
  proof (cases rule: update_key)
    case no_match
    then show ?thesis using that(2) ok' ran(1) by simp
  next
    case (match r)
    then show ?thesis using that(3) ok' ran(1) find_row_Some [OF match(1)] by simp
  qed
qed

lemma request_of_same_subject:
  assumes "row_ok r" "row_ok r'" "c_id r' = c_id r" "c_command r' = c_command r"
    "c_requester r' = c_requester r" "c_expires_at r' = c_expires_at r"
  shows "same_subject (request_of r) (request_of r')"
proof -
  have "rfc3339nano (ExpiresAt (request_of r')) = rfc3339nano (ExpiresAt (request_of r))"
    using assms scan_row_ok(6) by metis
  moreover have "in_years (ExpiresAt (request_of r))" "in_years (ExpiresAt (request_of r'))"
    using assms scan_row_ok(9) by (auto simp: timely_def)
  ultimately have "ExpiresAt (request_of r') = ExpiresAt (request_of r)"
    by (metis option.inject parse_rfc3339nano)
  then show ?thesis using assms by (simp add: same_subject_def scan_row_ok)
qed

definition cas_guard :: "string \<Rightarrow> string \<Rightarrow> string \<Rightarrow> elevation_row \<Rightarrow> bool" where
  "cas_guard now old new r \<longleftrightarrow> c_status r = old \<and> (decided new \<longrightarrow> now < c_expires_at r)"

definition cas_set :: "string \<Rightarrow> string \<Rightarrow> string \<Rightarrow> elevation_row \<Rightarrow> elevation_row" where
  "cas_set now new approver r =
     (if decided new
      then r\<lparr>c_status := new, c_approved_by := (if approver \<noteq> [] then Some approver else None),
             c_approved_at := Some now\<rparr>
      else r\<lparr>c_status := new\<rparr>)"

text \<open>The three statements are one update with this guard and this effect.\<close>

lemma cas_statement_update:
  "cas_statement now i old new approver db =
     sql_update (\<lambda>r. c_id r = i \<and> cas_guard now old new r) (cas_set now new approver) db"
  unfolding cas_statement_def cas_guard_def cas_set_def [abs_def] decided_def Let_def
  by (cases "new \<in> {''approved'', ''denied'', ''failed''}") (simp_all only: if_True if_False if_cancel simp_thms)

lemma cas_set_keeps [simp]: "c_id (cas_set now new a r) = c_id r" "c_command (cas_set now new a r) = c_command r"
  "c_requester (cas_set now new a r) = c_requester r" "c_expires_at (cas_set now new a r) = c_expires_at r"
  "c_status (cas_set now new a r) = new"
  by (simp_all add: cas_set_def)

lemma row_ok_cas_set: "time_text now \<Longrightarrow> row_ok r \<Longrightarrow> row_ok (cas_set now new a r)"
  by (auto simp: row_ok_def cas_set_def)

text \<open>What a successful compare-and-set did to the table.\<close>

lemma sqlite_cas:
  assumes "sqlite_ok db" "in_years (clk 0)" "sqlite_UpdateStateIf clk i old new a db = (db', b)"
  obtains (unchanged) "b \<noteq> Inr True" "sqlite_ok db'" "sqlite_lookup db' = sqlite_lookup db"
  | (changed) r where "b = Inr True \<or> (\<exists>e. b = Inl e)" "sqlite_ok db'" "row_ok r" "c_id r = i"
      "cas_guard (format_utc (clk 0)) old new r" "row_ok (cas_set (format_utc (clk 0)) new a r)"
      "sqlite_lookup db i = Some (request_of r)"
      "sqlite_lookup db' = (sqlite_lookup db)(i \<mapsto> request_of (cas_set (format_utc (clk 0)) new a r))"
proof -
  let ?now = "format_utc (clk 0)"
  have now: "time_text ?now" using assms(2) by (rule time_text_format)
  obtain db1 q where u: "cas_statement ?now i old new a db = (db1, q)" by fastforce
  have keeps: "\<forall>r. c_id (cas_set ?now new a r) = c_id r" "\<forall>r. row_ok r \<longrightarrow> row_ok (cas_set ?now new a r)"
    using row_ok_cas_set [OF now] by simp_all
  from assms(1) u [unfolded cas_statement_update] keeps show ?thesis
  proof (cases rule: sql_update_key)
    case (failed e)
    then show ?thesis using assms(3) unchanged by (auto simp: sqlite_UpdateStateIf_def u)
  next
    case no_match
    obtain db2 k where ra: "rows_affected 0 db1 = (db2, k)" by fastforce
    have same: "sqlite_ok db2" "sqlite_lookup db2 = sqlite_lookup db"
      using no_match rows_affected_rows [OF ra] sqlite_ok_cong sqlite_lookup_cong by metis+
    have "db' = db2" "b \<noteq> Inr True"
      using assms(3) rows_affected_rows [OF ra] no_match(1) by (auto simp: sqlite_UpdateStateIf_def u ra)
    then show ?thesis using unchanged same by simp
  next
    case (match r)
    obtain db2 k where ra: "rows_affected (Suc 0) db1 = (db2, k)" by fastforce
    have same: "sqlite_ok db2" "sqlite_lookup db2 = sqlite_lookup db1"
      using match rows_affected_rows [OF ra] sqlite_ok_cong sqlite_lookup_cong by metis+
    have "db' = db2" "b = Inr True \<or> (\<exists>e. b = Inl e)"
      using assms(3) rows_affected_rows [OF ra] match(1) by (auto simp: sqlite_UpdateStateIf_def u ra)
    then show ?thesis using changed match same by metis
  qed
qed

lemma text_fresh:
  assumes "row_ok r" "in_years t" "format_utc t < c_expires_at r"
  shows "unix_seconds t \<le> unix_seconds (ExpiresAt (request_of r))"
  using assms rfc3339nano_order [of t "ExpiresAt (request_of r)"] scan_row_ok(6,9) [OF assms(1)]
  by (simp add: format_utc_def timely_def)

lemma text_stale:
  assumes "row_ok r" "in_years t" "c_expires_at r \<le> format_utc t"
  shows "unix_seconds (ExpiresAt (request_of r)) \<le> unix_seconds t"
  using assms rfc3339nano_less [of t "ExpiresAt (request_of r)"] scan_row_ok(6,9) [OF assms(1)]
  by (fastforce simp: format_utc_def timely_def not_le [symmetric])

lemma sqlite_update:
  assumes "sqlite_ok db" "timely q" "sqlite_Update q db = (db', e)"
  obtains (failed) "e \<noteq> None" "sqlite_ok db'" "sqlite_lookup db' = sqlite_lookup db"
  | (no_match) "e = None" "sqlite_ok db'" "sqlite_lookup db' = sqlite_lookup db" "sqlite_lookup db (ID q) = None"
  | (match) r r' where "e = None" "sqlite_ok db'" "row_ok r" "row_ok r'" "c_id r = ID q"
      "r' = r\<lparr>c_status := Status q,
        c_approved_by := (if ApprovedBy q \<noteq> [] then Some (ApprovedBy q) else None),
        c_approved_at := map_option format_utc (ApprovedAt q),
        c_output := Output q, c_exit_code := ReqExitCode q\<rparr>"
      "sqlite_lookup db (ID q) = Some (request_of r)"
      "sqlite_lookup db' = (sqlite_lookup db)(ID q \<mapsto> request_of r')"
proof -
  let ?f = "\<lambda>r. r\<lparr>c_status := Status q,
        c_approved_by := (if ApprovedBy q \<noteq> [] then Some (ApprovedBy q) else None),
        c_approved_at := map_option format_utc (ApprovedAt q),
        c_output := Output q, c_exit_code := ReqExitCode q\<rparr>"
  have at: "(case ApprovedAt q of None \<Rightarrow> None | Some t \<Rightarrow> Some (format_utc t)) = map_option format_utc (ApprovedAt q)"
    by (cases "ApprovedAt q") simp_all
  obtain db1 k where u: "sql_update (\<lambda>r. c_id r = ID q) ?f db = (db1, k)" by fastforce
  have res: "db' = db1" "e = (case k of Inl x \<Rightarrow> Some x | Inr _ \<Rightarrow> None)"
    using assms(3) by (auto simp: sqlite_Update_def at u split: sum.splits)
  have "row_ok r \<longrightarrow> row_ok (?f r)" for r
    using assms(2) by (auto simp: row_ok_def timely_def time_text_format split: option.splits)
  then have keeps: "\<forall>r. c_id (?f r) = c_id r" "\<forall>r. row_ok r \<longrightarrow> row_ok (?f r)" by simp_all
  from u show thesis
  proof (cases rule: sql_update_cases)
    case (failed x)
    have "sqlite_ok db'" "sqlite_lookup db' = sqlite_lookup db"
      using sqlite_ok_cong [OF failed(2)] sqlite_lookup_cong [OF failed(2)] assms(1) res(1) by simp_all
    then show ?thesis using that(1) res(2) failed(1) by simp
  next
    case ran
    have ok': "sqlite_ok db1" by (rule sqlite_ok_map [OF assms(1) ran(2)]) (use keeps in auto)
    have rows: "sql_rows db1 = map (\<lambda>x. if c_id x = ID q \<and> True then ?f x else x) (sql_rows db)"
      using ran(2) by simp
    have e: "e = None" using res(2) ran(1) by simp
    show ?thesis
    proof (cases "find_row (ID q) (sql_rows db)")
      case None
      then have same: "sql_rows db1 = sql_rows db" unfolding rows by (intro update_none(2))
      have "sqlite_lookup db (ID q) = None" by (simp add: sqlite_lookup_ok assms(1) None)
      then show ?thesis using that(2) [OF e] ok' sqlite_lookup_cong [OF same] res(1) by simp
    next
      case (Some r)
      have "c_id (?f r) = c_id r" for r by simp
      with assms(1) ok' rows show ?thesis
      proof (cases rule: update_key)
        case no_match
        then show ?thesis using find_row_Some [OF Some] by (auto simp: filter_empty_conv)
      next
        case (match x)
        have "c_id x = ID q" using find_row_Some [OF match(1)] by simp
        with match show ?thesis using ok' res(1) e by (intro that(3) [of x "?f x"]) simp_all
      qed
    qed
  qed
qed

lemma scan_rows_ok:
  "\<forall>r \<in> set rs. row_ok r \<Longrightarrow> scan_rows rs = Inr (map request_of rs)"
  by (induction rs) (simp_all add: scan_row_ok(1))

lemma set_order_desc [simp]: "set (order_desc rs) = set rs"
  by (simp add: order_desc_def)

lemma sqlite_list:
  assumes "sqlite_ok db" "sqlite_ListPending clk db = (db', q)"
  shows "sql_rows db' = sql_rows db"
    "q = Inr rs \<Longrightarrow> rs = map request_of (order_desc
       (filter (\<lambda>r. c_status r = ''pending'' \<and> format_utc (clk 0) < c_expires_at r) (sql_rows db)))"
proof -
  obtain db1 oc where n: "sql_next db = (db1, oc)" by fastforce
  have rows1: "sql_rows db1 = sql_rows db" by (rule sql_next_rows [OF n])
  let ?rs = "order_desc (filter (\<lambda>r. c_status r = ''pending'' \<and> format_utc (clk 0) < c_expires_at r) (sql_rows db))"
  have "scan_rows ?rs = Inr (map request_of ?rs)"
    using assms(1) by (intro scan_rows_ok) (auto simp: sqlite_ok_def)
  then show "sql_rows db' = sql_rows db" "q = Inr rs \<Longrightarrow> rs = map request_of ?rs"
    using assms(2) rows1
    by (cases oc; simp add: sqlite_ListPending_def sql_query_def n Let_def; blast)+
qed

lemma sqlite_lookup_row:
  "sqlite_ok db \<Longrightarrow> r \<in> set (sql_rows db) \<Longrightarrow> sqlite_lookup db (c_id r) = Some (request_of r)"
  by (simp add: sqlite_lookup_ok find_row_mem sqlite_ok_def)

lemma sqlite_delete:
  assumes "sqlite_ok db" "sqlite_Delete i db = (db', e)"
  obtains (failed) "e \<noteq> None" "sqlite_ok db'" "sqlite_lookup db' = sqlite_lookup db"
  | (deleted) "e = None" "sqlite_ok db'" "sqlite_lookup db' = (sqlite_lookup db)(i := None)"
proof -
  obtain db1 oc where n: "sql_next db = (db1, oc)" by fastforce
  have rows1: "sql_rows db1 = sql_rows db" by (rule sql_next_rows [OF n])
  show thesis
  proof (cases oc)
    case (Some x)
    then have "db' = db1" "e \<noteq> None" using assms(2) by (auto simp: sqlite_Delete_def n)
    then show ?thesis using failed sqlite_ok_cong [OF rows1] sqlite_lookup_cong [OF rows1] assms(1) by simp
  next
    case None
    then have r: "sql_rows db' = filter (\<lambda>r. c_id r \<noteq> i) (sql_rows db)" and e: "e = None"
      using assms(2) rows1 by (auto simp: sqlite_Delete_def n)
    have ok': "sqlite_ok db'" using assms(1) by (auto simp: sqlite_ok_def r distinct_map_filter)
    have "sqlite_lookup db' = (sqlite_lookup db)(i := None)"
      by (simp add: sqlite_lookup_ok assms(1) ok' r find_row_filter fun_eq_iff)
    then show ?thesis using deleted e ok' by simp
  qed
qed

text \<open>A row of a pending request that the cleanup expires.\<close>

definition row_expired :: "string \<Rightarrow> elevation_row \<Rightarrow> bool" where
  "row_expired now r \<longleftrightarrow> c_status r = ''pending'' \<and> c_expires_at r \<le> now"

definition expire_row :: "string \<Rightarrow> elevation_row \<Rightarrow> elevation_row" where
  "expire_row now r = (if row_expired now r then r\<lparr>c_status := ''expired''\<rparr> else r)"

lemma expire_row_keeps [simp]: "c_id (expire_row now r) = c_id r" "row_ok (expire_row now r) = row_ok r"
  by (simp_all add: expire_row_def row_ok_def)

lemma request_of_expire_row:
  assumes "row_ok r"
  shows "request_of (expire_row now r) =
     (if row_expired now r then (request_of r)\<lparr>Status := ''expired''\<rparr> else request_of r)"
proof -
  obtain tc te where t: "parse_rfc3339 (c_created_at r) = Some tc" "parse_rfc3339 (c_expires_at r) = Some te"
    using assms parse_time_text by (metis row_ok_def)
  obtain ip ua where n: "c_ip_address r = Some ip" "c_user_agent r = Some ua"
    using assms by (auto simp: row_ok_def)
  have "request_of (r\<lparr>c_status := ''expired''\<rparr>) = (request_of r)\<lparr>Status := ''expired''\<rparr>"
    using t n by (simp add: request_of_def scanSQLiteRequest_def zero_request_def Let_def split: option.split)
  then show ?thesis by (simp add: expire_row_def)
qed

lemma sqlite_expire:
  assumes "sqlite_ExpireOldRequests clk db = (db', n)"
  obtains (failed) e where "n = Inl e" "sql_rows db' = sql_rows db"
  | (ran) "sql_rows db' = map (expire_row (format_utc (clk 0))) (sql_rows db)"
      "n = Inr (int (length (filter (row_expired (format_utc (clk 0))) (sql_rows db)))) \<or> (\<exists>e. n = Inl e)"
proof -
  let ?now = "format_utc (clk 0)"
  obtain db1 q where u: "sql_update (row_expired ?now) (\<lambda>r. r\<lparr>c_status := ''expired''\<rparr>) db = (db1, q)" by fastforce
  have eq: "sql_update (\<lambda>r. c_status r = ''pending'' \<and> c_expires_at r \<le> ?now)
      (\<lambda>r. r\<lparr>c_status := ''expired''\<rparr>) db = (db1, q)"
    using u unfolding row_expired_def [abs_def] .
  from u show thesis
  proof (cases rule: sql_update_cases)
    case (failed e)
    then show ?thesis using that(1) assms by (auto simp: sqlite_ExpireOldRequests_def eq)
  next
    case ran
    obtain db2 k where ra: "rows_affected (length (filter (row_expired ?now) (sql_rows db))) db1 = (db2, k)"
      by fastforce
    have "db' = db2" "n = (case k of Inl e \<Rightarrow> Inl e | Inr m \<Rightarrow> Inr (int m))"
      using assms by (auto simp: sqlite_ExpireOldRequests_def eq ran(1) ra split: sum.splits)
    moreover have "sql_rows db1 = map (expire_row ?now) (sql_rows db)"
      by (simp add: ran(2) expire_row_def [abs_def])
    ultimately show ?thesis using that(2) rows_affected_rows [OF ra] by auto
  qed
qed

interpretation sqlite: request_store sqlite_store sqlite_lookup sqlite_ok
proof (unfold_locales, goal_cases)
  case (1 s i r)
  then show ?case using find_row_Some [of i "sql_rows s"] scan_row_ok(2)
    by (auto simp: sqlite_lookup_ok) (auto simp: sqlite_ok_def)
next
  case (2 s i s' q)
  then have g: "sqlite_Get i s = (s', q)" by (simp add: sqlite_store_def)
  note r = sqlite_get [OF 2(1) g]
  show ?case using sqlite_ok_cong [OF r(1)] sqlite_lookup_cong [OF r(1)] r(2) 2(1) by simp
next
  case (3 s r s' e)
  then have c: "sqlite_Create r s = (s', e)" by (simp add: sqlite_store_def)
  from 3(1,2) c show ?case
    by (cases rule: sqlite_create) (auto simp: request_of_insert [OF 3(2)] same_subject_def)
next
  case (4 s r s' e)
  then have c: "sqlite_Update r s = (s', e)" by (simp add: sqlite_store_def)
  from 4(1,2) c show ?case
    by (cases rule: sqlite_update) (auto simp: scan_row_ok)
next
  case (5 s clk i old new a s' b)
  then have c: "sqlite_UpdateStateIf clk i old new a s = (s', b)" by (simp add: sqlite_store_def)
  from 5(1,2) c show ?case
  proof (cases rule: sqlite_cas)
    case (changed r)
    have "same_subject (request_of r) (request_of (cas_set (format_utc (clk 0)) new a r))"
      using changed by (intro request_of_same_subject) simp_all
    moreover have "decided new \<longrightarrow> unix_seconds (clk 0) \<le> unix_seconds (ExpiresAt (request_of r))"
      using changed(5) text_fresh [OF changed(3) 5(2)] by (simp add: cas_guard_def)
    moreover have "Status (request_of r) = old" "Status (request_of (cas_set (format_utc (clk 0)) new a r)) = new"
      using changed(3,5,6) by (simp_all add: scan_row_ok cas_guard_def)
    ultimately show ?thesis using changed by blast
  qed simp
next
  case (6 s clk s' q)
  then have c: "sqlite_ListPending clk s = (s', q)" by (simp add: sqlite_store_def)
  note r = sqlite_list [OF 6(1) c]
  have "sqlite_lookup s (ID x) = Some x \<and> Status x = ''pending''" if q: "q = Inr rs" and x: "x \<in> set rs" for rs x
  proof -
    obtain row where row: "row \<in> set (sql_rows s)" "c_status row = ''pending''" "x = request_of row"
      using x by (auto simp: r(2) [OF q])
    then have "row_ok row" using 6(1) by (simp add: sqlite_ok_def)
    then show ?thesis using row sqlite_lookup_row [OF 6(1) row(1)] by (simp add: scan_row_ok(2,3))
  qed
  then show ?case using sqlite_ok_cong [OF r(1)] sqlite_lookup_cong [OF r(1)] 6(1) by simp
next
  case (7 s i s' e)
  then have c: "sqlite_Delete i s = (s', e)" by (simp add: sqlite_store_def)
  from 7(1) c show ?case by (cases rule: sqlite_delete) auto
next
  case (8 s clk s' n i)
  then have c: "sqlite_ExpireOldRequests clk s = (s', n)" by (simp add: sqlite_store_def)
  then show ?case
  proof (cases rule: sqlite_expire)
    case (failed e)
    then show ?thesis using sqlite_ok_cong sqlite_lookup_cong 8(1) by metis
  next
    case ran
    have ok': "sqlite_ok s'" by (rule sqlite_ok_map [OF 8(1) ran(1)]) simp_all
    have frow: "find_row i (sql_rows s') = map_option (expire_row (format_utc (clk 0))) (find_row i (sql_rows s))"
      unfolding ran(1) by (rule find_row_map) simp
    show ?thesis
    proof (cases "find_row i (sql_rows s)")
      case None
      then show ?thesis using ok' frow by (simp add: sqlite_lookup_ok 8(1))
    next
      case (Some r)
      then have "row_ok r" using find_row_Some 8(1) by (auto simp: sqlite_ok_def)
      then show ?thesis using Some ok' frow text_stale [of r "clk 0"] 8(2) scan_row_ok(3) [of r]
        by (simp add: sqlite_lookup_ok 8(1) request_of_expire_row row_expired_def)
    qed
  qed
qed (simp add: sqlite_store_def)

section \<open>Without database errors\<close>

text \<open>The methods on a store none of whose coming statements fails.\<close>

lemma sqlite_get_succeeds:
  assumes "sqlite_ok db" "sql_outcomes db = []"
  shows "sqlite_Get i db = (db, Inr (sqlite_lookup db i))"
proof -
  have "sql_query (find (\<lambda>r. c_id r = i)) db = (db, Inr (find_row i (sql_rows db)))"
    by (simp add: sql_query_def sql_next_def find_row_def assms(2))
  moreover have "row_ok r" if "find_row i (sql_rows db) = Some r" for r
    using find_row_Some [OF that] assms(1) by (simp add: sqlite_ok_def)
  ultimately show ?thesis
    by (auto simp: sqlite_Get_def sqlite_lookup_ok assms(1) scan_row_ok(1) split: option.split)
qed

lemma sqlite_cas_succeeds:
  assumes "sqlite_ok db" "sql_outcomes db = []" "in_years (clk 0)"
    "sqlite_lookup db i = Some r" "Status r = old"
    "decided new \<Longrightarrow> unix_seconds (clk 0) < unix_seconds (ExpiresAt r)"
  obtains db' r' where "sqlite_UpdateStateIf clk i old new by db = (db', Inr True)"
    "sql_outcomes db' = []" "sqlite_ok db'" "sqlite_lookup db' = (sqlite_lookup db)(i \<mapsto> r')"
    "Status r' = new" "same_subject r r'"
proof -
  obtain db' b where u: "sqlite_UpdateStateIf clk i old new by db = (db', b)" by fastforce
  obtain row where row: "find_row i (sql_rows db) = Some row" "r = request_of row"
    using assms(4) by (auto simp: sqlite_lookup_ok assms(1))
  then have rok: "row_ok row" "row \<in> set (sql_rows db)" "c_id row = i"
    using assms(1) find_row_Some [OF row(1)] by (auto simp: sqlite_ok_def)
  have st: "c_status row = old" using assms(5) rok(1) by (simp add: row(2) scan_row_ok)
  have e: "c_expires_at row = rfc3339nano (ExpiresAt r)" "in_years (ExpiresAt r)"
    unfolding row(2) using scan_row_ok(6,9) [OF rok(1)] by (auto simp only: timely_def)
  have "format_utc (clk 0) < c_expires_at row" if "decided new"
    unfolding format_utc_def e(1) by (rule rfc3339nano_less [OF assms(3) e(2) assms(6) [OF that]])
  with st have "filter (\<lambda>x. c_id x = i \<and> cas_guard (format_utc (clk 0)) old new x) (sql_rows db) = [row]"
    using update_one(1) [OF _ row(1)] assms(1) by (simp add: sqlite_ok_def cas_guard_def)
  then have b: "b = Inr True" "sql_outcomes db' = []"
    using u assms(2) by (auto simp: sqlite_UpdateStateIf_def cas_statement_update sql_update_def
        rows_affected_def sql_next_def simp del: fun_upd_apply)
  from assms(1,3) u show thesis
  proof (cases rule: sqlite_cas)
    case (changed x)
    then have "same_subject r (request_of (cas_set (format_utc (clk 0)) new by x))"
      using assms(4) request_of_same_subject by simp
    then show ?thesis using changed(2,8) scan_row_ok(3) [OF changed(6)] u b
      by (intro that [of db' "request_of (cas_set (format_utc (clk 0)) new by x)"]) simp_all
  qed (simp add: b)
qed

text \<open>On a store without failing statements, the answer of a deciding compare-and-set is the comparison of the texts.\<close>

lemma sqlite_cas_answer:
  assumes "sqlite_ok db" "sql_outcomes db = []" "in_years (clk 0)" "sqlite_lookup db i = Some r"
    "Status r = old" "decided new"
  shows "snd (sqlite_UpdateStateIf clk i old new a db) = Inr (rfc3339nano (clk 0) < rfc3339nano (ExpiresAt r))"
proof -
  obtain row where row: "find_row i (sql_rows db) = Some row" "r = request_of row"
    using assms(4) by (auto simp: sqlite_lookup_ok assms(1))
  then have rok: "row_ok row" "row \<in> set (sql_rows db)" "c_id row = i"
    using assms(1) find_row_Some [OF row(1)] by (auto simp: sqlite_ok_def)
  have g: "cas_guard (format_utc (clk 0)) old new row \<longleftrightarrow> rfc3339nano (clk 0) < rfc3339nano (ExpiresAt r)"
    using assms(5,6) rok(1) by (simp add: row(2) scan_row_ok cas_guard_def format_utc_def)
  have d: "distinct (map c_id (sql_rows db))" using assms(1) by (simp add: sqlite_ok_def)
  have "length (filter (\<lambda>x. c_id x = i \<and> cas_guard (format_utc (clk 0)) old new x) (sql_rows db)) =
      (if rfc3339nano (clk 0) < rfc3339nano (ExpiresAt r) then 1 else 0)"
    by (simp add: update_one(1) [OF d row(1)] g)
  then show ?thesis using assms(2)
    by (auto simp: sqlite_UpdateStateIf_def cas_statement_update sql_update_def
        rows_affected_def sql_next_def simp del: fun_upd_apply split: if_splits)
qed

lemma sqlite_update_succeeds:
  assumes "sqlite_ok db" "sql_outcomes db = []" "timely q" "sqlite_lookup db (ID q) = Some r"
  obtains db' r' where "sqlite_Update q db = (db', None)" "sqlite_ok db'"
    "sqlite_lookup db' = (sqlite_lookup db)(ID q \<mapsto> r')" "Status r' = Status q"
proof -
  obtain db' e where u: "sqlite_Update q db = (db', e)" by fastforce
  have e: "e = None" using u assms(2) by (auto simp: sqlite_Update_def sql_update_def sql_next_def Let_def)
  from assms(1,3) u show thesis
  proof (cases rule: sqlite_update)
    case (match x x')
    have "Status (request_of x') = Status q" using scan_row_ok(3) [OF match(4)] by (simp add: match(6))
    then show ?thesis using u e match(2,8) by (intro that [of db' "request_of x'"]) simp_all
  qed (use e assms(4) in simp_all)
qed

section \<open>Properties of the SQLite store\<close>

definition sample_db :: SQLiteRequestStore where
  "sample_db = fst (sqlite_Create sample_request
     \<lparr>sql_rows = [], sql_outcomes = [], sql_unique_error = ''constraint failed''\<rparr>)"

lemma timely_sample: "timely sample_request"
  by code_simp

lemma sample_db_ok: "sqlite_ok sample_db"
proof -
  have "sql_rows sample_db = [insert_row sample_request]"
    by (simp add: sample_db_def sqlite_Create_def sql_next_def)
  then show ?thesis by (simp add: sqlite_ok_def row_ok_insert timely_sample)
qed

text \<open>
  C2: on the SQLite store a pending request is decided at most once: in any sequence of
  calls (the pool has one connection, so concurrent calls are such a sequence) in which no
  call creates the request again or writes the status pending back to it, at most one
  \<open>UpdateStateIf\<close> from \<open>pending\<close> on the request returns true, whatever statements fail.
  The times of the calls lie in four-digit years.
\<close>

theorem sqlite_at_most_one_decision:
  assumes "sqlite_ok db" "\<forall>c \<in> set cs. call_ok i c"
  shows "length (filter (decides i) (snd (run_calls sqlite_store cs db))) \<le> 1"
  using assms by (rule sqlite.at_most_one_decision)

theorem sqlite_at_most_one_decision_witness:
  "sqlite_ok sample_db \<and> list_all (call_ok ''r1'') sample_race \<and>
   map snd (snd (run_calls sqlite_store sample_race sample_db)) = [True, False] \<and>
   length (filter (decides ''r1'') (snd (run_calls sqlite_store sample_race sample_db))) \<le> 1"
proof -
  have c: "\<forall>c \<in> set sample_race. call_ok ''r1'' c" by code_simp
  have "map snd (snd (run_calls sqlite_store sample_race sample_db)) = [True, False]" by code_simp
  with c [folded list_all_iff] sqlite_at_most_one_decision [OF sample_db_ok c] sample_db_ok show ?thesis by blast
qed

text \<open>
  C21: round trip through the table: when \<open>Create\<close> succeeds, a following \<open>Get\<close> on the
  same identifier that meets no database error returns the request that was stored, its
  nanosecond time stamps included, with the decision and result fields empty.
\<close>

theorem sqlite_create_get_roundtrip:
  assumes "sqlite_ok db" "timely r" "sqlite_Create r db = (db', None)" "sqlite_Get (ID r) db' = (db'', Inr q)"
  shows "q = Some (r\<lparr>ApprovedBy := [], ApprovedAt := None, Output := None, ReqExitCode := None\<rparr>)"
proof -
  from assms(1-3) have ok': "sqlite_ok db'"
    and look: "sqlite_lookup db' = (sqlite_lookup db)(ID r \<mapsto> request_of (insert_row r))"
    by (auto elim: sqlite_create)
  have "q = sqlite_lookup db' (ID r)" by (rule sqlite_get(2) [OF ok' assms(4)]) simp
  then show ?thesis by (simp add: look request_of_insert [OF assms(2)])
qed

theorem sqlite_create_get_roundtrip_witness:
  "\<exists>db'' q. sqlite_Get ''r1'' sample_db = (db'', Inr q) \<and> q = Some sample_request"
proof -
  let ?db = "\<lparr>sql_rows = [], sql_outcomes = [], sql_unique_error = ''constraint failed''\<rparr>"
  have ok: "sqlite_ok ?db" by (simp add: sqlite_ok_def)
  have c: "sqlite_Create sample_request ?db = (sample_db, None)"
    by (simp add: sample_db_def sqlite_Create_def sql_next_def)
  have i: "ID sample_request = ''r1''" by (simp add: sample_request_def)
  have "isl (snd (sqlite_Get ''r1'' sample_db)) = False" by code_simp
  then obtain db'' q where g: "sqlite_Get ''r1'' sample_db = (db'', Inr q)"
    by (cases "sqlite_Get ''r1'' sample_db"; cases "snd (sqlite_Get ''r1'' sample_db)") auto
  with sqlite_create_get_roundtrip [OF ok timely_sample c] i
  have "q = Some sample_request" by (simp add: sample_request_def zero_request_def)
  with g show ?thesis by blast
qed

lemma request_of_cas_set:
  assumes "row_ok r" "in_years t" "decided new"
  shows "request_of (cas_set (format_utc t) new a r) =
     (request_of r)\<lparr>Status := new, ApprovedBy := a, ApprovedAt := Some t\<rparr>"
proof -
  obtain tc te where t: "parse_rfc3339 (c_created_at r) = Some tc" "parse_rfc3339 (c_expires_at r) = Some te"
    using assms parse_time_text by (metis row_ok_def)
  obtain ip ua where n: "c_ip_address r = Some ip" "c_user_agent r = Some ua"
    using assms by (auto simp: row_ok_def)
  show ?thesis using t n assms(3) parse_rfc3339nano [OF assms(2)]
    by (simp add: request_of_def scanSQLiteRequest_def zero_request_def cas_set_def format_utc_def Let_def
        split: option.split)
qed

lemma within_second: "unix_seconds t \<le> unix_seconds u \<Longrightarrow> t < u + nanosecond_per_second"
proof -
  assume le: "unix_seconds t \<le> unix_seconds u"
  have "x = 1000000000 * (x div 1000000000) + x mod 1000000000" "0 \<le> x mod 1000000000"
    "x mod 1000000000 < 1000000000" for x :: int by simp_all
  from this [of t] this [of u] le show ?thesis
    unfolding unix_seconds_def nanosecond_per_second_def by linarith
qed

text \<open>
  C22: what a successful decision does: if \<open>UpdateStateIf\<close> to approved, denied or failed
  answers true, the request was stored in the expected state, the clock was less than one
  second past its expiry, and the stored request now has exactly the new state, the approver
  and the clock reading, everything else (the command above all) unchanged.
\<close>

theorem sqlite_decision_effect:
  assumes "sqlite_ok db" "in_years (clk 0)" "decided new"
    "sqlite_UpdateStateIf clk i old new approver db = (db', Inr True)"
  shows "\<exists>r. sqlite_lookup db i = Some r \<and> Status r = old \<and> clk 0 < ExpiresAt r + nanosecond_per_second \<and>
     sqlite_lookup db' = (sqlite_lookup db)
       (i \<mapsto> r\<lparr>Status := new, ApprovedBy := approver, ApprovedAt := Some (clk 0)\<rparr>)"
  using assms(1,2,4)
proof (cases rule: sqlite_cas)
  case (changed r)
  have g: "c_status r = old" "format_utc (clk 0) < c_expires_at r"
    using changed(5) assms(3) by (simp_all add: cas_guard_def)
  with changed text_fresh [OF changed(3) assms(2)] within_second show ?thesis
    by (intro exI [of _ "request_of r"]) (simp add: scan_row_ok request_of_cas_set assms(2,3))
qed simp

theorem sqlite_decision_effect_witness:
  "decided ''approved'' \<and>
   (\<exists>db'. sqlite_UpdateStateIf (\<lambda>_. 1700000001000000000) ''r1'' ''pending'' ''approved'' ''tg:1'' sample_db = (db', Inr True) \<and>
     (\<exists>r. sqlite_lookup sample_db ''r1'' = Some r \<and> Status r = ''pending'' \<and>
        sqlite_lookup db' = (sqlite_lookup sample_db)
          (''r1'' \<mapsto> r\<lparr>Status := ''approved'', ApprovedBy := ''tg:1'', ApprovedAt := Some 1700000001000000000\<rparr>)))"
proof -
  let ?u = "sqlite_UpdateStateIf (\<lambda>_. 1700000001000000000) ''r1'' ''pending'' ''approved'' ''tg:1'' sample_db"
  have "snd ?u = Inr True" by code_simp
  then obtain db' where u: "?u = (db', Inr True)" by (cases ?u) simp
  have y: "in_years 1700000001000000000" and d: "decided ''approved''" by code_simp+
  from sqlite_decision_effect [OF sample_db_ok y d u] u d show ?thesis by blast
qed

definition half_second_request :: ElevationRequest where
  "half_second_request = sample_request\<lparr>ExpiresAt := 1700000300500000000\<rparr>"

definition half_second_db :: SQLiteRequestStore where
  "half_second_db = fst (sqlite_Create half_second_request
     \<lparr>sql_rows = [], sql_outcomes = [], sql_unique_error = ''constraint failed''\<rparr>)"

text \<open>
  C28: the one-second slack is real, in both directions, because the store compares texts
  from which the trailing zeros of the fraction were dropped. Take any pending request, a
  deciding state and a store without failing statements. If the expiry is a multiple of
  \<open>10 ^ m\<close> nanoseconds, the decision still succeeds at every instant less than \<open>10 ^ m\<close>
  nanoseconds after it (a whole second for an expiry on the second); and if the clock reads
  such a multiple, it is refused although the expiry lies up to that long ahead.
\<close>

theorem sqlite_expiry_compares_text:
  assumes "sqlite_ok db" "sql_outcomes db = []" "in_years (clk 0)" "sqlite_lookup db i = Some q"
    "Status q = ''pending''" "decided new" "m \<le> 9"
  shows "(10 ^ m dvd ExpiresAt q \<and> ExpiresAt q < clk 0 \<and> clk 0 < ExpiresAt q + 10 ^ m \<longrightarrow>
       snd (sqlite_UpdateStateIf clk i ''pending'' new approver db) = Inr True) \<and>
    (10 ^ m dvd clk 0 \<and> clk 0 < ExpiresAt q \<and> ExpiresAt q < clk 0 + 10 ^ m \<longrightarrow>
       snd (sqlite_UpdateStateIf clk i ''pending'' new approver db) = Inr False)"
  using rfc3339nano_coarse [OF assms(7), of "ExpiresAt q" "clk 0"] rfc3339nano_coarse [OF assms(7), of "clk 0" "ExpiresAt q"]
  by (auto simp: sqlite_cas_answer [where clk = clk, OF assms(1-6)])

theorem sqlite_expiry_compares_text_witness:
  "snd (sqlite_UpdateStateIf (\<lambda>_. 1700000300520000000) ''r1'' ''pending'' ''approved'' ''tg:1'' half_second_db) = Inr True \<and>
   snd (sqlite_UpdateStateIf (\<lambda>_. 1700000300000000000) ''r1'' ''pending'' ''approved'' ''tg:1'' half_second_db) = Inr False"
proof -
  have "sql_rows half_second_db = [insert_row half_second_request]"
    by (simp add: half_second_db_def sqlite_Create_def sql_next_def)
  moreover have "timely half_second_request" by code_simp
  ultimately have ok: "sqlite_ok half_second_db" by (simp add: sqlite_ok_def row_ok_insert)
  have o: "sql_outcomes half_second_db = []" and y: "in_years 1700000300520000000" "in_years 1700000300000000000"
    and d: "decided ''approved''" and p: "map_option (\<lambda>q. (Status q, ExpiresAt q)) (sqlite_lookup half_second_db ''r1'') =
      Some (''pending'', 1700000300500000000)" by code_simp+
  from p obtain q where q: "sqlite_lookup half_second_db ''r1'' = Some q" "Status q = ''pending''"
    "ExpiresAt q = 1700000300500000000" by auto
  have m: "8 \<le> (9::nat)" "9 \<le> (9::nat)" by simp_all
  show ?thesis
    using sqlite_expiry_compares_text [where clk = "\<lambda>_. 1700000300520000000" and approver = "''tg:1''", OF ok o y(1) q(1,2) d m(1)]
      sqlite_expiry_compares_text [where clk = "\<lambda>_. 1700000300000000000" and approver = "''tg:1''", OF ok o y(2) q(1,2) d m(2)]
    by (simp add: q(3))
qed

lemma sorted_rev_key: "sorted_wrt (\<lambda>a b. f b \<le> f a) (rev (sort_key f xs))"
  using sorted_sort_key [of f xs] by (simp add: sorted_wrt_rev sorted_wrt_map)

text \<open>
  \<open>ListPending\<close> without a database error returns exactly the requests of the pending
  rows whose expiry text is after the clock's, each once, latest creation first.
\<close>

theorem sqlite_ListPending_spec:
  assumes "sqlite_ok db" "sqlite_ListPending clk db = (db', Inr rs)"
  shows "mset rs = mset (map request_of
       (filter (\<lambda>r. c_status r = ''pending'' \<and> rfc3339nano (clk 0) < c_expires_at r) (sql_rows db)))
     \<and> sorted_wrt (\<lambda>a b. rfc3339nano (CreatedAt b) \<le> rfc3339nano (CreatedAt a)) rs"
proof -
  let ?f = "filter (\<lambda>r. c_status r = ''pending'' \<and> format_utc (clk 0) < c_expires_at r) (sql_rows db)"
  have rs: "rs = map request_of (order_desc ?f)" by (rule sqlite_list(2) [OF assms]) simp
  have "\<forall>r \<in> set (order_desc ?f). row_ok r" using assms(1) by (auto simp: sqlite_ok_def)
  moreover have "sorted_wrt (\<lambda>a b. c_created_at b \<le> c_created_at a) (order_desc ?f)"
    unfolding order_desc_def by (rule sorted_rev_key)
  ultimately have "sorted_wrt (\<lambda>a b. rfc3339nano (CreatedAt b) \<le> rfc3339nano (CreatedAt a)) rs"
    unfolding rs sorted_wrt_map by (elim sorted_wrt_mono_rel [rotated]) (simp add: scan_row_ok(7))
  moreover have "mset rs = mset (map request_of ?f)"
    by (simp add: rs order_desc_def mset_map)
  ultimately show ?thesis by (simp add: format_utc_def)
qed

theorem sqlite_ListPending_spec_witness:
  "\<exists>db' rs. sqlite_ListPending (\<lambda>_. 1700000001000000000) sample_db = (db', Inr rs) \<and>
     mset rs = mset (map request_of
       (filter (\<lambda>r. c_status r = ''pending'' \<and> rfc3339nano 1700000001000000000 < c_expires_at r) (sql_rows sample_db)))"
proof -
  let ?l = "sqlite_ListPending (\<lambda>_. 1700000001000000000) sample_db"
  have "isl (snd ?l) = False" by code_simp
  then obtain db' rs where l: "?l = (db', Inr rs)" by (cases ?l; cases "snd ?l") auto
  from sqlite_ListPending_spec [OF sample_db_ok l] l show ?thesis by blast
qed

text \<open>
  Unlike the in-memory store, the SQLite store lets the handlers mark a request as
  expired: without a database error, \<open>UpdateStateIf\<close> from \<open>pending\<close> to \<open>expired\<close>
  succeeds on every stored pending request at every time and sets nothing but the status.
\<close>

theorem sqlite_marks_expired:
  assumes "sqlite_ok db" "sql_outcomes db = []" "in_years (clk 0)"
    "sqlite_lookup db i = Some r" "Status r = ''pending''"
  shows "\<exists>db'. sqlite_UpdateStateIf clk i ''pending'' ''expired'' [] db = (db', Inr True) \<and>
     (\<exists>r'. sqlite_lookup db' = (sqlite_lookup db)(i \<mapsto> r') \<and> Status r' = ''expired'' \<and> same_subject r r')"
proof -
  have "\<not> decided ''expired''" by (simp add: decided_def)
  with sqlite_cas_succeeds [where clk = clk and old = "''pending''" and new = "''expired''", OF assms]
  show ?thesis by metis
qed

theorem sqlite_marks_expired_witness:
  "\<exists>db'. sqlite_UpdateStateIf (\<lambda>_. 1800000000000000000) ''r1'' ''pending'' ''expired'' [] sample_db = (db', Inr True)"
proof -
  have o: "sql_outcomes sample_db = []" and y: "in_years 1800000000000000000"
    and p: "map_option Status (sqlite_lookup sample_db ''r1'') = Some ''pending''" by code_simp+
  from p obtain r where r: "sqlite_lookup sample_db ''r1'' = Some r" "Status r = ''pending''" by auto
  from sqlite_marks_expired [OF sample_db_ok o, of "\<lambda>_. 1800000000000000000", OF y r] show ?thesis by blast
qed

end
