(* ===== verification/Executor.thy ===== *)
theory Executor
  imports GoStrings
begin

text \<open>
  \<open>internal/executor/executor.go\<close>: the tokenizer, the allowlist matcher and the execution
  of an approved command. A process is started by the operating system, which is an
  argument of \<open>Execute\<close>; everything the code decides before and after it is defined here.
\<close>

section \<open>Tokenizer\<close>

definition rune_squote :: rune where "rune_squote = 39"
definition rune_dquote :: rune where "rune_dquote = 34"

definition is_blank :: "rune \<Rightarrow> bool" where
  "is_blank ch \<longleftrightarrow> ch = 32 \<or> ch = 9 \<or> ch = 10 \<or> ch = 13"

text \<open>
  The loop of \<open>tokenizeCommand\<close> with its three variables \<open>tokens\<close>, \<open>current\<close> and
  \<open>inQuote\<close> (0 outside a quote). The cases are in the order of the \<open>switch\<close>; in
  particular \<open>ch == inQuote\<close> also fires for a NUL outside a quote, which is dropped.
\<close>

fun tokenize_loop ::
  "rune list \<Rightarrow> string list \<Rightarrow> rune list \<Rightarrow> rune \<Rightarrow> string list \<times> rune list \<times> rune" where
  "tokenize_loop [] tokens cur q = (tokens, cur, q)"
| "tokenize_loop (ch # s) tokens cur q =
     (if (ch = rune_squote \<or> ch = rune_dquote) \<and> q = 0 then tokenize_loop s tokens cur ch
      else if ch = q then tokenize_loop s tokens cur 0
      else if q = 0 \<and> is_blank ch then
        (if cur \<noteq> [] then tokenize_loop s (tokens @ [string_of_runes cur]) [] q
         else tokenize_loop s tokens cur q)
      else tokenize_loop s tokens (cur @ [ch]) q)"

definition tokenizeCommand :: "string \<Rightarrow> go_error + string list" where
  "tokenizeCommand s =
     (let (tokens, cur, q) = tokenize_loop (runes s) [] [] 0
      in if q \<noteq> 0 then Inl (''unclosed quote '' @ string_of_runes [q] @ '' in command'')
         else Inr (if cur \<noteq> [] then tokens @ [string_of_runes cur] else tokens))"

section \<open>Allowlist\<close>

definition dangerousChars :: string where
  "dangerousChars = '';|&<>`$(){}[]!*?~''"

definition containsShellMetacharacters :: "string \<Rightarrow> bool" where
  "containsShellMetacharacters token \<longleftrightarrow>
     (\<exists>ch \<in> set (runes token). \<exists>danger \<in> set (runes dangerousChars). ch = danger)"

text \<open>The loop over \<open>matchTokens\<close> that compares the token at the same index.\<close>

fun tokens_agree :: "string list \<Rightarrow> string list \<Rightarrow> bool" where
  "tokens_agree [] cs = True"
| "tokens_agree (p # ps) (c # cs) = (if c \<noteq> p then False else tokens_agree ps cs)"
| "tokens_agree (p # ps) [] = False"

definition TokenizeAndMatch :: "string \<Rightarrow> string \<Rightarrow> bool" where
  "TokenizeAndMatch pattern command =
     (if pattern = ''*'' then True
      else if pattern = command then True
      else
        (case tokenizeCommand pattern of
           Inl _ \<Rightarrow> False
         | Inr patternTokens \<Rightarrow>
             (case tokenizeCommand command of
                Inl _ \<Rightarrow> False
              | Inr commandTokens \<Rightarrow>
                  if patternTokens = [] \<or> commandTokens = [] then False
                  else
                    let hasWildcard = (last patternTokens = ''*'');
                        matchTokens = (if hasWildcard then butlast patternTokens else patternTokens)
                    in if length commandTokens < length matchTokens then False
                       else if \<not> hasWildcard \<and> length commandTokens \<noteq> length matchTokens then False
                       else if \<not> tokens_agree matchTokens commandTokens then False
                       else if \<exists>t \<in> set commandTokens. containsShellMetacharacters t then False
                       else True)))"

record Executor =
  allowedCommands :: "string list"
  maxDuration :: int

definition NewExecutor :: "string list \<Rightarrow> int \<Rightarrow> Executor" where
  "NewExecutor cmds dur = \<lparr>allowedCommands = cmds, maxDuration = dur\<rparr>"

definition IsAllowed :: "Executor \<Rightarrow> string \<Rightarrow> bool" where
  "IsAllowed e command =
     list_ex (\<lambda>p. let pattern = trim_space p in pattern \<noteq> [] \<and> TokenizeAndMatch pattern command)
       (allowedCommands e)"

section \<open>Execution\<close>

record ExecuteResult =
  Stdout :: string
  Stderr :: string
  ExitCode :: int
  Duration :: int \<comment> \<open>milliseconds\<close>

text \<open>
  What \<open>cmd.Run\<close> reports: no error, an \<open>*exec.ExitError\<close> with its exit code, or any other
  error (binary not found, context deadline before the start), each with its text.
\<close>

datatype run_error = ExitError int go_error | RunError go_error

record proc_outcome =
  proc_stdout :: string
  proc_stderr :: string
  proc_error :: "run_error option"
  proc_millis :: int

type_synonym os_run = "string \<Rightarrow> string list \<Rightarrow> int \<Rightarrow> proc_outcome"
  \<comment> \<open>program, arguments, time limit in nanoseconds\<close>

fun run_error_text :: "run_error \<Rightarrow> go_error" where
  "run_error_text (ExitError _ e) = e"
| "run_error_text (RunError e) = e"

fun run_error_code :: "run_error \<Rightarrow> int" where
  "run_error_code (ExitError n _) = n"
| "run_error_code (RunError _) = 1"

definition ErrCommandNotAllowed :: go_error where
  "ErrCommandNotAllowed = ''command not in allowlist''"

text \<open>
  \<open>Execute\<close> returns Go's pair (result, error) and, first, the argument vector of the process
  it started, if it started one.
\<close>

definition Execute ::
  "Executor \<Rightarrow> os_run \<Rightarrow> string \<Rightarrow>
     string list option \<times> ExecuteResult option \<times> go_error option" where
  "Execute e run command =
     (if \<not> IsAllowed e command then (None, None, Some ErrCommandNotAllowed)
      else
        let duration = (if maxDuration e = 0 then 5 * 60 * 1000000000 else maxDuration e)
        in case tokenizeCommand command of
             Inl err \<Rightarrow> (None, None, Some (''invalid command: '' @ err))
           | Inr argv \<Rightarrow>
               (if argv = [] then (None, None, Some ''empty command'')
                else
                  let o1 = run (hd argv) (tl argv) duration;
                      result = \<lparr>Stdout = proc_stdout o1, Stderr = proc_stderr o1, ExitCode = 0,
                                Duration = proc_millis o1\<rparr>
                  in case proc_error o1 of
                       Some err \<Rightarrow>
                         (Some argv, Some (result\<lparr>ExitCode := run_error_code err\<rparr>),
                          Some (run_error_text err))
                     | None \<Rightarrow> (Some argv, Some (result\<lparr>ExitCode := 0\<rparr>), None)))"


section \<open>The tokenizer\<close>

text \<open>Tokens already found are only appended to.\<close>

lemma tokenize_loop_acc:
  "tokenize_loop s tokens cur q =
     (let (ts, c, q') = tokenize_loop s [] cur q in (tokens @ ts, c, q'))"
proof (induction s arbitrary: tokens cur q)
  case (Cons ch s)
  have IH: "tokenize_loop s tokens cur q =
      (tokens @ fst (tokenize_loop s [] cur q), snd (tokenize_loop s [] cur q))" for tokens cur q
    using Cons [of tokens cur q] by (simp add: split_beta Let_def)
  show ?case
    by (simp add: IH [of "tokens @ [string_of_runes cur]"] IH [of "[string_of_runes cur]"]
        IH [of tokens] split_beta Let_def)
qed simp

text \<open>No token is empty.\<close>

lemma tokenize_loop_nonempty:
  "[] \<notin> set tokens \<Longrightarrow> [] \<notin> set (fst (tokenize_loop s tokens cur q))"
  by (induction s tokens cur q rule: tokenize_loop.induct) auto

lemma tokenizeCommand_nonempty: "tokenizeCommand s = Inr ts \<Longrightarrow> [] \<notin> set ts"
  using tokenize_loop_nonempty [of "[]" "runes s" "[]" 0]
  by (auto simp: tokenizeCommand_def split_beta Let_def split: if_splits)

text \<open>A quoted span is copied into the current token up to its closing quote.\<close>

lemma tokenize_loop_span:
  "q \<noteq> 0 \<Longrightarrow> q \<notin> set rs \<Longrightarrow> tokenize_loop (rs @ q # s) tokens cur q = tokenize_loop s tokens (cur @ rs) 0"
  by (induction rs arbitrary: cur) (auto simp: rune_squote_def rune_dquote_def)

text \<open>Quoting a token: with double quotes, or with single quotes if it holds a double quote.\<close>

definition quote_rune :: "string \<Rightarrow> rune" where
  "quote_rune t = (if rune_dquote \<in> set (runes t) then rune_squote else rune_dquote)"

definition quote_token :: "string \<Rightarrow> string" where
  "quote_token t = string_of_runes [quote_rune t] @ t @ string_of_runes [quote_rune t]"

definition quotable :: "string \<Rightarrow> bool" where
  "quotable t \<longleftrightarrow> t \<noteq> [] \<and> valid_utf8 t \<and>
     \<not> (rune_dquote \<in> set (runes t) \<and> rune_squote \<in> set (runes t))"

lemma runes_quote [simp]: "runes (string_of_runes [quote_rune t] @ s) = quote_rune t # runes s"
  by (subst runes_string_of_runes_append)
    (auto simp: quote_rune_def rune_dquote_def rune_squote_def valid_rune_def)

lemma runes_quote_token:
  "quotable t \<Longrightarrow> runes (quote_token t @ s) = quote_rune t # runes t @ quote_rune t # runes s"
  by (simp add: quote_token_def quotable_def runes_append)

lemma tokenize_loop_quoted:
  "quotable t \<Longrightarrow>
     tokenize_loop (runes (quote_token t @ s)) tokens [] 0 = tokenize_loop (runes s) tokens (runes t) 0"
proof -
  assume q: "quotable t"
  then have "quote_rune t \<noteq> 0" "quote_rune t \<notin> set (runes t)"
    "quote_rune t = rune_squote \<or> quote_rune t = rune_dquote"
    by (auto simp: quote_rune_def quotable_def rune_dquote_def rune_squote_def split: if_splits)
  with q show ?thesis
    by (simp add: runes_quote_token tokenize_loop_span [where cur = "[]"])
qed

lemma runes_space_append [simp]: "runes (CHR '' '' # s) = 32 # runes s"
  by (simp add: runes_def bytes_of_def)

lemma tokenize_loop_quoted_list:
  "\<forall>t \<in> set ts. quotable t \<Longrightarrow> ts \<noteq> [] \<Longrightarrow>
     tokenize_loop (runes (join (map quote_token ts) '' '')) tokens [] 0 =
       (tokens @ butlast ts, runes (last ts), 0)"
proof (induction ts arbitrary: tokens)
  case (Cons t ts)
  then have t: "quotable t" by simp
  show ?case
  proof (cases "ts = []")
    case True
    with tokenize_loop_quoted [OF t, of "[]" tokens] show ?thesis by simp
  next
    case False
    have "runes t \<noteq> []" "string_of_runes (runes t) = t"
      using t by (auto simp: quotable_def valid_utf8_def)
    moreover have "join (map quote_token (t # ts)) '' '' =
        quote_token t @ CHR '' '' # join (map quote_token ts) '' ''"
      using False by (simp add: join_Cons)
    ultimately show ?thesis using False Cons
      by (simp add: tokenize_loop_quoted [OF t] is_blank_def rune_squote_def rune_dquote_def)
  qed
qed simp

text \<open>
  C19: the tokenizer reads back any argument vector whose words are non-empty valid UTF-8 and
  do not mix both kinds of quotes: quoting each word and joining the words with a space is
  a right inverse of \<open>tokenizeCommand\<close>, white space, metacharacters and control
  characters inside the words included.
\<close>

theorem tokenize_quoted_roundtrip:
  assumes "\<forall>t \<in> set ts. quotable t"
  shows "tokenizeCommand (join (map quote_token ts) '' '') = Inr ts"
proof (cases "ts = []")
  case True
  then show ?thesis by (simp add: tokenizeCommand_def)
next
  case False
  with assms have "runes (last ts) \<noteq> []" "string_of_runes (runes (last ts)) = last ts"
    by (auto simp: quotable_def valid_utf8_def)
  with assms False show ?thesis
    by (simp add: tokenizeCommand_def tokenize_loop_quoted_list)
qed

theorem tokenize_quoted_roundtrip_witness:
  "tokenizeCommand (join (map quote_token [''mkdir'', ''/tmp/a b'', ''c;d'']) '' '') =
     Inr [''mkdir'', ''/tmp/a b'', ''c;d'']"
proof -
  have q: "\<forall>t \<in> set [''mkdir'', ''/tmp/a b'', ''c;d'']. quotable t" by code_simp
  show ?thesis by (rule tokenize_quoted_roundtrip [OF q])
qed

section \<open>The allowlist matcher\<close>

lemma tokens_agree_iff: "tokens_agree ps cs \<longleftrightarrow> take (length ps) cs = ps"
  by (induction ps cs rule: tokens_agree.induct) auto

text \<open>The specification of a match on argument vectors: a trailing \<open>*\<close> stands for any tail.\<close>

definition argv_matches :: "string list \<Rightarrow> string list \<Rightarrow> bool" where
  "argv_matches pat argv \<longleftrightarrow>
     pat \<noteq> [] \<and> argv \<noteq> [] \<and>
     (if last pat = ''*'' then \<exists>rest. argv = butlast pat @ rest else argv = pat)"

definition metachar_free :: "string list \<Rightarrow> bool" where
  "metachar_free argv \<longleftrightarrow> (\<forall>t \<in> set argv. \<forall>c \<in> set t. c \<notin> set dangerousChars)"

lemma dangerous_ascii: "c \<in> set dangerousChars \<Longrightarrow> (of_char c :: nat) < 128"
  by (auto simp: dangerousChars_def)

lemma containsShellMetacharacters_iff:
  "containsShellMetacharacters t \<longleftrightarrow> (\<exists>c \<in> set t. c \<in> set dangerousChars)"
proof -
  have "runes dangerousChars = bytes_of dangerousChars"
    by (rule runes_ascii) (auto simp: dangerousChars_def bytes_of_def)
  then have "containsShellMetacharacters t \<longleftrightarrow>
      (\<exists>c \<in> set dangerousChars. of_char c \<in> set (runes t))"
    by (auto simp: containsShellMetacharacters_def bytes_of_def)
  also have "\<dots> \<longleftrightarrow> (\<exists>c \<in> set dangerousChars. of_char c \<in> set (bytes_of t))"
    using dangerous_ascii runes_ascii_iff by blast
  also have "\<dots> \<longleftrightarrow> (\<exists>c \<in> set t. c \<in> set dangerousChars)"
    by (auto simp: bytes_of_def)
  finally show ?thesis .
qed

lemma metachar_free_iff:
  "metachar_free argv \<longleftrightarrow> \<not> (\<exists>t \<in> set argv. containsShellMetacharacters t)"
  by (auto simp: metachar_free_def containsShellMetacharacters_iff)

lemma prefix_length_cases:
  "pat \<noteq> [] \<Longrightarrow> (\<exists>rest. argv = butlast pat @ rest) \<longleftrightarrow>
     length (butlast pat) \<le> length argv \<and> take (length (butlast pat)) argv = butlast pat"
  by (metis append_eq_conv_conj append_take_drop_id length_append le_add1)

lemma TokenizeAndMatch_iff:
  "TokenizeAndMatch p c \<longleftrightarrow>
     p = ''*'' \<or> p = c \<or>
     (\<exists>pat argv. tokenizeCommand p = Inr pat \<and> tokenizeCommand c = Inr argv \<and>
        argv_matches pat argv \<and> metachar_free argv)"
proof (cases "p = ''*'' \<or> p = c")
  case True
  then show ?thesis by (auto simp: TokenizeAndMatch_def)
next
  case False
  show ?thesis
  proof (cases "\<exists>pat argv. tokenizeCommand p = Inr pat \<and> tokenizeCommand c = Inr argv \<and> pat \<noteq> [] \<and> argv \<noteq> []")
    case True
    then obtain pat argv where t: "tokenizeCommand p = Inr pat" "tokenizeCommand c = Inr argv"
      and ne: "pat \<noteq> []" "argv \<noteq> []" by blast
    have "TokenizeAndMatch p c \<longleftrightarrow> argv_matches pat argv \<and> metachar_free argv"
      using False t ne
      by (cases "last pat = ''*''")
        (auto simp: TokenizeAndMatch_def argv_matches_def metachar_free_iff tokens_agree_iff
          prefix_length_cases Let_def not_less)
    with False t show ?thesis by auto
  next
    case no: False
    then have "\<not> TokenizeAndMatch p c"
      using False by (auto simp: TokenizeAndMatch_def split: sum.splits)
    with False no show ?thesis by (auto simp: argv_matches_def)
  qed
qed

text \<open>
  C5: the allowlist decision, written without the loops: a command is allowed exactly when
  some pattern, its surrounding white space removed and not empty, is \<open>*\<close>, or is the command
  itself, or tokenizes to an argument vector that the command's argument vector matches
  while the command's argument vector holds none of the shell metacharacters.
\<close>

theorem IsAllowed_characterisation:
  "IsAllowed e c \<longleftrightarrow>
     (\<exists>p \<in> trim_space ` set (allowedCommands e). p \<noteq> [] \<and>
        (p = ''*'' \<or> p = c \<or>
         (\<exists>pat argv. tokenizeCommand p = Inr pat \<and> tokenizeCommand c = Inr argv \<and>
            argv_matches pat argv \<and> metachar_free argv)))"
  by (auto simp: IsAllowed_def list_ex_iff Let_def TokenizeAndMatch_iff)

section \<open>What is executed\<close>

text \<open>The patterns after trimming, and the argument vectors of those that tokenize.\<close>

definition pattern_argvs :: "Executor \<Rightarrow> string list list" where
  "pattern_argvs e =
     [pat. p \<leftarrow> allowedCommands e, pat \<leftarrow>
        (case tokenizeCommand (trim_space p) of Inr pat \<Rightarrow> [pat] | Inl _ \<Rightarrow> [])]"

lemma set_pattern_argvs:
  "pat \<in> set (pattern_argvs e) \<longleftrightarrow>
     (\<exists>p \<in> set (allowedCommands e). tokenizeCommand (trim_space p) = Inr pat)"
  by (force simp: pattern_argvs_def split: sum.splits)

lemma tokenize_star: "tokenizeCommand ''*'' = Inr [''*'']"
  by code_simp

text \<open>The inversion of \<open>Execute\<close>: when it starts a process, and which.\<close>

lemma Execute_started:
  assumes "Execute e run c = (Some argv, r, err)"
  shows "IsAllowed e c" "tokenizeCommand c = Inr argv" "argv \<noteq> []"
  using assms by (auto simp: Execute_def Let_def split: if_splits sum.splits option.splits)

text \<open>
  C6: the program a process runs is fixed by the allowlist. When no pattern amounts to a
  bare wildcard, the first word of every process \<open>Execute\<close> starts is the first word of one
  of the patterns, whatever command string was submitted.
\<close>

theorem Execute_program_from_allowlist:
  assumes "Execute e run c = (Some argv, r, err)"
    and "[''*''] \<notin> set (pattern_argvs e)"
  shows "argv \<noteq> [] \<and> (\<exists>pat \<in> set (pattern_argvs e). pat \<noteq> [] \<and> hd argv = hd pat)"
proof -
  from Execute_started [OF assms(1)] obtain p where p: "p \<in> set (allowedCommands e)"
    and c: "tokenizeCommand c = Inr argv" "argv \<noteq> []"
    and m: "trim_space p = ''*'' \<or> trim_space p = c \<or>
      (\<exists>pat argv. tokenizeCommand (trim_space p) = Inr pat \<and> tokenizeCommand c = Inr argv \<and>
            argv_matches pat argv \<and> metachar_free argv)"
    by (auto simp: IsAllowed_def list_ex_iff Let_def TokenizeAndMatch_iff)
  from m consider "trim_space p = c"
    | pat where "tokenizeCommand (trim_space p) = Inr pat" "argv_matches pat argv"
    using assms(2) p c tokenize_star by (auto simp: set_pattern_argvs)
  then show ?thesis
  proof cases
    case 1
    with p c have "argv \<in> set (pattern_argvs e)" by (auto simp: set_pattern_argvs)
    with c show ?thesis by blast
  next
    case 2
    with p have pat: "pat \<in> set (pattern_argvs e)" by (auto simp: set_pattern_argvs)
    with assms(2) have ne: "pat \<noteq> [''*'']" by blast
    have "hd argv = hd pat"
    proof (cases "last pat = ''*''")
      case True
      with 2 ne have "butlast pat \<noteq> []" "\<exists>rest. argv = butlast pat @ rest"
        by (auto simp: argv_matches_def) (metis append_butlast_last_id append_Nil)
      moreover have "hd (butlast pat) = hd pat"
        using \<open>butlast pat \<noteq> []\<close> by (cases pat) auto
      ultimately show ?thesis by (metis hd_append2)
    next
      case False
      with 2 show ?thesis by (simp add: argv_matches_def)
    qed
    with c pat 2 show ?thesis by (auto simp: argv_matches_def)
  qed
qed

definition apt_executor :: Executor where
  "apt_executor = NewExecutor [''apt install *'', '' apt update ''] 0"

definition quiet_run :: os_run where
  "quiet_run prog args limit =
     \<lparr>proc_stdout = [], proc_stderr = [], proc_error = None, proc_millis = 3\<rparr>"

lemma apt_executor_run:
  "Execute apt_executor quiet_run ''apt install \"golang go\"'' =
     (Some [''apt'', ''install'', ''golang go''],
      Some \<lparr>Stdout = [], Stderr = [], ExitCode = 0, Duration = 3\<rparr>, None)"
  by code_simp

lemma apt_executor_patterns:
  "pattern_argvs apt_executor = [[''apt'', ''install'', ''*''], [''apt'', ''update'']]"
  by code_simp

theorem Execute_program_from_allowlist_witness:
  "[''apt'', ''install'', ''golang go''] \<noteq> [] \<and>
   (\<exists>pat \<in> set (pattern_argvs apt_executor). pat \<noteq> [] \<and> hd [''apt'', ''install'', ''golang go''] = hd pat)"
  by (rule Execute_program_from_allowlist [OF apt_executor_run]) (simp add: apt_executor_patterns)

text \<open>
  No shell metacharacter reaches a process through a wildcard. If no pattern is the bare
  \<open>*\<close> and the submitted string is not literally one of the (trimmed) patterns, then no word
  of the argument vector that \<open>Execute\<close> starts contains one of \<open>;|&<>`$(){}[]!*?~\<close>.
\<close>

theorem Execute_no_metachars:
  assumes "Execute e run c = (Some argv, r, err)"
    and "''*'' \<notin> trim_space ` set (allowedCommands e)"
    and "c \<notin> trim_space ` set (allowedCommands e)"
  shows "\<forall>t \<in> set argv. \<forall>ch \<in> set t. ch \<notin> set dangerousChars"
proof -
  from Execute_started [OF assms(1)] have "IsAllowed e c" "tokenizeCommand c = Inr argv" by auto
  with assms(2,3) have "metachar_free argv"
    by (auto simp: IsAllowed_def list_ex_iff Let_def TokenizeAndMatch_iff image_iff)
  then show ?thesis by (simp add: metachar_free_def)
qed

theorem Execute_no_metachars_witness:
  "metachar_free [''apt'', ''install'', ''golang go'']"
proof -
  have "''*'' \<notin> trim_space ` set (allowedCommands apt_executor)" by code_simp
  moreover have "''apt install \"golang go\"'' \<notin> trim_space ` set (allowedCommands apt_executor)" by code_simp
  ultimately show ?thesis unfolding metachar_free_def by (rule Execute_no_metachars [OF apt_executor_run])
qed

definition time_limit :: "Executor \<Rightarrow> int" where
  "time_limit e = (if maxDuration e = 0 then 300000000000 else maxDuration e)"

text \<open>
  \<open>Execute\<close> on every branch. A command outside the allowlist gives
  \<open>ErrCommandNotAllowed\<close> and starts nothing; an allowed command that does not tokenize, or
  has no word, gives its own error and starts nothing; otherwise exactly the tokenized
  words are run, once, under the configured limit (five minutes when it is 0), the exit
  code of an \<open>ExitError\<close> is kept, any other failure is reported as exit code 1, and the
  captured output is returned in both cases.
\<close>

theorem Execute_branches:
  "(\<not> IsAllowed e c \<longrightarrow> Execute e run c = (None, None, Some ErrCommandNotAllowed)) \<and>
   (\<forall>m. IsAllowed e c \<and> tokenizeCommand c = Inl m \<longrightarrow>
      Execute e run c = (None, None, Some (''invalid command: '' @ m))) \<and>
   (IsAllowed e c \<and> tokenizeCommand c = Inr [] \<longrightarrow> Execute e run c = (None, None, Some ''empty command'')) \<and>
   (\<forall>prog args. IsAllowed e c \<and> tokenizeCommand c = Inr (prog # args) \<longrightarrow>
      Execute e run c =
        (let out = run prog args (time_limit e)
         in (Some (prog # args),
             Some \<lparr>Stdout = proc_stdout out, Stderr = proc_stderr out,
                   ExitCode = (case proc_error out of None \<Rightarrow> 0 | Some x \<Rightarrow> run_error_code x),
                   Duration = proc_millis out\<rparr>,
             map_option run_error_text (proc_error out))))"
  by (auto simp: Execute_def time_limit_def Let_def split: option.split)

theorem Execute_branches_witness:
  "Execute apt_executor quiet_run ''rm -rf /'' = (None, None, Some ErrCommandNotAllowed)"
proof -
  have "\<not> IsAllowed apt_executor ''rm -rf /''" by code_simp
  with Execute_branches [of apt_executor "''rm -rf /''" quiet_run] show ?thesis by blast
qed

end
