(* ===== verification/Logger.thy ===== *)
theory Logger
  imports Http
begin

text \<open>
  \<open>internal/logger/logger.go\<close>: one JSON object per line. Of the fields a caller gives, the
  logger keeps four, and each only when it has one particular Go type.
\<close>

text \<open>The dynamic types of the field values that the callers use.\<close>

datatype field_value =
    FString string
  | FInt64 int
  | FInt int
  | FBool bool

record LogEntry =
  le_Timestamp :: string
  le_Level :: string
  le_Message :: string
  le_RequestID :: string
  le_Command :: string
  le_Status :: string
  le_DurationMs :: int

definition LevelInfo :: string where "LevelInfo = ''info''"
definition LevelWarn :: string where "LevelWarn = ''warn''"
definition LevelError :: string where "LevelError = ''error''"

text \<open>\<open>fields[key].(string)\<close> and \<open>fields[key].(int64)\<close> with the zero value where they fail.\<close>

definition string_field :: "(string \<times> field_value) list \<Rightarrow> string \<Rightarrow> string" where
  "string_field flds key = (case map_of flds key of Some (FString v) \<Rightarrow> v | _ \<Rightarrow> [])"

definition int64_field :: "(string \<times> field_value) list \<Rightarrow> string \<Rightarrow> int" where
  "int64_field flds key = (case map_of flds key of Some (FInt64 v) \<Rightarrow> v | _ \<Rightarrow> 0)"

definition json_of_entry :: "LogEntry \<Rightarrow> json" where
  "json_of_entry e = JObj (
     [(''timestamp'', JStr (le_Timestamp e)), (''level'', JStr (le_Level e)), (''message'', JStr (le_Message e))] @
     (if le_RequestID e = [] then [] else [(''request_id'', JStr (le_RequestID e))]) @
     (if le_Command e = [] then [] else [(''command'', JStr (le_Command e))]) @
     (if le_Status e = [] then [] else [(''status'', JStr (le_Status e))]) @
     (if le_DurationMs e = 0 then [] else [(''duration_ms'', JInt (le_DurationMs e))]))"

definition Log :: "gotime \<Rightarrow> string \<Rightarrow> string \<Rightarrow> (string \<times> field_value) list \<Rightarrow> json" where
  "Log now level message flds =
     (let entry = \<lparr>le_Timestamp = rfc3339 now, le_Level = level, le_Message = message,
            le_RequestID = [], le_Command = [], le_Status = [], le_DurationMs = 0\<rparr>;
          v = string_field flds ''request_id'';
          entry = (if v \<noteq> [] then entry\<lparr>le_RequestID := v\<rparr> else entry);
          v = string_field flds ''command'';
          entry = (if v \<noteq> [] then entry\<lparr>le_Command := v\<rparr> else entry);
          v = string_field flds ''status'';
          entry = (if v \<noteq> [] then entry\<lparr>le_Status := v\<rparr> else entry);
          d = int64_field flds ''duration_ms'';
          entry = (if d > 0 then entry\<lparr>le_DurationMs := d\<rparr> else entry)
      in json_of_entry entry)"

definition Info :: "gotime \<Rightarrow> string \<Rightarrow> (string \<times> field_value) list \<Rightarrow> json" where
  "Info now message flds = Log now LevelInfo message flds"

definition Warn :: "gotime \<Rightarrow> string \<Rightarrow> (string \<times> field_value) list \<Rightarrow> json" where
  "Warn now message flds = Log now LevelWarn message flds"

definition Error :: "gotime \<Rightarrow> string \<Rightarrow> (string \<times> field_value) list \<Rightarrow> json" where
  "Error now message flds = Log now LevelError message flds"

section \<open>What reaches the log\<close>

definition kept_fields :: "(string \<times> field_value) list \<Rightarrow> string \<times> string \<times> string \<times> int" where
  "kept_fields flds =
     (string_field flds ''request_id'', string_field flds ''command'', string_field flds ''status'',
      max 0 (int64_field flds ''duration_ms''))"

lemma Log_kept: "kept_fields fs = kept_fields gs \<Longrightarrow> Log now level message fs = Log now level message gs"
  by (simp add: Log_def kept_fields_def json_of_entry_def Let_def max_def split: if_splits)

lemma Log_no_fields:
  "kept_fields fs = ([], [], [], 0) \<Longrightarrow>
     Log now level message fs =
       JObj [(''timestamp'', JStr (rfc3339 now)), (''level'', JStr level), (''message'', JStr message)]"
  by (simp add: Log_def kept_fields_def json_of_entry_def Let_def max_def split: if_splits)

end
