(* ===== verification/ApiV1.thy ===== *)
theory ApiV1
  imports OpenClaw SqliteStore Executor Logger
begin

text \<open>
  \<open>internal/api/v1.go\<close>: the v1 REST interface over a request store and the executor. A
  handler returns the new state of the store, what it did outside it (processes started,
  notifications sent, calls of the logger, in order) and its response. \<open>handleApproveOrDeny\<close> is split at its
  store calls into three phases, so that concurrent requests can be interleaved phase by
  phase; run one after the other the phases are the handler.
\<close>

section \<open>The handler\<close>

record 's V1Handler =
  v1_store :: "'s RequestStore"
  v1_executor :: Executor
  v1_notifier :: OpenClawNotifier
  v1_allowlist :: "string list"
  v1_requireReason :: bool

definition NewV1Handler :: "'s RequestStore \<Rightarrow> Executor \<Rightarrow> OpenClawNotifier \<Rightarrow> string list \<Rightarrow> bool \<Rightarrow> 's V1Handler" where
  "NewV1Handler store ex notifier allowlist reqReason =
     \<lparr>v1_store = store, v1_executor = ex, v1_notifier = notifier, v1_allowlist = allowlist, v1_requireReason = reqReason\<rparr>"

record v1_create_body =
  vb_Command :: string
  vb_Reason :: string
  vb_RequestedBy :: string
  vb_TelegramUserId :: int

record v1_decision_body =
  db_BiometricToken :: string
  db_UserID :: string
  db_Reason :: string

text \<open>
  Outside the program: the JSON decoders (the second returns what it filled in before an
  error), the host name, the fresh identifier, the operating system that runs a process and
  the network.
\<close>

record v1_env =
  decode_v1_create :: "string \<Rightarrow> go_error + v1_create_body"
  decode_v1_decision :: "string \<Rightarrow> v1_decision_body \<times> go_error option"
  hostname :: "go_error + string"
  v1_uuid :: string
  run_process :: os_run
  openclaw :: openclaw_net

text \<open>
  What a handler does outside the store: a process is started, a webhook is posted to, the
  logger is called. The line that the logger writes for a call is \<open>Log\<close> with the time of the call.
\<close>

datatype v1_event =
    Started "string list"
  | Posted webhook_post
  | LogCall string string "(string \<times> field_value) list" \<comment> \<open>level, message and fields\<close>

definition v1_isCommandAllowed :: "'s V1Handler \<Rightarrow> string \<Rightarrow> bool" where
  "v1_isCommandAllowed h command = IsAllowed (v1_executor h) command"

text \<open>\<open>splitPath\<close>: the loop over runes with its builder.\<close>

fun splitPath_loop :: "rune list \<Rightarrow> string list \<Rightarrow> string \<Rightarrow> string list \<times> string" where
  "splitPath_loop [] parts cur = (parts, cur)"
| "splitPath_loop (ch # s) parts cur =
     (if ch = 47 then
        (if cur \<noteq> [] then splitPath_loop s (parts @ [cur]) [] else splitPath_loop s parts cur)
      else splitPath_loop s parts (cur @ string_of_runes [ch]))"

definition splitPath :: "string \<Rightarrow> string list" where
  "splitPath path =
     (let (parts, cur) = splitPath_loop (runes path) [] []
      in if cur \<noteq> [] then parts @ [cur] else parts)"

definition v1_handleHealth :: "clock \<Rightarrow> http_response" where
  "v1_handleHealth clk =
     respond (JObj [(''status'', JStr ''ok''), (''time'', JStr (rfc3339 (clk 0))), (''version'', JStr ''1.0.0'')])"

section \<open>Creation and lookup\<close>

definition v1_handleCreateRequest ::
  "'s V1Handler \<Rightarrow> v1_env \<Rightarrow> clock \<Rightarrow> http_request \<Rightarrow> 's \<Rightarrow> 's \<times> v1_event list \<times> http_response" where
  "v1_handleCreateRequest h env clk r s =
     (case decode_v1_create env (ReqBody r) of
        Inl _ \<Rightarrow> (s, [], respondError StatusBadRequest ''invalid request body'')
      | Inr req \<Rightarrow>
      if vb_Command req = [] then (s, [], respondError StatusBadRequest ''command is required'')
      else if v1_requireReason h \<and> vb_Reason req = [] then
        (s, [], respondError StatusBadRequest ''reason is required'')
      else if \<not> v1_isCommandAllowed h (vb_Command req) then
        (s, [], respondError StatusForbidden ''command not in allowlist'')
      else
      let requestedBy = (if vb_RequestedBy req = [] then RemoteAddr r else vb_RequestedBy req);
          targetSystem = (case hostname env of Inl _ \<Rightarrow> [] | Inr n \<Rightarrow> n);
          request = zero_request\<lparr>ID := v1_uuid env, Command := vb_Command req, Reason := vb_Reason req,
            Requester := requestedBy, TargetSystem := targetSystem, Status := ''pending'',
            CreatedAt := clk 0, ExpiresAt := time_add (clk 1) (dur_times 5 time_Minute),
            NotifyChatID := vb_TelegramUserId req, IPAddress := RemoteAddr r,
            UserAgent := Header r ''User-Agent''\<rparr>
      in case Create (v1_store h) request s of
           (s1, Some err) \<Rightarrow>
             (s1, [LogCall LevelError ''Failed to create request''
                     [(''error'', FString err), (''command'', FString (vb_Command req))]],
              respondError StatusInternalServerError ''failed to create request'')
         | (s1, None) \<Rightarrow>
             let (posts, failed) = oc_Notify (openclaw env) (v1_notifier h)
                \<lparr>nr_RequestID = ID request, nr_Command = Command request, nr_Reason = Reason request,
                 nr_Requester = Requester request, nr_TargetSystem = TargetSystem request,
                 nr_ExpiresAt = ExpiresAt request\<rparr>;
                 warned = (case failed of
                    None \<Rightarrow> []
                  | Some err \<Rightarrow> [LogCall LevelWarn ''Failed to send notification''
                      [(''error'', FString err), (''request_id'', FString (ID request))]]);
                 created = LogCall LevelInfo ''Request created''
                   [(''request_id'', FString (ID request)), (''command'', FString (Command request)),
                    (''requester'', FString (Requester request))]
             in (s1, map Posted posts @ warned @ [created],
              (respond (JObj [(''request'', JObj [(''expires_at'', JStr (rfc3339 (ExpiresAt request))),
                                               (''id'', JStr (ID request)), (''status'', JStr (Status request))]),
                              (''success'', JBool True)]))\<lparr>resp_status := StatusCreated\<rparr>))"

definition v1_prefix :: string where "v1_prefix = ''/api/v1/request/''"

definition v1_handleGetRequest :: "'s V1Handler \<Rightarrow> http_request \<Rightarrow> 's \<Rightarrow> 's \<times> http_response" where
  "v1_handleGetRequest h r s =
     (let i = drop (length v1_prefix) (URLPath r)
      in if i = [] then (s, respondError StatusBadRequest ''request ID required'')
         else case Get (v1_store h) i s of
                (s1, Inl _) \<Rightarrow> (s1, respondError StatusInternalServerError ''failed to get request'')
              | (s1, Inr None) \<Rightarrow> (s1, respondError StatusNotFound ''request not found'')
              | (s1, Inr (Some req)) \<Rightarrow> (s1, respond (json_of_request req)))"

section \<open>Listing\<close>

text \<open>The two query parameters, and the slice \<open>requests[start:end]\<close>; \<open>None\<close> is a panic.\<close>

definition page_limit :: "string \<Rightarrow> int" where
  "page_limit limitStr =
     (if limitStr = [] then 100
      else case sscanf_d limitStr of
             None \<Rightarrow> 100
           | Some limit \<Rightarrow> if limit \<le> 0 then 100 else limit)"

definition page_offset :: "string \<Rightarrow> int" where
  "page_offset offsetStr =
     (if offsetStr = [] then 0
      else let offset = (case sscanf_d offsetStr of None \<Rightarrow> 0 | Some n \<Rightarrow> n)
           in if offset < 0 then 0 else offset)"

definition paginate :: "int \<Rightarrow> int \<Rightarrow> 'a list \<Rightarrow> 'a list option" where
  "paginate limit offset xs =
     (let total = int (length xs);
          start = (if offset < 0 then 0 else offset);
          start = (if start > total then total else start);
          end1 = wrap64 (start + limit);
          end2 = (if end1 > total then total else end1)
      in if 0 \<le> start \<and> start \<le> end2 \<and> end2 \<le> total
         then Some (take (nat (end2 - start)) (drop (nat start) xs)) else None)"

definition v1_handleListRequests ::
  "'s V1Handler \<Rightarrow> clock \<Rightarrow> http_request \<Rightarrow> 's \<Rightarrow> 's \<times> http_response" where
  "v1_handleListRequests h clk r s =
     (let status = QueryGet r ''status''
      in if status \<noteq> [] \<and> status \<noteq> ''pending'' then
           (s, respondError StatusBadRequest (''unsupported status filter: '' @ status))
         else case ListPending (v1_store h) clk s of
                (s1, Inl _) \<Rightarrow> (s1, respondError StatusInternalServerError ''failed to list requests'')
              | (s1, Inr reqs) \<Rightarrow>
                  let limit = page_limit (QueryGet r ''limit''); offset = page_offset (QueryGet r ''offset'')
                  in case paginate limit offset reqs of
                       None \<Rightarrow> (s1, handler_panic)
                     | Some page \<Rightarrow>
                         (s1, respond (JObj [(''limit'', JInt limit), (''offset'', JInt offset),
                           (''requests'', if reqs = [] then JNull else JArr (map json_of_request page)),
                           (''total'', JInt (int (length reqs)))])))"

section \<open>Approval, denial and execution\<close>

text \<open>A response with \<open>"success": false\<close> and status 200.\<close>

definition not_done :: "string \<Rightarrow> http_response" where
  "not_done msg = respond (JObj [(''error'', JStr msg), (''success'', JBool False)])"

text \<open>
  The first phase: from the path to the decoded body. An \<open>Inl\<close> is the response that ends
  the handler; an \<open>Inr\<close> is the identifier, whether it is an approval, the request that was
  read and the body.
\<close>

type_synonym v1_checked = "string \<times> bool \<times> ElevationRequest \<times> v1_decision_body"

definition v1_check ::
  "'s V1Handler \<Rightarrow> v1_env \<Rightarrow> clock \<Rightarrow> http_request \<Rightarrow> 's \<Rightarrow> 's \<times> (http_response + v1_checked)" where
  "v1_check h env clk r s =
     (let parts = splitPath (drop (length v1_prefix) (URLPath r))
      in if length parts < 2 then (s, Inl (respondError StatusBadRequest ''invalid request path''))
      else
      let requestID = parts ! 0; action = parts ! 1
      in if action \<noteq> ''approve'' \<and> action \<noteq> ''deny'' then
        (s, Inl (respondError StatusBadRequest ''invalid action''))
      else case Get (v1_store h) requestID s of
        (s1, Inl _) \<Rightarrow> (s1, Inl (respondError StatusInternalServerError ''failed to get request''))
      | (s1, Inr None) \<Rightarrow> (s1, Inl (respondError StatusNotFound ''request not found''))
      | (s1, Inr (Some request)) \<Rightarrow>
          if Status request \<noteq> ''pending'' then (s1, Inl (not_done (''request already '' @ Status request)))
          else if time_after (clk 0) (ExpiresAt request) then
            (let (s2, _) = UpdateStateIf (v1_store h) (clk_from 1 clk) requestID ''pending'' ''expired'' [] s1
             in (s2, Inl (respondError StatusGone ''request expired'')))
          else
            let (b, err) = decode_v1_decision env (ReqBody r);
                body = (case err of None \<Rightarrow> b | Some _ \<Rightarrow> b\<lparr>db_UserID := Header r ''X-User-ID''\<rparr>)
            in (s1, Inr (requestID, action = ''approve'', request, body)))"

text \<open>
  The second phase: the compare-and-set. It ends the handler, or hands the approved
  request to the third phase.
\<close>

definition v1_decide ::
  "'s V1Handler \<Rightarrow> v1_env \<Rightarrow> clock \<Rightarrow> v1_checked \<Rightarrow> 's \<Rightarrow>
     's \<times> v1_event list \<times> (http_response + (string \<times> ElevationRequest))" where
  "v1_decide h env clk = (\<lambda>(requestID, approve, request, body) s.
     if approve then
       (if db_BiometricToken body = [] \<or> db_UserID body = [] then
          (s, [], Inl (respondError StatusBadRequest ''biometric_token and user_id are required for approval''))
        else if db_BiometricToken body = [] then
          (s, [], Inl (respondError StatusUnauthorized ''invalid biometric token''))
        else case UpdateStateIf (v1_store h) (clk_from 1 clk) requestID ''pending'' ''approved'' (db_UserID body) s of
               (s1, Inl _) \<Rightarrow> (s1, [], Inl (respondError StatusInternalServerError ''failed to approve request''))
             | (s1, Inr success) \<Rightarrow>
                 if \<not> success then (s1, [], Inl (not_done ''request already processed''))
                 else (s1, [], Inr (requestID, request)))
     else
       (if db_UserID body = [] then
          (s, [], Inl (respondError StatusBadRequest ''user_id is required for denial''))
        else case UpdateStateIf (v1_store h) (clk_from 1 clk) requestID ''pending'' ''denied'' (db_UserID body) s of
               (s1, Inl _) \<Rightarrow> (s1, [], Inl (respondError StatusInternalServerError ''failed to deny request''))
             | (s1, Inr success) \<Rightarrow>
                 if \<not> success then (s1, [], Inl (not_done ''request already processed''))
                 else (s1, LogCall LevelInfo ''Request denied''
                          [(''request_id'', FString requestID), (''command'', FString (Command request)),
                           (''reason'', FString (db_Reason body)), (''denied_by'', FString (db_UserID body))] #
                        map Posted (fst (oc_NotifyDenied (openclaw env) (v1_notifier h) requestID
                          (Command request) (db_Reason body))),
                       Inl (respond (JObj [(''status'', JStr ''denied''), (''success'', JBool True)])))))"

text \<open>The calls of the logger inside \<open>Execute\<close>, from what it returns.\<close>

definition execute_log :: "string \<Rightarrow> string list option \<times> ExecuteResult option \<times> go_error option \<Rightarrow> v1_event list" where
  "execute_log command = (\<lambda>(started, result, err).
     (case (started, result) of
        (Some _, Some res) \<Rightarrow>
          (case err of
             Some e \<Rightarrow> [LogCall LevelError ''Command execution failed''
                          [(''command'', FString command), (''error'', FString e)]]
           | None \<Rightarrow> [LogCall LevelInfo ''Command executed''
                          [(''command'', FString command), (''duration_ms'', FInt64 (Duration res))]])
      | _ \<Rightarrow> []))"

text \<open>The third phase: run the command that was read in the first, record the result, notify.\<close>

definition v1_execute ::
  "'s V1Handler \<Rightarrow> v1_env \<Rightarrow> string \<times> ElevationRequest \<Rightarrow> 's \<Rightarrow> 's \<times> v1_event list \<times> http_response" where
  "v1_execute h env = (\<lambda>(requestID, request) s.
     let (started, result, err) = Execute (v1_executor h) (run_process env) (Command request);
         evs = (case started of None \<Rightarrow> [] | Some argv \<Rightarrow> [Started argv]) @
               execute_log (Command request) (started, result, err)
     in case err of
          Some e \<Rightarrow>
            (let (s1, _) = Update (v1_store h)
                   (zero_request\<lparr>ID := requestID, Status := ''failed'', Output := Some e, ReqExitCode := Some 1\<rparr>) s
             in (s1, evs @ [LogCall LevelError ''Command execution failed''
                              [(''request_id'', FString requestID), (''command'', FString (Command request)),
                               (''error'', FString e)]],
                 respondError StatusInternalServerError ''command execution failed''))
        | None \<Rightarrow>
            (case result of
               None \<Rightarrow> (s, evs, handler_panic)
             | Some res \<Rightarrow>
                 let (s1, _) = Update (v1_store h)
                       (zero_request\<lparr>ID := requestID, Status := ''completed'', Output := Some (Stdout res),
                          ReqExitCode := Some (ExitCode res)\<rparr>) s
                 in (s1, evs @ [LogCall LevelInfo ''Command executed successfully''
                                  [(''request_id'', FString requestID), (''command'', FString (Command request)),
                                   (''exit_code'', FInt (ExitCode res))]] @
                       map Posted (fst (oc_NotifyExecuted (openclaw env) (v1_notifier h) requestID (Command request)
                       (ExitCode res) (Stdout res))),
                     respond (JObj [(''exit_code'', JInt (ExitCode res)), (''output'', JStr (Stdout res)),
                                    (''status'', JStr ''completed''), (''success'', JBool True)]))))"

definition v1_handleApproveOrDeny ::
  "'s V1Handler \<Rightarrow> v1_env \<Rightarrow> clock \<Rightarrow> http_request \<Rightarrow> 's \<Rightarrow> 's \<times> v1_event list \<times> http_response" where
  "v1_handleApproveOrDeny h env clk r s =
     (case v1_check h env clk r s of
        (s1, Inl resp) \<Rightarrow> (s1, [], resp)
      | (s1, Inr c) \<Rightarrow>
     (case v1_decide h env clk c s1 of
        (s2, evs, Inl resp) \<Rightarrow> (s2, evs, resp)
      | (s2, evs, Inr a) \<Rightarrow>
          (let (s3, evs', resp) = v1_execute h env a s2 in (s3, evs @ evs', resp))))"

text \<open>
  \<open>RegisterRoutes\<close>: the patterns with a method, as the multiplexer matches them; a path
  ending in a slash is a prefix, and a pattern for GET serves HEAD, too. \<open>None\<close>
  means that no route of this handler matches.
\<close>

definition v1_route ::
  "'s V1Handler \<Rightarrow> v1_env \<Rightarrow> clock \<Rightarrow> http_request \<Rightarrow> 's \<Rightarrow> ('s \<times> v1_event list \<times> http_response) option" where
  "v1_route h env clk r s =
     (if URLPath r = ''/api/v1/health'' \<and> Method r \<in> {''GET'', ''HEAD''} then Some (s, [], v1_handleHealth clk)
      else if URLPath r = ''/api/v1/request'' \<and> Method r = ''POST'' then Some (v1_handleCreateRequest h env clk r s)
      else if has_prefix (URLPath r) v1_prefix \<and> Method r \<in> {''GET'', ''HEAD''} then
        (let (s1, resp) = v1_handleGetRequest h r s in Some (s1, [], resp))
      else if URLPath r = ''/api/v1/requests'' \<and> Method r \<in> {''GET'', ''HEAD''} then
        (let (s1, resp) = v1_handleListRequests h clk r s in Some (s1, [], resp))
      else if has_prefix (URLPath r) v1_prefix \<and> Method r = ''POST'' then Some (v1_handleApproveOrDeny h env clk r s)
      else None)"

section \<open>Paths and pages\<close>

lemma split_on_prefix:
  "c \<notin> set p \<Longrightarrow> split_on c (p @ s) = (p @ hd (split_on c s)) # tl (split_on c s)"
  by (induction p) auto

lemma slash_in_encode:
  "valid_rune ch \<Longrightarrow> CHR ''/'' \<in> set (string_of_runes [ch]) \<longleftrightarrow> ch = 47"
  using char_in_runes [of "CHR ''/''" "string_of_runes [ch]"] by auto

lemma string_of_runes_Cons: "string_of_runes (ch # rs) = string_of_runes [ch] @ string_of_runes rs"
  using string_of_runes_append [of "[ch]" rs] by simp

lemma splitPath_loop_split:
  "\<forall>r \<in> set rs. valid_rune r \<Longrightarrow> CHR ''/'' \<notin> set cur \<Longrightarrow>
     (let (parts', cur') = splitPath_loop rs parts cur in if cur' \<noteq> [] then parts' @ [cur'] else parts') =
       parts @ filter (\<lambda>p. p \<noteq> []) (split_on (CHR ''/'') (cur @ string_of_runes rs))"
proof (induction rs parts cur rule: splitPath_loop.induct)
  case (1 parts cur)
  then show ?case by (simp add: split_on_single)
next
  case (2 ch s parts cur)
  show ?case
  proof (cases "ch = 47")
    case True
    have sl: "string_of_runes [47] = ''/''" by code_simp
    have "split_on (CHR ''/'') (cur @ string_of_runes (ch # s)) =
        cur # split_on (CHR ''/'') (string_of_runes s)"
      using 2(5) by (simp add: True string_of_runes_Cons [of 47 s] sl split_on_append_sep split_on_append split_on_single)
    moreover have v: "\<forall>r \<in> set s. valid_rune r" using 2(4) by simp
    ultimately show ?thesis using 2(1) [OF True _ v] 2(2) [OF True _ v]
      by (cases "cur = []") (simp_all add: True del: split_paired_All)
  next
    case False
    have v: "\<forall>r \<in> set s. valid_rune r" "valid_rune ch" using 2(4) by simp_all
    have "CHR ''/'' \<notin> set (cur @ string_of_runes [ch])" using 2(5) v(2) False by (simp add: slash_in_encode)
    from 2(3) [OF False v(1) this] show ?thesis
      by (simp add: string_of_runes_Cons [of ch s] False)
  qed
qed

text \<open>
  C31: on a valid UTF-8 path the rune loop with its builder splits at the slashes and keeps
  the non-empty segments, whatever slashes lead, trail or repeat.
\<close>

theorem splitPath_split:
  assumes "valid_utf8 path"
  shows "splitPath path = filter (\<lambda>p. p \<noteq> []) (split_on (CHR ''/'') path)"
  using splitPath_loop_split [OF runes_valid, of "[]" path "[]"] assms
  by (simp add: splitPath_def valid_utf8_def)

theorem splitPath_split_witness:
  "splitPath ''//r-1///approve/'' = [''r-1'', ''approve'']"
proof -
  have v: "valid_utf8 ''//r-1///approve/''" by code_simp
  show ?thesis unfolding splitPath_split [OF v] by code_simp
qed

lemma wrap64_over: "max_int64 < x \<Longrightarrow> x \<le> 2 * max_int64 \<Longrightarrow> wrap64 x < 0"
  using minus_mod_self2 [of "x + 9223372036854775808" 18446744073709551616]
    mod_pos_pos_trivial [of "x + 9223372036854775808 - 18446744073709551616" 18446744073709551616]
  by (simp add: wrap64_def max_int64_def)

text \<open>
  C30: a page of the listing. For a positive limit and a non-negative offset the slice is
  exactly the requests from the offset on, at most the limit of them; but when the start and
  the limit add up past the largest \<open>int\<close> the sum wraps to a negative end and the slice
  expression panics, instead of giving the rest of the list.
\<close>

theorem paginate_spec:
  assumes "0 < limit" "limit \<le> max_int64" "0 \<le> offset" "int (length xs) \<le> max_int64"
  shows "paginate limit offset xs =
    (if min offset (int (length xs)) + limit \<le> max_int64
     then Some (take (nat limit) (drop (nat offset) xs)) else None)"
proof (cases "min offset (int (length xs)) + limit \<le> max_int64")
  case True
  with assms have "wrap64 (min offset (int (length xs)) + limit) = min offset (int (length xs)) + limit"
    by (intro wrap64_id) (simp add: in_int64_def min_int64_def)
  with True assms show ?thesis
    by (auto simp: paginate_def Let_def min_def nat_add_distrib split: if_splits)
next
  case False
  with assms have "wrap64 (min offset (int (length xs)) + limit) < 0" by (intro wrap64_over) auto
  with False assms show ?thesis by (auto simp: paginate_def Let_def min_def split: if_splits)
qed

theorem paginate_spec_witness:
  "paginate 2 1 [10, 20, 30, 40 :: int] = Some [20, 30] \<and>
   paginate (page_limit ''9223372036854775807'') (page_offset ''1'') [10, 20 :: int] = None"
proof -
  have l: "page_limit ''9223372036854775807'' = 9223372036854775807" "page_offset ''1'' = 1" by code_simp+
  have "paginate 2 1 [10, 20, 30, 40 :: int] = Some [20, 30]"
    using paginate_spec [of 2 1 "[10, 20, 30, 40 :: int]"] by (simp add: max_int64_def)
  moreover have "paginate 9223372036854775807 1 [10, 20 :: int] = None"
    using paginate_spec [of 9223372036854775807 1 "[10, 20 :: int]"] by (simp add: max_int64_def)
  ultimately show ?thesis unfolding l by simp
qed

section \<open>The three phases, over any store\<close>

definition is_started :: "v1_event \<Rightarrow> bool" where
  "is_started e \<longleftrightarrow> (case e of Started _ \<Rightarrow> True | Posted _ \<Rightarrow> False | LogCall _ _ _ \<Rightarrow> False)"

lemma is_started_simps [simp]: "is_started (Started a)" "\<not> is_started (Posted p)" "\<not> is_started (LogCall l m f)"
  by (simp_all add: is_started_def)

lemma no_start_posted [simp]: "filter is_started (map Posted ps) = []"
  by (induction ps) simp_all

lemma no_start_execute_log [simp]: "filter is_started (execute_log c x) = []"
  by (auto simp: execute_log_def split: option.split prod.split)

text \<open>The result of the third phase recorded in the store.\<close>

definition v1_record :: "string \<Rightarrow> ExecuteResult option \<Rightarrow> go_error option \<Rightarrow> ElevationRequest" where
  "v1_record i result err =
     (case err of
        Some e \<Rightarrow> zero_request\<lparr>ID := i, Status := ''failed'', Output := Some e, ReqExitCode := Some 1\<rparr>
      | None \<Rightarrow> zero_request\<lparr>ID := i, Status := ''completed'', Output := map_option Stdout result,
                  ReqExitCode := map_option ExitCode result\<rparr>)"

lemma v1_record_fields [simp]:
  "ID (v1_record i x e) = i" "ApprovedBy (v1_record i x e) = []" "ApprovedAt (v1_record i x e) = None"
  "Status (v1_record i x e) = (if e = None then ''completed'' else ''failed'')"
  by (auto simp: v1_record_def zero_request_def split: option.split)

lemma timely_v1_record: "timely (v1_record i x e)"
proof -
  have "in_years time_zero" by code_simp
  then show ?thesis by (simp add: timely_def v1_record_def zero_request_def split: option.split)
qed

lemma Execute_result: "Execute e run c = (a, x, None) \<Longrightarrow> \<exists>y. x = Some y"
  by (auto simp: Execute_def Let_def split: if_splits sum.splits option.splits)

lemma v1_execute_cases:
  assumes "v1_execute h env (i, q) s = (s', evs, resp)"
  obtains started result err where
    "Execute (v1_executor h) (run_process env) (Command q) = (started, result, err)"
    "s' = fst (Update (v1_store h) (v1_record i result err) s)"
    "filter is_started evs = (case started of None \<Rightarrow> [] | Some argv \<Rightarrow> [Started argv])"
    "resp_status resp = (if err = None then 200 else 500)"
proof -
  obtain started result err where x:
    "Execute (v1_executor h) (run_process env) (Command q) = (started, result, err)"
    by (cases "Execute (v1_executor h) (run_process env) (Command q)")
  show thesis
  proof (cases err)
    case None
    with Execute_result x obtain y where "result = Some y" by blast
    with assms x None show ?thesis
      by (intro that [OF x]) (auto simp: v1_execute_def v1_record_def split_beta Let_def split: option.splits)
  next
    case (Some e)
    with assms x show ?thesis
      by (intro that [OF x])
        (auto simp: v1_execute_def v1_record_def split_beta Let_def status_defs split: option.splits)
  qed
qed

lemma v1_execute_starts:
  assumes "v1_execute h env (i, q) s = (s', evs, resp)"
  shows "length (filter is_started evs) \<le> 1"
    "Started argv \<in> set evs \<Longrightarrow> IsAllowed (v1_executor h) (Command q) \<and> tokenizeCommand (Command q) = Inr argv"
proof -
  obtain started result err where x:
    "Execute (v1_executor h) (run_process env) (Command q) = (started, result, err)"
    "filter is_started evs = (case started of None \<Rightarrow> [] | Some argv \<Rightarrow> [Started argv])"
    by (rule v1_execute_cases [OF assms])
  show "length (filter is_started evs) \<le> 1" by (simp add: x(2) split: option.split)
  assume "Started argv \<in> set evs"
  then have "Started argv \<in> set (filter is_started evs)" by simp
  then have "started = Some argv" unfolding x(2) by (simp split: option.splits)
  with x(1) show "IsAllowed (v1_executor h) (Command q) \<and> tokenizeCommand (Command q) = Inr argv"
    using Execute_started by blast
qed

text \<open>The second phase posts at most, and hands over only after a successful compare-and-set.\<close>

lemma v1_decide_no_start: "v1_decide h env clk c s = (s', evs, v) \<Longrightarrow> filter is_started evs = []"
  by (cases c) (auto simp: v1_decide_def split: if_splits prod.splits sum.splits)

lemma v1_decide_granted:
  assumes "v1_decide h env clk (i, ap, q, b) s = (s', evs, Inr a)"
  shows "ap" "a = (i, q)" "db_UserID b \<noteq> []" "db_BiometricToken b \<noteq> []"
    "UpdateStateIf (v1_store h) (clk_from 1 clk) i ''pending'' ''approved'' (db_UserID b) s = (s', Inr True)"
  using assms by (auto simp: v1_decide_def split: if_splits prod.splits sum.splits)

context request_store
begin

lemma v1_check_ok:
  assumes "v1_store h = st" "ok s" "in_years (clk 1)" "in_years (clk 2)" "v1_check h env clk r s = (s', v)"
  shows "ok s'" "\<forall>x. v = Inr x \<longrightarrow> lookup s' = lookup s"
    "lookup s' i = lookup s i \<or> (\<exists>r'. lookup s' i = Some r' \<and> Status r' = ''expired'')"
proof -
  let ?i = "splitPath (drop (length v1_prefix) (URLPath r)) ! 0"
  obtain s1 q where g: "Get st ?i s = (s1, q)" by fastforce
  note l = get [OF assms(2) g]
  obtain s2 b where u: "UpdateStateIf st (clk_from 1 clk) ?i ''pending'' ''expired'' [] s1 = (s2, b)" by fastforce
  have years: "in_years (clk_from 1 clk 0)" "in_years (clk_from 1 clk 1)"
    using assms(3,4) by (simp_all add: numeral_2_eq_2)
  have "s' = s \<or> s' = s1 \<or> s' = s2 \<and> (\<forall>x. v \<noteq> Inr x)"
    using assms(1,5) g u by (auto simp: v1_check_def Let_def split: if_splits sum.splits option.splits prod.splits)
  moreover have "ok s2" "lookup s2 i = lookup s i \<or> (\<exists>r'. lookup s2 i = Some r' \<and> Status r' = ''expired'')"
    using cas [OF _ years u] l by auto
  ultimately show "ok s'" "\<forall>x. v = Inr x \<longrightarrow> lookup s' = lookup s"
    "lookup s' i = lookup s i \<or> (\<exists>r'. lookup s' i = Some r' \<and> Status r' = ''expired'')"
    using assms(2) l by auto
qed

lemma v1_check_passed:
  assumes "v1_store h = st" "ok s" "v1_check h env clk r s = (s', Inr (i, ap, q, b))"
  shows "lookup s i = Some q" "Status q = ''pending''" "clk 0 \<le> ExpiresAt q"
    "\<exists>rest. splitPath (drop (length v1_prefix) (URLPath r)) = i # (if ap then ''approve'' else ''deny'') # rest"
    "b = (case decode_v1_decision env (ReqBody r) of
            (b, None) \<Rightarrow> b | (b, Some _) \<Rightarrow> b\<lparr>db_UserID := Header r ''X-User-ID''\<rparr>)"
proof -
  let ?p = "splitPath (drop (length v1_prefix) (URLPath r))"
  obtain s1 x where g: "Get st (?p ! 0) s = (s1, x)" by fastforce
  note l = get [OF assms(2) g]
  have len: "\<not> length ?p < 2" and act: "?p ! 1 = ''approve'' \<or> ?p ! 1 = ''deny''"
    and i: "i = ?p ! 0" and ap: "ap = (?p ! 1 = ''approve'')" and x: "x = Inr (Some q)"
    and st: "Status q = ''pending''" "\<not> time_after (clk 0) (ExpiresAt q)"
    and b: "b = (case decode_v1_decision env (ReqBody r) of
            (b, None) \<Rightarrow> b | (b, Some _) \<Rightarrow> b\<lparr>db_UserID := Header r ''X-User-ID''\<rparr>)"
    using assms(1,3) g
    by (auto simp: v1_check_def Let_def split: if_splits sum.splits option.splits prod.splits)
  show "lookup s i = Some q" using l x i by simp
  show "Status q = ''pending''" "clk 0 \<le> ExpiresAt q" using st by (auto simp: time_after_def)
  from len obtain p0 p1 rest where "?p = p0 # p1 # rest"
    by (metis One_nat_def Suc_1 length_Cons less_Suc_eq_0_disj list.exhaust list.size(3) zero_less_Suc)
  with i ap act show "\<exists>rest. ?p = i # (if ap then ''approve'' else ''deny'') # rest" by auto
  show "b = (case decode_v1_decision env (ReqBody r) of
            (b, None) \<Rightarrow> b | (b, Some _) \<Rightarrow> b\<lparr>db_UserID := Header r ''X-User-ID''\<rparr>)" by (rule b)
qed

end

context request_store
begin

lemma v1_decide_ok:
  assumes "v1_store h = st" "ok s" "in_years (clk 1)" "in_years (clk 2)" "v1_decide h env clk (i, ap, q, b) s = (s', evs, v)"
  shows "ok s'" "j \<noteq> i \<Longrightarrow> lookup s' j = lookup s j"
    "v = Inr a \<Longrightarrow> is_pending (lookup s i) \<and> \<not> is_pending (lookup s' i)"
    "\<not> is_pending (lookup s i) \<Longrightarrow> lookup s' i = lookup s i"
    "is_pending (lookup s' i) \<Longrightarrow> lookup s' i = lookup s i"
proof -
  have years: "in_years (clk_from 1 clk 0)" "in_years (clk_from 1 clk 1)"
    using assms(3,4) by (simp_all add: numeral_2_eq_2)
  consider (refused) "s' = s" "\<forall>a. v \<noteq> Inr a"
    | (decided) new x where "new = ''approved'' \<or> new = ''denied''"
        "UpdateStateIf st (clk_from 1 clk) i ''pending'' new (db_UserID b) s = (s', x)"
        "\<forall>a. v = Inr a \<longrightarrow> x = Inr True"
    using assms(1,5) by (auto simp: v1_decide_def split: if_splits prod.splits sum.splits)
  then have "ok s' \<and> (j \<noteq> i \<longrightarrow> lookup s' j = lookup s j) \<and>
      (v = Inr a \<longrightarrow> is_pending (lookup s i) \<and> \<not> is_pending (lookup s' i)) \<and>
      (\<not> is_pending (lookup s i) \<longrightarrow> lookup s' i = lookup s i) \<and>
      (is_pending (lookup s' i) \<longrightarrow> lookup s' i = lookup s i)"
  proof cases
    case refused
    with assms(2) show ?thesis by (cases a) simp
  next
    case (decided new x)
    from cas [OF assms(2) years decided(2)]
    have "ok s'" and "x \<noteq> Inr True \<and> lookup s' = lookup s \<or>
        (\<exists>r r'. lookup s i = Some r \<and> lookup s' = (lookup s)(i \<mapsto> r') \<and> Status r = ''pending'' \<and> Status r' = new)"
      by blast+
    then show ?thesis
    proof (elim disjE exE conjE)
      assume "lookup s' = lookup s" "x \<noteq> Inr True"
      with \<open>ok s'\<close> decided(3) show ?thesis by (cases a) simp
    next
      fix r r' assume "lookup s i = Some r" "lookup s' = (lookup s)(i \<mapsto> r')" "Status r = ''pending''" "Status r' = new"
      with \<open>ok s'\<close> decided(1) show ?thesis by (auto simp: is_pending_def)
    qed
  qed
  then show "ok s'" "j \<noteq> i \<Longrightarrow> lookup s' j = lookup s j"
    "v = Inr a \<Longrightarrow> is_pending (lookup s i) \<and> \<not> is_pending (lookup s' i)"
    "\<not> is_pending (lookup s i) \<Longrightarrow> lookup s' i = lookup s i"
    "is_pending (lookup s' i) \<Longrightarrow> lookup s' i = lookup s i"
    by simp_all
qed

lemma v1_execute_ok:
  assumes "v1_store h = st" "ok s" "v1_execute h env (i, q) s = (s', evs, resp)"
  shows "ok s'" "j \<noteq> i \<Longrightarrow> lookup s' j = lookup s j"
    "\<not> is_pending (lookup s i) \<Longrightarrow> \<not> is_pending (lookup s' i)"
proof -
  obtain started x err where s': "s' = fst (Update st (v1_record i x err) s)"
    using v1_execute_cases [OF assms(3)] assms(1) by metis
  then obtain e where u: "Update st (v1_record i x err) s = (s', e)" by (metis prod.collapse)
  note l = update [OF assms(2) timely_v1_record u]
  show "ok s'" "j \<noteq> i \<Longrightarrow> lookup s' j = lookup s j" using l by simp_all
  show "\<not> is_pending (lookup s' i)" if "\<not> is_pending (lookup s i)"
  proof (cases e)
    case None
    have "Status r' \<noteq> ''pending''" if "lookup s' i = Some r'" for r'
      using l None that by auto
    then show ?thesis by (auto simp: is_pending_def)
  qed (use l that in simp)
qed

text \<open>The whole handler, its phases run one after the other.\<close>

lemma v1_approve_starts:
  assumes "v1_store h = st" "ok s" "in_years (clk 1)" "in_years (clk 2)"
    "v1_handleApproveOrDeny h env clk r s = (s', evs, resp)" "Started argv \<in> set evs"
  shows "\<exists>i rest q b s2 r2. splitPath (drop (length v1_prefix) (URLPath r)) = i # ''approve'' # rest \<and>
     lookup s i = Some q \<and> Status q = ''pending'' \<and> clk 0 \<le> ExpiresAt q \<and>
     b = (case decode_v1_decision env (ReqBody r) of
            (b, None) \<Rightarrow> b | (b, Some _) \<Rightarrow> b\<lparr>db_UserID := Header r ''X-User-ID''\<rparr>) \<and>
     db_UserID b \<noteq> [] \<and> db_BiometricToken b \<noteq> [] \<and>
     lookup s2 i = Some r2 \<and> Status r2 = ''approved'' \<and> same_subject q r2 \<and>
     v1_execute h env (i, q) s2 = (s', evs, resp) \<and>
     IsAllowed (v1_executor h) (Command q) \<and> tokenizeCommand (Command q) = Inr argv"
proof -
  obtain s1 v where c: "v1_check h env clk r s = (s1, v)" by fastforce
  obtain x where x: "v = Inr x" using assms(5,6) c by (cases v) (auto simp: v1_handleApproveOrDeny_def)
  obtain i ap q b where xt: "x = (i, ap, q, b)" by (cases x)
  note chk = v1_check_passed [OF assms(1,2) c [unfolded x xt]]
  have ok1: "ok s1" and l1: "lookup s1 = lookup s"
    using v1_check_ok(1,2) [OF assms(1,2,3,4) c] x by blast+
  obtain s2 evs2 w where d: "v1_decide h env clk (i, ap, q, b) s1 = (s2, evs2, w)"
    by (metis prod_cases3)
  note nostart = v1_decide_no_start [OF d]
  have "Started argv \<notin> set evs2"
  proof
    assume "Started argv \<in> set evs2"
    then have "Started argv \<in> set (filter is_started evs2)" by simp
    with nostart show False by simp
  qed
  then obtain a where a: "w = Inr a" using assms(5,6) c x xt d
    by (cases w) (auto simp: v1_handleApproveOrDeny_def)
  note dec = v1_decide_granted [OF d [unfolded a]]
  obtain s3 evs3 resp3 where e: "v1_execute h env (i, q) s2 = (s3, evs3, resp3)" by (metis prod_cases3)
  have evs2: "evs2 = []" using d a by (auto simp: v1_decide_def split: if_splits prod.splits sum.splits)
  have fin: "s' = s3" "evs = evs3" "resp = resp3"
    using assms(5) c x xt d a dec(2) e evs2 by (auto simp: v1_handleApproveOrDeny_def)
  have "in_years (clk_from 1 clk 0)" "in_years (clk_from 1 clk 1)"
    using assms(3,4) by (simp_all add: numeral_2_eq_2)
  from cas [OF ok1 this dec(5) [unfolded assms(1)]] l1 chk(1)
  obtain r2 where "lookup s2 i = Some r2" "Status r2 = ''approved''" "same_subject q r2" by auto
  moreover have "IsAllowed (v1_executor h) (Command q) \<and> tokenizeCommand (Command q) = Inr argv"
    using v1_execute_starts(2) [OF e] assms(6) fin(2) by blast
  ultimately show ?thesis using chk dec(1,3,4) e fin by fastforce
qed

end

section \<open>Properties of the handler\<close>

text \<open>
  C4: a process is started by an approval only after everything else: on the SQLite store, if
  the handler of \<open>approve\<close> and \<open>deny\<close> starts an argument vector, the path named an
  approval, the request was stored, pending and not past its expiry, the body carried a user
  and a token, the row was moved to approved with its subject unchanged before the start, and
  the argument vector is the tokenized command of the stored request, allowed by the executor.
\<close>

theorem v1_starts_only_approved:
  assumes "v1_store h = sqlite_store" "sqlite_ok s" "in_years (clk 1)" "in_years (clk 2)"
    "v1_handleApproveOrDeny h env clk r s = (s', evs, resp)" "Started argv \<in> set evs"
  shows "\<exists>i rest q b s2 r2. splitPath (drop (length v1_prefix) (URLPath r)) = i # ''approve'' # rest \<and>
     sqlite_lookup s i = Some q \<and> Status q = ''pending'' \<and> clk 0 \<le> ExpiresAt q \<and>
     b = (case decode_v1_decision env (ReqBody r) of
            (b, None) \<Rightarrow> b | (b, Some _) \<Rightarrow> b\<lparr>db_UserID := Header r ''X-User-ID''\<rparr>) \<and>
     db_UserID b \<noteq> [] \<and> db_BiometricToken b \<noteq> [] \<and>
     sqlite_lookup s2 i = Some r2 \<and> Status r2 = ''approved'' \<and> same_subject q r2 \<and>
     v1_execute h env (i, q) s2 = (s', evs, resp) \<and>
     IsAllowed (v1_executor h) (Command q) \<and> tokenizeCommand (Command q) = Inr argv"
  by (rule sqlite.v1_approve_starts [OF assms])

text \<open>A handler whose allowlist admits the sample request, and a machine on which it succeeds.\<close>

definition sample_v1 :: "SQLiteRequestStore V1Handler" where
  "sample_v1 = NewV1Handler sqlite_store (NewExecutor [''apt install *''] 0)
     (NewOpenClawNotifier ''http://claw'') [''apt install *''] True"

definition sample_v1_env :: v1_env where
  "sample_v1_env = \<lparr>decode_v1_create = (\<lambda>b. Inr \<lparr>vb_Command = b, vb_Reason = ''r'', vb_RequestedBy = [], vb_TelegramUserId = 7\<rparr>),
     decode_v1_decision = (\<lambda>b. (\<lparr>db_BiometricToken = b, db_UserID = ''tg:9'', db_Reason = []\<rparr>, None)),
     hostname = Inr ''host'', v1_uuid = ''r2'',
     run_process = (\<lambda>p args limit. \<lparr>proc_stdout = ''ok'', proc_stderr = [], proc_error = None, proc_millis = 3\<rparr>),
     openclaw = \<lparr>bad_url = (\<lambda>_. None), http_do = (\<lambda>_. Inr 200)\<rparr>\<rparr>"

definition sample_approve :: http_request where
  "sample_approve = \<lparr>Method = ''POST'', URLPath = ''/api/v1/request/r1/approve'', Header = (\<lambda>_. []),
     QueryGet = (\<lambda>_. []), RemoteAddr = ''127.0.0.1:1'', ReqBody = ''face''\<rparr>"

definition sample_v1_clk :: clock where
  "sample_v1_clk = (\<lambda>i. 1700000100000000000 + int i)"

lemma sample_v1_years: "in_years (sample_v1_clk 1)" "in_years (sample_v1_clk 2)"
  by code_simp+

definition sample_v1_run :: "SQLiteRequestStore \<times> v1_event list \<times> http_response" where
  "sample_v1_run = v1_handleApproveOrDeny sample_v1 sample_v1_env sample_v1_clk sample_approve sample_db"

lemma sample_v1_starts: "Started [''apt'', ''install'', ''curl''] \<in> set (fst (snd sample_v1_run))"
  by code_simp

theorem v1_starts_only_approved_witness:
  "\<exists>q. sqlite_lookup sample_db ''r1'' = Some q \<and> Status q = ''pending'' \<and> IsAllowed (v1_executor sample_v1) (Command q) \<and>
     tokenizeCommand (Command q) = Inr [''apt'', ''install'', ''curl'']"
proof -
  obtain s' evs resp where run:
    "v1_handleApproveOrDeny sample_v1 sample_v1_env sample_v1_clk sample_approve sample_db = (s', evs, resp)"
    by (metis prod_cases3)
  then have "evs = fst (snd sample_v1_run)" by (simp add: sample_v1_run_def)
  then have st: "Started [''apt'', ''install'', ''curl''] \<in> set evs" using sample_v1_starts by simp
  have h: "v1_store sample_v1 = sqlite_store" by (simp add: sample_v1_def NewV1Handler_def)
  have p: "splitPath (drop (length v1_prefix) (URLPath sample_approve)) = [''r1'', ''approve'']" by code_simp
  from v1_starts_only_approved [OF h sample_db_ok sample_v1_years run st] show ?thesis
    unfolding p by auto
qed

text \<open>
  The value of the biometric token plays no role in this interface: two approvals whose
  tokens are not empty have the same outcome, whatever the tokens are. The comment at the
  check says that a verification is still to be implemented.
\<close>

theorem v1_token_value_ignored:
  assumes "t \<noteq> []" "t' \<noteq> []"
  shows "v1_decide h env clk (i, True, q, b\<lparr>db_BiometricToken := t\<rparr>) s =
     v1_decide h env clk (i, True, q, b\<lparr>db_BiometricToken := t'\<rparr>) s"
  using assms by (simp add: v1_decide_def)

theorem v1_token_value_ignored_witness:
  "v1_decide sample_v1 sample_v1_env sample_v1_clk
     (''r1'', True, sample_request, \<lparr>db_BiometricToken = ''face'', db_UserID = ''tg:9'', db_Reason = []\<rparr>) sample_db =
   v1_decide sample_v1 sample_v1_env sample_v1_clk
     (''r1'', True, sample_request, \<lparr>db_BiometricToken = ''guess'', db_UserID = ''tg:9'', db_Reason = []\<rparr>) sample_db"
  using v1_token_value_ignored [of "''face''" "''guess''" sample_v1 sample_v1_env sample_v1_clk "''r1''" sample_request
    "\<lparr>db_BiometricToken = ''face'', db_UserID = ''tg:9'', db_Reason = []\<rparr>" sample_db] by simp

text \<open>
  C29: recording the result of an execution erases who approved it: when the third phase
  changes the state of the stored request, the new state is completed or failed, and the
  approver and the time of the approval are gone, because the handler writes a request that
  carries neither.
\<close>

theorem v1_execution_erases_approver:
  assumes "v1_store h = sqlite_store" "sqlite_ok s" "v1_execute h env (i, q) s = (s', evs, resp)"
    "sqlite_lookup s i = Some r" "sqlite_lookup s' i = Some r'" "Status r' \<noteq> Status r"
  shows "Status r' \<in> {''completed'', ''failed''} \<and> ApprovedBy r' = [] \<and> ApprovedAt r' = None"
proof -
  obtain started x err where "s' = fst (sqlite_Update (v1_record i x err) s)"
    using v1_execute_cases [OF assms(3)] assms(1) by (metis RequestStore.select_convs(3) sqlite_store_def)
  then obtain e where u: "sqlite_Update (v1_record i x err) s = (s', e)" by (metis prod.collapse)
  from assms(2) timely_v1_record u show ?thesis
  proof (cases rule: sqlite_update)
    case (match y y')
    have r': "r' = request_of y'" using match(8) assms(5) by simp
    have "c_approved_at y' = None" by (simp add: match(6))
    then have "ApprovedAt (request_of y') = None"
      using match(4) by (auto simp: request_of_def scanSQLiteRequest_def row_ok_def zero_request_def Let_def
          split: option.splits)
    moreover have "Status (request_of y') = Status (v1_record i x err)" "ApprovedBy (request_of y') = []"
      using scan_row_ok(3,8) [OF match(4)] by (simp_all add: match(6))
    ultimately show ?thesis by (simp add: r')
  qed (use assms(4-6) in auto)
qed

definition sample_granted_db :: SQLiteRequestStore where
  "sample_granted_db = fst (sqlite_UpdateStateIf sample_v1_clk ''r1'' ''pending'' ''approved'' ''tg:9'' sample_db)"

theorem v1_execution_erases_approver_witness:
  "map_option ApprovedBy (sqlite_lookup sample_granted_db ''r1'') = Some ''tg:9'' \<and>
   (\<exists>r'. sqlite_lookup (fst (v1_execute sample_v1 sample_v1_env (''r1'', sample_request) sample_granted_db)) ''r1'' = Some r' \<and>
      Status r' = ''completed'' \<and> ApprovedBy r' = [])"
proof -
  let ?x = "v1_execute sample_v1 sample_v1_env (''r1'', sample_request) sample_granted_db"
  have h: "v1_store sample_v1 = sqlite_store" by (simp add: sample_v1_def NewV1Handler_def)
  have "in_years (sample_v1_clk 0)" by code_simp
  then have ok: "sqlite_ok sample_granted_db"
    using sqlite.cas [where clk = sample_v1_clk and s = sample_db, OF sample_db_ok _ sample_v1_years(1) prod.collapse [symmetric]]
    unfolding sample_granted_db_def by (simp add: sqlite_store_def)
  obtain s' evs resp where x: "?x = (s', evs, resp)" by (metis prod_cases3)
  have a: "map_option ApprovedBy (sqlite_lookup sample_granted_db ''r1'') = Some ''tg:9''"
    "map_option Status (sqlite_lookup sample_granted_db ''r1'') = Some ''approved''" by code_simp+
  then obtain r where r: "sqlite_lookup sample_granted_db ''r1'' = Some r" "Status r = ''approved''" by auto
  have "map_option Status (sqlite_lookup (fst ?x) ''r1'') = Some ''completed''" by code_simp
  then obtain r' where r': "sqlite_lookup s' ''r1'' = Some r'" "Status r' = ''completed''" by (auto simp: x)
  then have "Status r' \<noteq> Status r" using r by simp
  from v1_execution_erases_approver [OF h ok x r(1) r'(1) this] a r' show ?thesis by (simp add: x)
qed

end
