(* ===== verification/V1Threads.thy ===== *)
theory V1Threads
  imports ApiV1
begin

text \<open>
  The v1 interface under load: every HTTP request is served by a goroutine of its own, and
  the goroutines share the store. A goroutine of \<open>handleApproveOrDeny\<close> goes through the
  three phases of the handler, a step each, and any call on the store by the rest of the
  program (the other handlers, the PAM handler, the hourly cleanup) is a step too. The
  steps of all goroutines interleave freely.
\<close>

section \<open>Goroutines and their steps\<close>

datatype v1_phase =
    Arrived http_request
  | Checked v1_checked
  | Granted string ElevationRequest
  | Answered http_response

record 's v1_system =
  sys_store :: 's
  sys_threads :: "v1_phase list"
  sys_started :: "(string \<times> string list) list" \<comment> \<open>request and argument vector, in order\<close>

definition starts_of :: "string \<Rightarrow> v1_event list \<Rightarrow> (string \<times> string list) list" where
  "starts_of i evs = concat (map (\<lambda>e. case e of Started argv \<Rightarrow> [(i, argv)] | Posted _ \<Rightarrow> [] | LogCall _ _ _ \<Rightarrow> []) evs)"

text \<open>
  One step. The parameter \<open>i\<close> is the request whose history is followed: the other
  components neither create it a second time nor set it back to pending (\<open>call_ok\<close>),
  because identifiers are fresh and no caller of \<open>Update\<close> writes the state pending.
\<close>

inductive v1_step :: "'s V1Handler \<Rightarrow> v1_env \<Rightarrow> string \<Rightarrow> 's v1_system \<Rightarrow> 's v1_system \<Rightarrow> bool"
  for h env i where
  arrive: "v1_step h env i S (S\<lparr>sys_threads := sys_threads S @ [Arrived r]\<rparr>)"
| check: "t < length (sys_threads S) \<Longrightarrow> sys_threads S ! t = Arrived r \<Longrightarrow> in_years (clk 1) \<Longrightarrow> in_years (clk 2) \<Longrightarrow>
    v1_check h env clk r (sys_store S) = (s', v) \<Longrightarrow>
    v1_step h env i S (S\<lparr>sys_store := s',
      sys_threads := (sys_threads S)[t := (case v of Inl resp \<Rightarrow> Answered resp | Inr c \<Rightarrow> Checked c)]\<rparr>)"
| decide: "t < length (sys_threads S) \<Longrightarrow> sys_threads S ! t = Checked c \<Longrightarrow> in_years (clk 1) \<Longrightarrow> in_years (clk 2) \<Longrightarrow>
    v1_decide h env clk c (sys_store S) = (s', evs, v) \<Longrightarrow>
    v1_step h env i S (S\<lparr>sys_store := s',
      sys_threads := (sys_threads S)[t := (case v of Inl resp \<Rightarrow> Answered resp | Inr (j, q) \<Rightarrow> Granted j q)]\<rparr>)"
| execute: "t < length (sys_threads S) \<Longrightarrow> sys_threads S ! t = Granted j q \<Longrightarrow>
    v1_execute h env (j, q) (sys_store S) = (s', evs, resp) \<Longrightarrow>
    v1_step h env i S (S\<lparr>sys_store := s', sys_threads := (sys_threads S)[t := Answered resp],
      sys_started := sys_started S @ starts_of j evs\<rparr>)"
| other: "call_ok i (clk, c) \<Longrightarrow>
    v1_step h env i S (S\<lparr>sys_store := fst (do_call (v1_store h) clk c (sys_store S))\<rparr>)"

abbreviation v1_steps :: "'s V1Handler \<Rightarrow> v1_env \<Rightarrow> string \<Rightarrow> 's v1_system \<Rightarrow> 's v1_system \<Rightarrow> bool" where
  "v1_steps h env i \<equiv> (v1_step h env i)\<^sup>*\<^sup>*"

definition v1_initial :: "'s \<Rightarrow> 's v1_system" where
  "v1_initial s = \<lparr>sys_store = s, sys_threads = [], sys_started = []\<rparr>"

section \<open>The invariant\<close>

text \<open>
  The right to start a process for a request is held by the goroutines that were granted it
  and spent by the processes started. Every right ever given is counted.
\<close>

definition holds_grant :: "string \<Rightarrow> v1_phase \<Rightarrow> bool" where
  "holds_grant i p \<longleftrightarrow> (\<exists>q. p = Granted i q)"

definition rights :: "string \<Rightarrow> 's v1_system \<Rightarrow> nat" where
  "rights i S = length (filter (holds_grant i) (sys_threads S)) +
     length (filter (\<lambda>x. fst x = i) (sys_started S))"

lemma holds_grant_simps [simp]:
  "holds_grant i (Granted j q) \<longleftrightarrow> j = i" "\<not> holds_grant i (Arrived r)" "\<not> holds_grant i (Checked c)"
  "\<not> holds_grant i (Answered resp)"
  by (auto simp: holds_grant_def)

lemma length_starts_of: "length (starts_of i evs) = length (filter is_started evs)"
  by (induction evs) (auto simp: starts_of_def is_started_def split: v1_event.split)

lemma starts_of_request: "x \<in> set (starts_of j evs) \<Longrightarrow> fst x = j"
  by (auto simp: starts_of_def split: v1_event.splits)

lemma starts_of_filter: "filter (\<lambda>x. fst x = i) (starts_of j evs) = (if i = j then starts_of j evs else [])"
  by (auto simp: filter_id_conv filter_empty_conv dest: starts_of_request)

lemma rights_thread:
  "t < length (sys_threads S) \<Longrightarrow>
     rights i (S\<lparr>sys_store := s', sys_threads := (sys_threads S)[t := p]\<rparr>) + (if holds_grant i (sys_threads S ! t) then 1 else 0) =
     rights i S + (if holds_grant i p then 1 else 0)"
  using count_list_update [of t "sys_threads S" "holds_grant i" p] by (simp add: rights_def)

locale v1_service = request_store +
  fixes h :: "'a V1Handler" and env :: v1_env and i :: string
  assumes serves: "v1_store h = st"
begin

definition safe :: "'a v1_system \<Rightarrow> bool" where
  "safe S \<longleftrightarrow> ok (sys_store S) \<and> rights i S \<le> 1 \<and> (rights i S = 1 \<longrightarrow> \<not> is_pending (lookup (sys_store S) i))"

lemma safe_initial: "ok s \<Longrightarrow> safe (v1_initial s)"
  by (simp add: safe_def v1_initial_def rights_def)

lemma safe_step: "v1_step h env i S S' \<Longrightarrow> safe S \<Longrightarrow> safe S'"
proof (induction rule: v1_step.induct)
  case (arrive S r)
  then show ?case by (simp add: safe_def rights_def)
next
  case (check t S r clk s' v)
  note c = v1_check_ok [OF serves _ check.hyps(3-5)]
  have "\<not> holds_grant i (case v of Inl resp \<Rightarrow> Answered resp | Inr c \<Rightarrow> Checked c)"
    by (simp split: sum.split)
  then have "rights i (S\<lparr>sys_store := s', sys_threads := (sys_threads S)
      [t := (case v of Inl resp \<Rightarrow> Answered resp | Inr c \<Rightarrow> Checked c)]\<rparr>) = rights i S"
    using rights_thread [OF check.hyps(1), where i = i and s' = s'] check.hyps(2) by simp
  moreover have "\<not> is_pending (lookup s' i)" if "\<not> is_pending (lookup (sys_store S) i)"
    using c(3) [of i] check.prems that by (auto simp: safe_def is_pending_def)
  ultimately show ?case using c(1) check.prems by (auto simp: safe_def)
next
  case (decide t S c clk s' evs v)
  obtain j ap q b where ct: "c = (j, ap, q, b)" by (cases c)
  have ok: "ok (sys_store S)" using decide.prems by (simp add: safe_def)
  note d = v1_decide_ok [OF serves ok decide.hyps(3-4) decide.hyps(5) [unfolded ct]]
  let ?p = "case v of Inl resp \<Rightarrow> Answered resp | Inr (j, q) \<Rightarrow> Granted j q"
  have g: "rights i (S\<lparr>sys_store := s', sys_threads := (sys_threads S)[t := ?p]\<rparr>) =
      rights i S + (if holds_grant i ?p then 1 else 0)"
    using rights_thread [OF decide.hyps(1), where i = i and s' = s'] decide.hyps(2) by simp
  show ?case
  proof (cases "holds_grant i ?p")
    case True
    then obtain q' where v: "v = Inr (i, q')" by (cases v) (auto split: prod.splits)
    then have "j = i" using v1_decide_granted(2) [of h env clk j ap q b "sys_store S" s' evs "(i, q')"] decide.hyps(5) ct
      by simp
    then have "is_pending (lookup (sys_store S) i)" "\<not> is_pending (lookup s' i)" using d(3) [OF v] by simp_all
    moreover have "rights i S = 0" using decide.prems calculation(1) by (auto simp: safe_def)
    ultimately show ?thesis using d(1) g True by (simp add: safe_def)
  next
    case False
    have "\<not> is_pending (lookup s' i)" if "\<not> is_pending (lookup (sys_store S) i)"
      using d(2) [of i] d(4) that by (cases "i = j") auto
    then show ?thesis using d(1) g False decide.prems by (auto simp: safe_def)
  qed
next
  case (execute t S j q s' evs resp)
  have ok: "ok (sys_store S)" using execute.prems by (simp add: safe_def)
  note e = v1_execute_ok [OF serves ok execute.hyps(3)]
  let ?S = "S\<lparr>sys_store := s', sys_threads := (sys_threads S)[t := Answered resp]\<rparr>"
  have "rights i ?S + (if j = i then 1 else 0) = rights i S"
    using rights_thread [OF execute.hyps(1), where i = i and s' = s' and p = "Answered resp"] execute.hyps(2) by simp
  moreover have "rights i (?S\<lparr>sys_started := sys_started S @ starts_of j evs\<rparr>) =
      rights i ?S + (if i = j then length (starts_of j evs) else 0)"
    by (simp add: rights_def starts_of_filter)
  moreover have "length (starts_of j evs) \<le> 1"
    using v1_execute_starts(1) [OF execute.hyps(3)] by (simp add: length_starts_of)
  ultimately have le: "rights i (?S\<lparr>sys_started := sys_started S @ starts_of j evs\<rparr>) \<le> rights i S"
    by (auto split: if_splits)
  have "\<not> is_pending (lookup s' i)" if "\<not> is_pending (lookup (sys_store S) i)"
    using e(2) [of i] e(3) that by (cases "i = j") auto
  then show ?case using le e(1) execute.prems by (auto simp: safe_def)
next
  case (other clk c S)
  have ok: "ok (sys_store S)" using other.prems by (simp add: safe_def)
  have "rights i (S\<lparr>sys_store := fst (do_call (v1_store h) clk c (sys_store S))\<rparr>) = rights i S"
    by (simp add: rights_def)
  then show ?case
    using do_call_ok [OF ok other.hyps] do_call_settled(1) [OF ok other.hyps] other.prems
    by (auto simp: safe_def serves)
qed

lemma safe_steps: "v1_steps h env i S S' \<Longrightarrow> safe S \<Longrightarrow> safe S'"
  by (induction rule: rtranclp_induct) (auto dest: safe_step)

text \<open>Whatever a process runs was the command of a pending request, allowed by the executor.\<close>

definition lawful :: "'a v1_system \<Rightarrow> bool" where
  "lawful S \<longleftrightarrow> (\<forall>x \<in> set (sys_started S). \<exists>c. IsAllowed (v1_executor h) c \<and> tokenizeCommand c = Inr (snd x))"

lemma lawful_step: "v1_step h env i S S' \<Longrightarrow> lawful S \<Longrightarrow> lawful S'"
proof (induction rule: v1_step.induct)
  case (execute t S j q s' evs resp)
  have "\<exists>c. IsAllowed (v1_executor h) c \<and> tokenizeCommand c = Inr (snd x)" if "x \<in> set (starts_of j evs)" for x
  proof -
    from that obtain argv where "Started argv \<in> set evs" "x = (j, argv)"
      by (auto simp: starts_of_def split: v1_event.splits)
    with v1_execute_starts(2) [OF execute.hyps(3)] show ?thesis by auto
  qed
  then show ?case using execute.prems by (auto simp: lawful_def)
qed (simp_all add: lawful_def)

lemma lawful_steps: "v1_steps h env i S S' \<Longrightarrow> lawful S \<Longrightarrow> lawful S'"
  by (induction rule: rtranclp_induct) (auto dest: lawful_step)

end

interpretation v1_sqlite: v1_service sqlite_store sqlite_lookup sqlite_ok
  "NewV1Handler sqlite_store ex notifier allowlist needReason" env i
  for ex notifier allowlist needReason env i
  by unfold_locales (simp add: NewV1Handler_def)

section \<open>Runs\<close>

text \<open>
  The next step of goroutine \<open>t\<close> as a function, so that schedules can be executed: the
  goroutine does what its phase prescribes.
\<close>

definition v1_advance ::
  "'s V1Handler \<Rightarrow> v1_env \<Rightarrow> clock \<Rightarrow> nat \<Rightarrow> 's v1_system \<Rightarrow> 's v1_system" where
  "v1_advance h env clk t S =
     (case sys_threads S ! t of
        Arrived r \<Rightarrow>
          (let (s', v) = v1_check h env clk r (sys_store S)
           in S\<lparr>sys_store := s',
                sys_threads := (sys_threads S)[t := (case v of Inl resp \<Rightarrow> Answered resp | Inr c \<Rightarrow> Checked c)]\<rparr>)
      | Checked c \<Rightarrow>
          (let (s', evs, v) = v1_decide h env clk c (sys_store S)
           in S\<lparr>sys_store := s',
                sys_threads := (sys_threads S)
                  [t := (case v of Inl resp \<Rightarrow> Answered resp | Inr (j, q) \<Rightarrow> Granted j q)]\<rparr>)
      | Granted j q \<Rightarrow>
          (let (s', evs, resp) = v1_execute h env (j, q) (sys_store S)
           in S\<lparr>sys_store := s', sys_threads := (sys_threads S)[t := Answered resp],
                sys_started := sys_started S @ starts_of j evs\<rparr>)
      | Answered resp \<Rightarrow> S)"

lemma v1_advance_steps:
  assumes "t < length (sys_threads S)" "in_years (clk 1)" "in_years (clk 2)"
  shows "v1_steps h env i S (v1_advance h env clk t S)"
proof (cases "sys_threads S ! t")
  case (Arrived r)
  obtain s' v where "v1_check h env clk r (sys_store S) = (s', v)" by fastforce
  with v1_step.check [OF assms(1) Arrived assms(2,3) this] Arrived show ?thesis
    by (simp add: v1_advance_def r_into_rtranclp)
next
  case (Checked c)
  obtain s' evs v where "v1_decide h env clk c (sys_store S) = (s', evs, v)" by (metis prod_cases3)
  with v1_step.decide [OF assms(1) Checked assms(2,3) this] Checked show ?thesis
    by (simp add: v1_advance_def r_into_rtranclp)
next
  case (Granted j q)
  obtain s' evs resp where "v1_execute h env (j, q) (sys_store S) = (s', evs, resp)" by (metis prod_cases3)
  with v1_step.execute [OF assms(1) Granted this] Granted show ?thesis
    by (simp add: v1_advance_def r_into_rtranclp)
qed (simp add: v1_advance_def)

lemma length_v1_advance [simp]: "length (sys_threads (v1_advance h env clk t S)) = length (sys_threads S)"
  by (simp add: v1_advance_def split_beta Let_def split: v1_phase.split)

definition v1_arrive :: "http_request list \<Rightarrow> 's v1_system \<Rightarrow> 's v1_system" where
  "v1_arrive rs S = S\<lparr>sys_threads := sys_threads S @ map Arrived rs\<rparr>"

lemma v1_arrive_steps: "v1_steps h env i S (v1_arrive rs S)"
proof (induction rs rule: rev_induct)
  case (snoc r rs)
  have "v1_arrive (rs @ [r]) S = (v1_arrive rs S)\<lparr>sys_threads := sys_threads (v1_arrive rs S) @ [Arrived r]\<rparr>"
    by (simp add: v1_arrive_def)
  with snoc v1_step.arrive [of h env i "v1_arrive rs S" r] show ?case by simp
qed (simp add: v1_arrive_def)

text \<open>A schedule is a list of goroutine numbers.\<close>

definition v1_schedule ::
  "'s V1Handler \<Rightarrow> v1_env \<Rightarrow> clock \<Rightarrow> nat list \<Rightarrow> 's v1_system \<Rightarrow> 's v1_system" where
  "v1_schedule h env clk ts S = fold (v1_advance h env clk) ts S"

lemma v1_schedule_steps:
  "\<forall>t \<in> set ts. t < length (sys_threads S) \<Longrightarrow> in_years (clk 1) \<Longrightarrow> in_years (clk 2) \<Longrightarrow>
     v1_steps h env i S (v1_schedule h env clk ts S)"
proof (induction ts arbitrary: S)
  case (Cons t ts)
  then have "v1_steps h env i S (v1_advance h env clk t S)" by (simp add: v1_advance_steps)
  moreover have "v1_steps h env i (v1_advance h env clk t S) (v1_schedule h env clk ts (v1_advance h env clk t S))"
    using Cons by simp
  ultimately show ?case by (simp add: v1_schedule_def)
qed (simp add: v1_schedule_def)

section \<open>Properties\<close>

text \<open>
  C1: no request is executed twice. However many approvals of the same request are served at
  the same time, however their phases and the calls of the other components on the SQLite
  store interleave, and whatever statements fail, at most one process is started for a
  request.
\<close>

theorem v1_at_most_one_start:
  assumes "v1_steps (NewV1Handler sqlite_store ex notifier allowlist needReason) env i (v1_initial db) S"
    "sqlite_ok db"
  shows "length (filter (\<lambda>x. fst x = i) (sys_started S)) \<le> 1"
proof -
  have "v1_sqlite.safe i S"
    using v1_sqlite.safe_steps [OF assms(1) v1_sqlite.safe_initial [OF assms(2)]] .
  then show ?thesis by (simp add: v1_sqlite.safe_def rights_def)
qed

text \<open>Two goroutines approve the same request; both have passed the checks before either decides.\<close>

definition sample_double :: "SQLiteRequestStore v1_system" where
  "sample_double = v1_schedule sample_v1 sample_v1_env sample_v1_clk [0, 1, 1, 0, 1, 0]
     (v1_arrive [sample_approve, sample_approve] (v1_initial sample_db))"

lemma sample_double_steps: "v1_steps sample_v1 sample_v1_env i (v1_initial sample_db) sample_double"
proof -
  let ?S = "v1_arrive [sample_approve, sample_approve] (v1_initial sample_db)"
  have "\<forall>t \<in> set [0, 1, 1, 0, 1, 0]. t < length (sys_threads ?S)" by (simp add: v1_arrive_def v1_initial_def)
  from v1_arrive_steps v1_schedule_steps [OF this sample_v1_years] show ?thesis
    unfolding sample_double_def by (rule rtranclp_trans)
qed

theorem v1_at_most_one_start_witness:
  "sys_started sample_double = [(''r1'', [''apt'', ''install'', ''curl''])] \<and>
   length (filter (\<lambda>x. fst x = ''r1'') (sys_started sample_double)) \<le> 1"
proof -
  have "sys_started sample_double = [(''r1'', [''apt'', ''install'', ''curl''])]" by code_simp
  with v1_at_most_one_start [OF sample_double_steps [unfolded sample_v1_def] sample_db_ok] show ?thesis by blast
qed

text \<open>
  An invariant of the whole service: in every state it reaches, each process started so
  far ran the argument vector of a command that the executor's allowlist admits.
\<close>

theorem v1_started_lawful:
  assumes "v1_steps (NewV1Handler sqlite_store ex notifier allowlist needReason) env i (v1_initial db) S"
  shows "\<forall>x \<in> set (sys_started S). \<exists>c. IsAllowed ex c \<and> tokenizeCommand c = Inr (snd x)"
proof -
  have "v1_sqlite.lawful ex notifier allowlist needReason (v1_initial db)"
    by (simp add: v1_sqlite.lawful_def v1_initial_def)
  from v1_sqlite.lawful_steps [OF assms this] show ?thesis
    unfolding v1_sqlite.lawful_def by (simp add: NewV1Handler_def)
qed

theorem v1_started_lawful_witness:
  "\<exists>c. IsAllowed (NewExecutor [''apt install *''] 0) c \<and> tokenizeCommand c = Inr [''apt'', ''install'', ''curl'']"
proof -
  have "(''r1'', [''apt'', ''install'', ''curl'']) \<in> set (sys_started sample_double)" by code_simp
  with v1_started_lawful [OF sample_double_steps [unfolded sample_v1_def]] show ?thesis by fastforce
qed

lemma Execute_succeeds:
  "IsAllowed e c \<Longrightarrow> tokenizeCommand c = Inr argv \<Longrightarrow> argv \<noteq> [] \<Longrightarrow>
     \<forall>limit. proc_error (run (hd argv) (tl argv) limit) = None \<Longrightarrow>
     \<exists>x. Execute e run c = (Some argv, Some x, None)"
  by (simp add: Execute_def Let_def)

text \<open>
  C10: an approval goes through: on the SQLite store, when the request is pending, its expiry
  lies in a later second than the clock, the caller presents a user and a token, the
  executor admits the command, the process succeeds and no statement fails, the handler
  answers 200, the process has been started and the request is completed.
\<close>

theorem v1_approve_completes:
  assumes "v1_store h = sqlite_store" "sqlite_ok db" "sql_outcomes db = []" "in_years (clk 1)"
    "splitPath (drop (length v1_prefix) (URLPath r)) = i # ''approve'' # rest"
    "sqlite_lookup db i = Some q" "Status q = ''pending''" "clk 0 \<le> ExpiresAt q"
    "unix_seconds (clk 1) < unix_seconds (ExpiresAt q)"
    "decode_v1_decision env (ReqBody r) = (b, None)" "db_UserID b \<noteq> []" "db_BiometricToken b \<noteq> []"
    "IsAllowed (v1_executor h) (Command q)" "tokenizeCommand (Command q) = Inr argv" "argv \<noteq> []"
    "\<forall>limit. proc_error (run_process env (hd argv) (tl argv) limit) = None"
  shows "\<exists>db' evs resp r'. v1_handleApproveOrDeny h env clk r db = (db', evs, resp) \<and> resp_status resp = 200 \<and>
     Started argv \<in> set evs \<and> sqlite_lookup db' i = Some r' \<and> Status r' = ''completed''"
proof -
  have ops: "Get (v1_store h) = sqlite_Get" "UpdateStateIf (v1_store h) = sqlite_UpdateStateIf"
    "Update (v1_store h) = sqlite_Update" by (simp_all add: assms(1) sqlite_store_def)
  have chk: "v1_check h env clk r db = (db, Inr (i, True, q, b))"
    using assms(5-8,10) by (simp add: v1_check_def ops sqlite_get_succeeds [OF assms(2,3)] time_after_def)
  have y: "in_years (clk_from 1 clk 0)" using assms(4) by simp
  obtain db1 q1 where cas: "sqlite_UpdateStateIf (clk_from 1 clk) i ''pending'' ''approved'' (db_UserID b) db = (db1, Inr True)"
    "sql_outcomes db1 = []" "sqlite_ok db1" "sqlite_lookup db1 = (sqlite_lookup db)(i \<mapsto> q1)"
    by (rule sqlite_cas_succeeds [where clk = "clk_from 1 clk" and new = "''approved''", OF assms(2,3) y assms(6,7)])
      (use assms(9) in auto)
  have dec: "v1_decide h env clk (i, True, q, b) db = (db1, [], Inr (i, q))"
    using assms(11,12) cas(1) by (simp add: v1_decide_def ops)
  obtain x where ex: "Execute (v1_executor h) (run_process env) (Command q) = (Some argv, Some x, None)"
    using Execute_succeeds [where run = "run_process env", OF assms(13-16)] by blast
  obtain db2 evs resp where e: "v1_execute h env (i, q) db1 = (db2, evs, resp)" by (metis prod_cases3)
  have f: "db2 = fst (sqlite_Update (v1_record i (Some x) None) db1)" "filter is_started evs = [Started argv]"
    "resp_status resp = 200"
    by (rule v1_execute_cases [OF e]; simp add: ex ops)+
  have "sqlite_lookup db1 (ID (v1_record i (Some x) None)) = Some q1" by (simp add: cas(4))
  then obtain r' where "sqlite_lookup db2 = (sqlite_lookup db1)(i \<mapsto> r')" "Status r' = ''completed''"
    by (rule sqlite_update_succeeds [OF cas(3,2) timely_v1_record]) (simp add: f(1))
  moreover have "Started argv \<in> set (filter is_started evs)" unfolding f(2) by simp
  ultimately show ?thesis using f(3) by (auto simp: v1_handleApproveOrDeny_def chk dec e)
qed

theorem v1_approve_completes_witness:
  "\<exists>db' evs resp r'. v1_handleApproveOrDeny sample_v1 sample_v1_env sample_v1_clk sample_approve sample_db = (db', evs, resp) \<and>
     resp_status resp = 200 \<and> Started [''apt'', ''install'', ''curl''] \<in> set evs \<and>
     sqlite_lookup db' ''r1'' = Some r' \<and> Status r' = ''completed''"
proof -
  have h: "v1_store sample_v1 = sqlite_store" by (simp add: sample_v1_def NewV1Handler_def)
  have o: "sql_outcomes sample_db = []" by code_simp
  have p: "splitPath (drop (length v1_prefix) (URLPath sample_approve)) = [''r1'', ''approve'']" by code_simp
  have l: "sqlite_lookup sample_db ''r1'' = Some sample_request" by code_simp
  have q: "Status sample_request = ''pending''" "sample_v1_clk 0 \<le> ExpiresAt sample_request"
    "unix_seconds (sample_v1_clk 1) < unix_seconds (ExpiresAt sample_request)"
    "IsAllowed (v1_executor sample_v1) (Command sample_request)"
    "tokenizeCommand (Command sample_request) = Inr [''apt'', ''install'', ''curl'']" by code_simp+
  have d: "decode_v1_decision sample_v1_env (ReqBody sample_approve) =
      (\<lparr>db_BiometricToken = ''face'', db_UserID = ''tg:9'', db_Reason = []\<rparr>, None)"
    by (simp add: sample_v1_env_def sample_approve_def)
  show ?thesis
    by (rule v1_approve_completes [OF h sample_db_ok o sample_v1_years(1) p l q(1,2,3) d _ _ q(4,5)])
      (simp_all add: sample_v1_env_def)
qed

end
