(* ===== verification/Tokens.thy ===== *)
theory Tokens
  imports Requests
begin

text \<open>
  \<open>internal/pam/pam.go\<close> and \<open>internal/pam/store.go\<close>: the enrolled biometric tokens.
  The interface \<open>TokenStore\<close> is a record of functions with its laws in the locale
  \<open>token_store\<close>; the local encrypted store implements it on a file system. The
  cryptographic primitives, the JSON codec, the random generator and the operating system
  are arguments, collected in records; what the code relies on is the predicate
  \<open>crypto_ok\<close>.
\<close>

section \<open>Tokens and configuration\<close>

record Token =
  TokenValue :: string
  DeviceInfo :: string
  EnrolledAt :: gotime
  LastUsedAt :: gotime
  TokenStorage :: string

record ClawVaultConfig =
  Socket :: string
  Host :: string
  TokenPrefix :: string
  TimeoutSec :: int

record FallbackConfig =
  EncryptionKeyEnv :: string
  StoragePath :: string
  TTLMinutes :: int
  AuthorizedUsers :: "User list"

record PAMConfig =
  UseClawVault :: string
  ClawVault :: ClawVaultConfig
  Fallback :: FallbackConfig

record ClawVaultStatus =
  Available :: bool
  Mode :: string
  Endpoint :: string
  HasPAMSupport :: bool
  StatusError :: "go_error option"

definition no_status :: ClawVaultStatus where
  "no_status = \<lparr>Available = False, Mode = [], Endpoint = [], HasPAMSupport = False, StatusError = None\<rparr>"

definition DefaultPAMConfig :: PAMConfig where
  "DefaultPAMConfig =
     \<lparr>UseClawVault = ''auto'',
      ClawVault = \<lparr>Socket = [], Host = [], TokenPrefix = ''kingcrab/pam/tokens'', TimeoutSec = 5\<rparr>,
      Fallback = \<lparr>EncryptionKeyEnv = ''PAM_FALLBACK_ENCRYPTION_KEY'', StoragePath = [], TTLMinutes = 5,
        AuthorizedUsers = []\<rparr>\<rparr>"

text \<open>\<open>json.Unmarshal(data, cfg)\<close> overwrites the fields of the defaults that the data names.\<close>

definition LoadPAMConfig :: "(string \<Rightarrow> PAMConfig \<Rightarrow> go_error + PAMConfig) \<Rightarrow> string \<Rightarrow> go_error + PAMConfig" where
  "LoadPAMConfig json_unmarshal data =
     (case json_unmarshal data DefaultPAMConfig of Inl e \<Rightarrow> Inl e | Inr cfg \<Rightarrow> Inr cfg)"

text \<open>\<open>TokenExpirationChecker\<close>: true while the token is valid; the duration can wrap.\<close>

definition TokenExpirationChecker :: "Token option \<Rightarrow> int \<Rightarrow> gotime \<Rightarrow> bool" where
  "TokenExpirationChecker token ttlMinutes now =
     (case token of
        None \<Rightarrow> False
      | Some t \<Rightarrow>
          if ttlMinutes \<le> 0 then False
          else time_sub now (LastUsedAt t) \<le> dur_times ttlMinutes time_Minute)"

section \<open>The interface TokenStore\<close>

record 's TokenStore =
  TokStore :: "string \<Rightarrow> Token \<Rightarrow> 's \<Rightarrow> 's \<times> go_error option"
  TokRetrieve :: "string \<Rightarrow> 's \<Rightarrow> 's \<times> (go_error + Token option)"
  TokDelete :: "string \<Rightarrow> 's \<Rightarrow> 's \<times> go_error option"

text \<open>
  \<open>tok\<close> is the token a fault-free \<open>Retrieve\<close> returns. The laws hold for the users of
  a given set, on which the store keeps apart what belongs to different users, and for the
  tokens that survive the codec.
\<close>

locale token_store =
  fixes ts :: "'s TokenStore"
    and tok :: "'s \<Rightarrow> string \<Rightarrow> Token option"
    and inv :: "'s \<Rightarrow> bool"
    and users :: "string set"
    and good :: "Token \<Rightarrow> bool"
  assumes retrieve: "inv s \<Longrightarrow> TokRetrieve ts u s = (s', q) \<Longrightarrow>
        inv s' \<and> tok s' = tok s \<and> (\<forall>x. q = Inr x \<longrightarrow> x = tok s u)"
    and store: "inv s \<Longrightarrow> u \<in> users \<Longrightarrow> good t \<Longrightarrow> TokStore ts u t s = (s', e) \<Longrightarrow>
        inv s' \<and> (\<forall>v \<in> users. v \<noteq> u \<longrightarrow> tok s' v = tok s v) \<and> (e = None \<longrightarrow> tok s' u = Some t)"
    and delete: "inv s \<Longrightarrow> u \<in> users \<Longrightarrow> TokDelete ts u s = (s', e) \<Longrightarrow>
        inv s' \<and> (\<forall>v \<in> users. v \<noteq> u \<longrightarrow> tok s' v = tok s v) \<and>
        (if e = None then tok s' u = None else tok s' u = tok s u)"

section \<open>The PAM operations on tokens\<close>

definition StoreToken :: "'s TokenStore \<Rightarrow> string \<Rightarrow> Token \<Rightarrow> 's \<Rightarrow> 's \<times> go_error option" where
  "StoreToken ts userID token s = TokStore ts userID token s"

definition DeleteToken :: "'s TokenStore \<Rightarrow> string \<Rightarrow> 's \<Rightarrow> 's \<times> go_error option" where
  "DeleteToken ts userID s = TokDelete ts userID s"

text \<open>
  \<open>RetrieveToken\<close> drops the read lock before it takes the write lock; \<open>others\<close> is what
  the other goroutines do to the store in between. The clock is read once in each of the
  two expiry checks.
\<close>

definition RetrieveToken ::
  "'s TokenStore \<Rightarrow> int \<Rightarrow> clock \<Rightarrow> ('s \<Rightarrow> 's) \<Rightarrow> string \<Rightarrow> 's \<Rightarrow> 's \<times> (go_error + Token option)" where
  "RetrieveToken ts ttl clk others userID s =
     (case TokRetrieve ts userID s of
        (s1, Inl e) \<Rightarrow> (s1, Inl e)
      | (s1, Inr None) \<Rightarrow> (s1, Inr None)
      | (s1, Inr (Some token)) \<Rightarrow>
          if ttl > 0 \<and> \<not> TokenExpirationChecker (Some token) ttl (clk 0) then
            (case TokRetrieve ts userID (others s1) of
               (s2, Inl e) \<Rightarrow> (s2, Inl e)
             | (s2, Inr None) \<Rightarrow> (s2, Inr None)
             | (s2, Inr (Some freshToken)) \<Rightarrow>
                 if \<not> TokenExpirationChecker (Some freshToken) ttl (clk 1) then
                   (case TokDelete ts userID s2 of
                      (s3, Some deleteErr) \<Rightarrow>
                        (s3, Inl (''token expired and failed to delete: '' @ deleteErr))
                    | (s3, None) \<Rightarrow>
                        (s3, Inl (''token expired (TTL: '' @ show_int ttl @ '' minutes)'')))
                 else (s2, Inr (Some freshToken)))
          else (s1, Inr (Some token)))"

context token_store
begin

text \<open>A token that \<open>RetrieveToken\<close> returns is stored and, under a TTL, fresh.\<close>

lemma retrieve_returns:
  assumes "inv s" "inv (others (fst (TokRetrieve ts u s)))"
    "RetrieveToken ts ttl clk others u s = (s', Inr (Some t))"
  shows "inv s'" "tok s' u = Some t"
    "ttl > 0 \<Longrightarrow> \<exists>n. TokenExpirationChecker (Some t) ttl (clk n)"
proof -
  obtain s1 q1 where r1: "TokRetrieve ts u s = (s1, q1)" by fastforce
  note l1 = retrieve [OF assms(1) r1]
  obtain s2 q2 where r2: "TokRetrieve ts u (others s1) = (s2, q2)" by fastforce
  have "inv (others s1)" using assms(2) r1 by simp
  note l2 = retrieve [OF this r2]
  have "inv s' \<and> tok s' u = Some t \<and> (ttl > 0 \<longrightarrow> (\<exists>n. TokenExpirationChecker (Some t) ttl (clk n)))"
    using assms(3) l1 l2 by (auto simp: RetrieveToken_def r1 r2 split: sum.splits option.splits if_splits prod.splits)
  then show "inv s'" "tok s' u = Some t"
    "ttl > 0 \<Longrightarrow> \<exists>n. TokenExpirationChecker (Some t) ttl (clk n)" by auto
qed

text \<open>The only change it makes is to delete the user's token, and only one that has expired.\<close>

lemma retrieve_deletes:
  assumes "inv s" "u \<in> users" "inv (others (fst (TokRetrieve ts u s)))"
    "RetrieveToken ts ttl clk others u s = (s', q)"
  defines "m \<equiv> others (fst (TokRetrieve ts u s))"
  shows "inv s'" "v \<in> users \<Longrightarrow> tok s' v = tok s v \<or> tok s' v = tok m v \<or>
     (v = u \<and> tok s' v = None \<and> ttl > 0 \<and>
      (\<exists>t. tok m v = Some t \<and> \<not> TokenExpirationChecker (Some t) ttl (clk 1)))"
proof -
  obtain s1 q1 where r1: "TokRetrieve ts u s = (s1, q1)" by fastforce
  note l1 = retrieve [OF assms(1) r1]
  have m: "m = others s1" by (simp add: m_def r1)
  obtain s2 q2 where r2: "TokRetrieve ts u (others s1) = (s2, q2)" by fastforce
  have "inv (others s1)" using assms(3) r1 by simp
  note l2 = retrieve [OF this r2]
  obtain s3 e where d: "TokDelete ts u s2 = (s3, e)" by fastforce
  have "inv s2" using l2 by simp
  note l3 = delete [OF this assms(2) d]
  have cases: "s' = s1 \<or> s' = s2 \<or>
     (s' = s3 \<and> ttl > 0 \<and> (\<exists>t. q2 = Inr (Some t) \<and> \<not> TokenExpirationChecker (Some t) ttl (clk 1)))"
    using assms(4) by (auto simp: RetrieveToken_def r1 r2 d split: sum.splits option.splits if_splits prod.splits)
  then show "inv s'" using l1 l2 l3 by auto
  assume v: "v \<in> users"
  from cases show "tok s' v = tok s v \<or> tok s' v = tok m v \<or>
     (v = u \<and> tok s' v = None \<and> ttl > 0 \<and>
      (\<exists>t. tok m v = Some t \<and> \<not> TokenExpirationChecker (Some t) ttl (clk 1)))"
  proof (elim disjE)
    assume "s' = s3 \<and> ttl > 0 \<and> (\<exists>t. q2 = Inr (Some t) \<and> \<not> TokenExpirationChecker (Some t) ttl (clk 1))"
    then obtain t where t: "s' = s3" "ttl > 0" "tok (others s1) u = Some t"
      "\<not> TokenExpirationChecker (Some t) ttl (clk 1)"
      using l2 by (metis (no_types))
    then show ?thesis using l2 l3 v by (cases "v = u"; cases e) (simp_all add: m)
  qed (use l1 l2 m in auto)
qed

end

section \<open>The local encrypted store\<close>

text \<open>
  What the store calls outside this repository: SHA-256, AES-256-GCM (\<open>Seal\<close> without the
  nonce prefix, and \<open>Open\<close>), the JSON codec of the two structures it writes, and the
  environment.
\<close>

record EncryptedData =
  Nonce :: string
  Cipher :: string

record token_env =
  sha256 :: "string \<Rightarrow> string"
  gcm_seal :: "string \<Rightarrow> string \<Rightarrow> string \<Rightarrow> string"
  gcm_open :: "string \<Rightarrow> string \<Rightarrow> string \<Rightarrow> go_error + string"
  marshal_data :: "EncryptedData \<Rightarrow> go_error + string"
  unmarshal_data :: "string \<Rightarrow> go_error + EncryptedData"
  marshal_token :: "Token \<Rightarrow> go_error + string"
  unmarshal_token :: "string \<Rightarrow> go_error + Token"
  getenv :: "string \<Rightarrow> string"

text \<open>
  The files, the outcomes of the coming file operations (a failed write may leave a prefix
  of the data behind) and the coming results of the random generator.
\<close>

datatype fs_outcome = FsOk | FsError go_error | FsPartial go_error nat

record local_state =
  files :: "string \<Rightarrow> string option"
  fs_outcomes :: "fs_outcome list"
  random :: "(go_error + string) list"

definition fs_next :: "local_state \<Rightarrow> local_state \<times> fs_outcome" where
  "fs_next s = (case fs_outcomes s of [] \<Rightarrow> (s, FsOk) | x # xs \<Rightarrow> (s\<lparr>fs_outcomes := xs\<rparr>, x))"

definition rand_next :: "local_state \<Rightarrow> local_state \<times> (go_error + string)" where
  "rand_next s =
     (case random s of [] \<Rightarrow> (s, Inl ''EOF'') | x # xs \<Rightarrow> (s\<lparr>random := xs\<rparr>, x))"

definition write_file :: "string \<Rightarrow> string \<Rightarrow> local_state \<Rightarrow> local_state \<times> go_error option" where
  "write_file path data s =
     (case fs_next s of
        (s1, FsOk) \<Rightarrow> (s1\<lparr>files := (files s1)(path \<mapsto> data)\<rparr>, None)
      | (s1, FsError e) \<Rightarrow> (s1, Some e)
      | (s1, FsPartial e n) \<Rightarrow> (s1\<lparr>files := (files s1)(path \<mapsto> take n data)\<rparr>, Some e))"

text \<open>\<open>None\<close> stands for an error that \<open>os.IsNotExist\<close> recognises.\<close>

definition read_file :: "string \<Rightarrow> local_state \<Rightarrow> local_state \<times> (go_error + string option)" where
  "read_file path s =
     (case fs_next s of
        (s1, FsError e) \<Rightarrow> (s1, Inl e)
      | (s1, FsPartial e n) \<Rightarrow> (s1, Inl e)
      | (s1, FsOk) \<Rightarrow> (s1, Inr (files s1 path)))"

definition remove_file :: "string \<Rightarrow> local_state \<Rightarrow> local_state \<times> go_error option" where
  "remove_file path s =
     (case fs_next s of
        (s1, FsError e) \<Rightarrow> (s1, Some e)
      | (s1, FsPartial e n) \<Rightarrow> (s1, Some e)
      | (s1, FsOk) \<Rightarrow> (s1\<lparr>files := (files s1)(path := None)\<rparr>, None))"

text \<open>\<open>EncryptAESGCM\<close> and \<open>DecryptAESGCM\<close>; a 32-byte key never fails to make a cipher.\<close>

definition EncryptAESGCM :: "token_env \<Rightarrow> string \<Rightarrow> string \<Rightarrow> local_state \<Rightarrow> local_state \<times> (go_error + string)" where
  "EncryptAESGCM env key plaintext s =
     (if length key \<noteq> 32 then (s, Inl ''key must be 32 bytes'')
      else case rand_next s of
             (s1, Inl e) \<Rightarrow> (s1, Inl (''generate nonce: '' @ e))
           | (s1, Inr nonce) \<Rightarrow>
               let ciphertext = nonce @ gcm_seal env key nonce plaintext;
                   encData = \<lparr>Nonce = hex_encode nonce, Cipher = hex_encode (drop 12 ciphertext)\<rparr>
               in case marshal_data env encData of
                    Inl e \<Rightarrow> (s1, Inl (''marshal encrypted data: '' @ e))
                  | Inr result \<Rightarrow> (s1, Inr result))"

definition DecryptAESGCM :: "token_env \<Rightarrow> string \<Rightarrow> string \<Rightarrow> go_error + string" where
  "DecryptAESGCM env key ciphertext =
     (if length key \<noteq> 32 then Inl ''key must be 32 bytes''
      else case unmarshal_data env ciphertext of
             Inl e \<Rightarrow> Inl (''parse encrypted data: '' @ e)
           | Inr encData \<Rightarrow>
        (case hex_decode (Nonce encData) of
           Inl e \<Rightarrow> Inl (''decode nonce: '' @ e)
         | Inr nonce \<Rightarrow>
        (case hex_decode (Cipher encData) of
           Inl e \<Rightarrow> Inl (''decode ciphertext: '' @ e)
         | Inr cipherText \<Rightarrow>
            if length nonce \<noteq> 12 then
              Inl (''invalid nonce size: got '' @ show_nat (length nonce) @ '', expected 12'')
            else case gcm_open env key nonce cipherText of
                   Inl e \<Rightarrow> Inl (''decrypt: '' @ e)
                 | Inr plaintext \<Rightarrow> Inr plaintext)))"

record LocalEncryptedTokenStore =
  storagePath :: string
  keyEnv :: string

text \<open>The storage directory is created first; the outcome is the operating system's.\<close>

definition NewLocalEncryptedTokenStore ::
  "(string \<Rightarrow> go_error option) \<Rightarrow> string \<Rightarrow> string \<Rightarrow> go_error + LocalEncryptedTokenStore" where
  "NewLocalEncryptedTokenStore mkdir_all path kenv =
     (case mkdir_all path of
        Some e \<Rightarrow> Inl (''create storage directory: '' @ e)
      | None \<Rightarrow> Inr \<lparr>storagePath = path, keyEnv = kenv\<rparr>)"

definition sanitizeUserID :: "token_env \<Rightarrow> string \<Rightarrow> string" where
  "sanitizeUserID env userID = hex_encode (sha256 env userID)"

definition token_path :: "token_env \<Rightarrow> LocalEncryptedTokenStore \<Rightarrow> string \<Rightarrow> string" where
  "token_path env st userID = path_join [storagePath st, sanitizeUserID env userID @ ''.enc'']"

definition getEncryptionKey :: "token_env \<Rightarrow> LocalEncryptedTokenStore \<Rightarrow> go_error + string" where
  "getEncryptionKey env st =
     (let keyHex = getenv env (keyEnv st)
      in if keyHex = [] then Inl (''environment variable '' @ keyEnv st @ '' not set'')
         else case hex_decode keyHex of
                Inl e \<Rightarrow> Inl (''invalid key (need 32 bytes hex): '' @ e)
              | Inr key \<Rightarrow>
                  if length key \<noteq> 32 then
                    Inl (''invalid key: must be 32 bytes hex (got '' @ show_nat (length key) @ '' bytes)'')
                  else Inr key)"

definition local_Store ::
  "token_env \<Rightarrow> LocalEncryptedTokenStore \<Rightarrow> string \<Rightarrow> Token \<Rightarrow> local_state \<Rightarrow>
     local_state \<times> go_error option" where
  "local_Store env st userID token s =
     (case getEncryptionKey env st of
        Inl e \<Rightarrow> (s, Some (''encryption key: '' @ e))
      | Inr key \<Rightarrow>
          (case marshal_token env token of
             Inl e \<Rightarrow> (s, Some (''marshal token: '' @ e))
           | Inr data \<Rightarrow>
               (case EncryptAESGCM env key data s of
                  (s1, Inl e) \<Rightarrow> (s1, Some (''encrypt: '' @ e))
                | (s1, Inr encrypted) \<Rightarrow>
                    (case write_file (token_path env st userID) encrypted s1 of
                       (s2, Some e) \<Rightarrow> (s2, Some (''write file: '' @ e))
                     | (s2, None) \<Rightarrow> (s2, None)))))"

text \<open>What \<open>Retrieve\<close> makes of the file it read.\<close>

definition decode_token ::
  "token_env \<Rightarrow> LocalEncryptedTokenStore \<Rightarrow> string \<Rightarrow> go_error + Token" where
  "decode_token env st data =
     (case getEncryptionKey env st of
        Inl e \<Rightarrow> Inl (''encryption key: '' @ e)
      | Inr key \<Rightarrow>
          (case DecryptAESGCM env key data of
             Inl e \<Rightarrow> Inl (''decrypt: '' @ e)
           | Inr decrypted \<Rightarrow>
               (case unmarshal_token env decrypted of
                  Inl e \<Rightarrow> Inl (''unmarshal token: '' @ e)
                | Inr token \<Rightarrow> Inr token)))"

definition local_Retrieve ::
  "token_env \<Rightarrow> LocalEncryptedTokenStore \<Rightarrow> string \<Rightarrow> local_state \<Rightarrow>
     local_state \<times> (go_error + Token option)" where
  "local_Retrieve env st userID s =
     (case read_file (token_path env st userID) s of
        (s1, Inl e) \<Rightarrow> (s1, Inl (''read file: '' @ e))
      | (s1, Inr None) \<Rightarrow> (s1, Inr None)
      | (s1, Inr (Some data)) \<Rightarrow>
          (case decode_token env st data of Inl e \<Rightarrow> (s1, Inl e) | Inr token \<Rightarrow> (s1, Inr (Some token))))"

definition local_Delete ::
  "token_env \<Rightarrow> LocalEncryptedTokenStore \<Rightarrow> string \<Rightarrow> local_state \<Rightarrow> local_state \<times> go_error option" where
  "local_Delete env st userID s =
     (case remove_file (token_path env st userID) s of
        (s1, Some e) \<Rightarrow> (s1, Some (''remove file: '' @ e))
      | (s1, None) \<Rightarrow> (s1, None))"

definition local_token_store ::
  "token_env \<Rightarrow> LocalEncryptedTokenStore \<Rightarrow> local_state TokenStore" where
  "local_token_store env st =
     \<lparr>TokStore = local_Store env st, TokRetrieve = local_Retrieve env st, TokDelete = local_Delete env st\<rparr>"

definition InitLocalTokenStore ::
  "token_env \<Rightarrow> (string \<Rightarrow> go_error option) \<Rightarrow> string \<Rightarrow> string \<Rightarrow> go_error + LocalEncryptedTokenStore" where
  "InitLocalTokenStore env mkdir_all path keyEnvVar =
     (let keyHex = getenv env keyEnvVar
      in if keyHex = [] then Inl (''environment variable '' @ keyEnvVar @ '' not set'')
         else case hex_decode keyHex of
                Inl e \<Rightarrow> Inl (''invalid encryption key (need 32 bytes hex): '' @ e)
              | Inr key \<Rightarrow>
                  if length key \<noteq> 32 then
                    Inl (''invalid encryption key: must be 32 bytes hex (got '' @ show_nat (length key) @ '' bytes)'')
                  else case NewLocalEncryptedTokenStore mkdir_all path keyEnvVar of
                         Inl e \<Rightarrow> Inl (''create store: '' @ e)
                       | Inr st \<Rightarrow> Inr st)"

section \<open>What the local store relies on\<close>

text \<open>
  The documented behaviour of the primitives: \<open>Open\<close> inverts \<open>Seal\<close> under the same key
  and nonce, the JSON codec reads back the hexadecimal strings it wrote, and SHA-256 has no
  collision among the identifiers of the given users.
\<close>

definition crypto_ok :: "token_env \<Rightarrow> string set \<Rightarrow> bool" where
  "crypto_ok env users \<longleftrightarrow>
     (\<forall>key nonce p. length key = 32 \<longrightarrow> length nonce = 12 \<longrightarrow>
        gcm_open env key nonce (gcm_seal env key nonce p) = Inr p) \<and>
     (\<forall>a b x. marshal_data env \<lparr>Nonce = hex_encode a, Cipher = hex_encode b\<rparr> = Inr x \<longrightarrow>
        unmarshal_data env x = Inr \<lparr>Nonce = hex_encode a, Cipher = hex_encode b\<rparr>) \<and>
     inj_on (sha256 env) users"

definition token_survives :: "token_env \<Rightarrow> Token \<Rightarrow> bool" where
  "token_survives env t \<longleftrightarrow> (\<forall>x. marshal_token env t = Inr x \<longrightarrow> unmarshal_token env x = Inr t)"

text \<open>The random generator fills the 12 bytes of the nonce.\<close>

definition nonces_ok :: "local_state \<Rightarrow> bool" where
  "nonces_ok s \<longleftrightarrow> (\<forall>n. Inr n \<in> set (random s) \<longrightarrow> length n = 12)"

definition local_inv :: "token_env \<Rightarrow> string set \<Rightarrow> local_state \<Rightarrow> bool" where
  "local_inv env users s \<longleftrightarrow> crypto_ok env users \<and> nonces_ok s"

definition local_tok :: "token_env \<Rightarrow> LocalEncryptedTokenStore \<Rightarrow> local_state \<Rightarrow> string \<Rightarrow> Token option" where
  "local_tok env st s u =
     (case files s (token_path env st u) of
        None \<Rightarrow> None
      | Some data \<Rightarrow> (case decode_token env st data of Inl _ \<Rightarrow> None | Inr t \<Rightarrow> Some t))"

lemma hex_encode_no_slash: "CHR ''/'' \<notin> set (hex_encode x)"
proof -
  have "hex_digit d \<noteq> CHR ''/''" if "d < 16" for d
  proof
    assume "hex_digit d = CHR ''/''"
    then have "from_hex_char (CHR ''/'') = Some d" using from_hex_digit [OF that] by simp
    then show False by (simp add: from_hex_char_def)
  qed
  then have "hex_digit (of_char c div 16) \<noteq> CHR ''/''" "hex_digit (of_char c mod 16) \<noteq> CHR ''/''" for c
    using of_char_less_256 [of c] by (simp_all add: less_mult_imp_div_less)
  then show ?thesis by (auto simp: hex_encode_def eq_commute [of "CHR ''/''"])
qed

lemma plain_token_file: "plain_name (sanitizeUserID env u @ ''.enc'')"
  using hex_encode_no_slash [of "sha256 env u"]
  by (auto simp: plain_name_def sanitizeUserID_def append_eq_Cons_conv)

text \<open>Different users have different files.\<close>

lemma token_path_inj:
  "crypto_ok env users \<Longrightarrow> u \<in> users \<Longrightarrow> v \<in> users \<Longrightarrow>
     token_path env st u = token_path env st v \<longleftrightarrow> u = v"
  unfolding token_path_def path_join_inj [OF plain_token_file plain_token_file]
  by (auto simp: crypto_ok_def sanitizeUserID_def hex_encode_inj dest: inj_onD)

lemma fs_next_same: "fs_next s = (s', oc) \<Longrightarrow> files s' = files s \<and> random s' = random s"
  by (auto simp: fs_next_def split: list.splits)

lemma rand_next_same: "rand_next s = (s', q) \<Longrightarrow> files s' = files s \<and> set (random s') \<subseteq> set (random s)"
  by (auto simp: rand_next_def split: list.splits)

lemma rand_next_length: "nonces_ok s \<Longrightarrow> rand_next s = (s', Inr n) \<Longrightarrow> length n = 12"
  by (auto simp: rand_next_def nonces_ok_def split: list.splits)

lemma nonces_ok_mono: "nonces_ok s \<Longrightarrow> set (random s') \<subseteq> set (random s) \<Longrightarrow> nonces_ok s'"
  by (auto simp: nonces_ok_def)

lemma write_file_cases:
  assumes "write_file p d s = (s', e)"
  obtains "e = None" "files s' = (files s)(p \<mapsto> d)" "random s' = random s"
  | "e \<noteq> None" "\<And>q. q \<noteq> p \<Longrightarrow> files s' q = files s q" "random s' = random s"
proof -
  obtain s1 oc where n: "fs_next s = (s1, oc)" by fastforce
  show ?thesis using that assms fs_next_same [OF n] by (cases oc) (auto simp: write_file_def n)
qed

lemma read_file_cases:
  assumes "read_file p s = (s', q)"
  shows "files s' = files s" "random s' = random s" "q = Inr x \<Longrightarrow> x = files s p"
proof -
  obtain s1 oc where n: "fs_next s = (s1, oc)" by fastforce
  show "files s' = files s" "random s' = random s" "q = Inr x \<Longrightarrow> x = files s p"
    using assms fs_next_same [OF n] by (cases oc; auto simp: read_file_def n)+
qed

lemma remove_file_cases:
  assumes "remove_file p s = (s', e)"
  shows "files s' = (if e = None then (files s)(p := None) else files s)" "random s' = random s"
proof -
  obtain s1 oc where n: "fs_next s = (s1, oc)" by fastforce
  show "files s' = (if e = None then (files s)(p := None) else files s)" "random s' = random s"
    using assms fs_next_same [OF n] by (cases oc; auto simp: remove_file_def n)+
qed

section \<open>Encryption and the store laws\<close>

lemma encrypt_decrypt:
  assumes "crypto_ok env users" "nonces_ok s" "EncryptAESGCM env key p s = (s', Inr c)"
  shows "DecryptAESGCM env key c = Inr p"
proof -
  have k: "length key = 32" using assms(3) by (auto simp: EncryptAESGCM_def split: if_splits)
  then obtain nonce where r: "rand_next s = (s', Inr nonce)"
    and m: "marshal_data env \<lparr>Nonce = hex_encode nonce,
      Cipher = hex_encode (drop 12 (nonce @ gcm_seal env key nonce p))\<rparr> = Inr c"
    using assms(3) by (auto simp: EncryptAESGCM_def Let_def split: prod.splits sum.splits)
  have l: "length nonce = 12" by (rule rand_next_length [OF assms(2) r])
  with m have "marshal_data env \<lparr>Nonce = hex_encode nonce, Cipher = hex_encode (gcm_seal env key nonce p)\<rparr> = Inr c"
    by simp
  with assms(1) have "unmarshal_data env c = Inr \<lparr>Nonce = hex_encode nonce, Cipher = hex_encode (gcm_seal env key nonce p)\<rparr>"
    by (auto simp: crypto_ok_def)
  moreover have "gcm_open env key nonce (gcm_seal env key nonce p) = Inr p"
    using assms(1) k l by (auto simp: crypto_ok_def)
  ultimately show ?thesis by (simp add: DecryptAESGCM_def k l)
qed

lemma encrypt_state:
  "EncryptAESGCM env key p s = (s', q) \<Longrightarrow> files s' = files s \<and> set (random s') \<subseteq> set (random s)"
proof -
  assume a: "EncryptAESGCM env key p s = (s', q)"
  obtain s1 oc where n: "rand_next s = (s1, oc)" by fastforce
  then show ?thesis using a rand_next_same [OF n]
    by (auto simp: EncryptAESGCM_def n Let_def split: if_splits sum.splits)
qed

lemma local_store_law:
  assumes "local_inv env users s" "u \<in> users" "token_survives env t" "local_Store env st u t s = (s', e)"
  shows "local_inv env users s'" "v \<in> users \<Longrightarrow> v \<noteq> u \<Longrightarrow> local_tok env st s' v = local_tok env st s v"
    "e = None \<Longrightarrow> local_tok env st s' u = Some t"
proof -
  have c: "crypto_ok env users" "nonces_ok s" using assms(1) by (auto simp: local_inv_def)
  have "local_inv env users s' \<and> (\<forall>v \<in> users. v \<noteq> u \<longrightarrow> local_tok env st s' v = local_tok env st s v) \<and>
    (e = None \<longrightarrow> local_tok env st s' u = Some t)"
  proof (cases "\<exists>key data. getEncryptionKey env st = Inr key \<and> marshal_token env t = Inr data")
    case False
    then have "s' = s \<and> e \<noteq> None" using assms(4) by (auto simp: local_Store_def split: sum.splits)
    then show ?thesis using assms(1) by auto
  next
    case True
    then obtain key data where kd: "getEncryptionKey env st = Inr key" "marshal_token env t = Inr data" by blast
    obtain s1 q where enc: "EncryptAESGCM env key data s = (s1, q)" by fastforce
    note es = encrypt_state [OF enc]
    show ?thesis
    proof (cases q)
      case (Inl x)
      then have "s' = s1 \<and> e \<noteq> None" using assms(4) by (auto simp: local_Store_def kd enc)
      then show ?thesis using es c nonces_ok_mono by (auto simp: local_inv_def local_tok_def)
    next
      case (Inr x)
      obtain s2 w where wr: "write_file (token_path env st u) x s1 = (s2, w)" by fastforce
      have s': "s' = s2" "e = None \<longleftrightarrow> w = None"
        using assms(4) by (auto simp: local_Store_def kd enc Inr wr split: option.splits)
      have dec: "decode_token env st x = Inr t"
        using encrypt_decrypt [OF c enc [unfolded Inr]] assms(3) kd
        by (simp add: decode_token_def token_survives_def)
      have other: "v \<in> users \<Longrightarrow> v \<noteq> u \<Longrightarrow> token_path env st v \<noteq> token_path env st u" for v
        using token_path_inj [OF c(1) _ assms(2)] by simp
      show ?thesis using wr
      proof (cases rule: write_file_cases)
        case 1
        then show ?thesis using es c nonces_ok_mono [of s s2] other dec s'
          by (auto simp: local_inv_def local_tok_def)
      next
        case 2
        then show ?thesis using es c nonces_ok_mono [of s s2] other s'
          by (auto simp: local_inv_def local_tok_def)
      qed
    qed
  qed
  then show "local_inv env users s'" "v \<in> users \<Longrightarrow> v \<noteq> u \<Longrightarrow> local_tok env st s' v = local_tok env st s v"
    "e = None \<Longrightarrow> local_tok env st s' u = Some t" by auto
qed

interpretation lts: token_store "local_token_store env st" "local_tok env st" "local_inv env users"
  users "token_survives env"
proof (unfold_locales, goal_cases)
  case (1 s u s' q)
  then obtain s1 r where rd: "read_file (token_path env st u) s = (s1, r)" by fastforce
  note l = read_file_cases [OF rd]
  have "s' = s1" "\<forall>x. q = Inr x \<longrightarrow> x = local_tok env st s u"
    using 1(2) l(3) by (auto simp: local_token_store_def local_Retrieve_def rd local_tok_def
        split: sum.splits option.splits)
  then show ?case using l(1,2) 1(1) by (auto simp: local_inv_def nonces_ok_def local_tok_def fun_eq_iff)
next
  case (2 s u t s' e)
  then have "local_Store env st u t s = (s', e)" by (simp add: local_token_store_def)
  from local_store_law [OF 2(1-3) this] show ?case by blast
next
  case (3 s u s' e)
  then obtain s1 w where rm: "remove_file (token_path env st u) s = (s1, w)" by fastforce
  note l = remove_file_cases [OF rm]
  have c: "crypto_ok env users" using 3(1) by (simp add: local_inv_def)
  have "s' = s1" "e = None \<longleftrightarrow> w = None"
    using 3(3) by (auto simp: local_token_store_def local_Delete_def rm split: option.splits)
  then show ?case using l 3(1,2) token_path_inj [OF c _ 3(2)]
    by (auto simp: local_inv_def nonces_ok_def local_tok_def)
qed

section \<open>Choosing the token store\<close>

text \<open>
  What the detection asks the operating system: binaries in PATH (asked twice, so by call
  number), existing paths, open TCP ports, variables, the home directory, and making a
  directory.
\<close>

record host_env =
  look_path :: "nat \<Rightarrow> string \<Rightarrow> go_error option"
  stat_ok :: "string \<Rightarrow> bool"
  dial_ok :: "string \<Rightarrow> bool"
  env_var :: "string \<Rightarrow> string"
  home_dir :: "go_error + string"
  mkdir_all :: "string \<Rightarrow> go_error option"

text \<open>\<open>ClawVaultClient.CheckAvailability\<close>, with the binaries seen by one call.\<close>

definition CheckAvailability :: "(string \<Rightarrow> go_error option) \<Rightarrow> go_error option" where
  "CheckAvailability look =
     (case look ''secret-tool'' of
        Some e \<Rightarrow> Some (''secret-tool not found: '' @ e)
      | None \<Rightarrow>
          (case look ''clawvault'' of
             Some e \<Rightarrow> Some (''clawvault not found: '' @ e)
           | None \<Rightarrow> None))"

definition join_host_port :: "string \<Rightarrow> string \<Rightarrow> string" where
  "join_host_port host port =
     (if CHR '':'' \<in> set host then ''['' @ host @ '']:'' @ port else host @ '':'' @ port)"

definition checkPort :: "host_env \<Rightarrow> string \<Rightarrow> string \<Rightarrow> bool" where
  "checkPort h host port = dial_ok h (join_host_port host port)"

text \<open>The two probes that the detection repeats: a path, and the host and port of an endpoint.\<close>

definition probe_host :: "host_env \<Rightarrow> string \<Rightarrow> bool" where
  "probe_host h host \<longleftrightarrow>
     CHR '':'' \<in> set host \<and> checkPort h (split_on (CHR '':'') host ! 0) (split_on (CHR '':'') host ! 1)"

fun probe_sockets :: "host_env \<Rightarrow> string list \<Rightarrow> ClawVaultStatus option" where
  "probe_sockets h [] = None"
| "probe_sockets h (p # ps) =
     (if stat_ok h p then Some (no_status\<lparr>Available := True, Mode := ''socket'', Endpoint := p\<rparr>)
      else probe_sockets h ps)"

fun probe_hosts :: "host_env \<Rightarrow> string list \<Rightarrow> ClawVaultStatus option" where
  "probe_hosts h [] = None"
| "probe_hosts h (x # xs) =
     (let host = (if has_prefix x ''http://'' then trim_prefix x ''http://'' else x)
      in if probe_host h host
         then Some (no_status\<lparr>Available := True, Mode := ''network'', Endpoint := ''http://'' @ host\<rparr>)
         else probe_hosts h xs)"

definition probe_configured :: "host_env \<Rightarrow> ClawVaultConfig \<Rightarrow> ClawVaultStatus option" where
  "probe_configured h cv =
     (if Socket cv \<noteq> [] \<and> stat_ok h (Socket cv)
      then Some (no_status\<lparr>Available := True, Mode := ''socket'', Endpoint := Socket cv\<rparr>)
      else if Host cv = [] then None
      else
        let host = Host cv;
            host = (if has_prefix host ''http://'' then trim_prefix host ''http://'' else host);
            host = (if has_prefix host ''https://'' then trim_prefix host ''https://'' else host)
        in if probe_host h host
           then Some (no_status\<lparr>Available := True, Mode := ''network'', Endpoint := Host cv\<rparr>)
           else None)"

definition detectClawVault :: "host_env \<Rightarrow> PAMConfig \<Rightarrow> ClawVaultStatus" where
  "detectClawVault h cfg =
     (case CheckAvailability (look_path h 0) of
        None \<Rightarrow> no_status\<lparr>Available := True, Mode := ''secret-tool'', Endpoint := ''gnome-keyring''\<rparr>
      | Some _ \<Rightarrow>
     (case probe_configured h (ClawVault cfg) of
        Some m \<Rightarrow> m
      | None \<Rightarrow>
     (case probe_sockets h [''/var/run/clawvault.sock'',
                            path_join [env_var h ''HOME'', ''.clawvault'', ''clawvault.sock'']] of
        Some m \<Rightarrow> m
      | None \<Rightarrow>
     (case probe_hosts h [''http://127.0.0.1:3000'', ''http://127.0.0.1:3001''] of
        Some m \<Rightarrow> m
      | None \<Rightarrow>
          let tsIP = env_var h ''CLAWVAULT_TAILSCALE_IP''
          in if tsIP \<noteq> [] \<and> checkPort h tsIP ''3000''
             then no_status\<lparr>Available := True, Mode := ''tailscale'', Endpoint := ''http://'' @ tsIP @ '':3000''\<rparr>
             else no_status))))"

datatype store_choice =
    UseVault string int
  | UseLocal LocalEncryptedTokenStore

definition newFallbackStore :: "host_env \<Rightarrow> PAMConfig \<Rightarrow> go_error + store_choice" where
  "newFallbackStore h cfg =
     (let open_at = (\<lambda>path. case NewLocalEncryptedTokenStore (mkdir_all h) path (EncryptionKeyEnv (Fallback cfg)) of
                        Inl e \<Rightarrow> Inl e | Inr st \<Rightarrow> Inr (UseLocal st))
      in if StoragePath (Fallback cfg) \<noteq> [] then open_at (StoragePath (Fallback cfg))
         else case home_dir h of
                Inl e \<Rightarrow> Inl (''failed to determine home directory for token storage: '' @ e)
              | Inr home \<Rightarrow> open_at (path_join [home, ''.config'', ''kingcrab'', ''tokens'']))"

text \<open>The store or the error, and the status that goes with it.\<close>

definition detectAndInitStore :: "host_env \<Rightarrow> PAMConfig \<Rightarrow> (go_error + store_choice) \<times> ClawVaultStatus" where
  "detectAndInitStore h cfg =
     (let mode = detectClawVault h cfg
      in if UseClawVault cfg = ''false'' then
           (newFallbackStore h cfg, no_status\<lparr>Mode := ''disabled''\<rparr>)
         else if UseClawVault cfg = ''true'' \<and> \<not> Available mode then
           (Inl ''ClawVault required but not available'', mode)
         else if Available mode then
           (case CheckAvailability (look_path h 1) of
              Some err \<Rightarrow>
                if UseClawVault cfg = ''true'' then
                  (Inl (''clawvault required but availability check failed: '' @ err), mode\<lparr>StatusError := Some err\<rparr>)
                else (newFallbackStore h cfg, no_status\<lparr>Mode := ''fallback'', StatusError := Some err\<rparr>)
            | None \<Rightarrow> (Inr (UseVault (TokenPrefix (ClawVault cfg)) (TimeoutSec (ClawVault cfg))), mode))
         else (newFallbackStore h cfg, no_status\<lparr>Mode := ''fallback''\<rparr>))"

record PAM =
  pam_store :: store_choice
  pam_config :: PAMConfig
  clawvaultMode :: ClawVaultStatus

definition NewPAM :: "host_env \<Rightarrow> PAMConfig option \<Rightarrow> go_error + PAM" where
  "NewPAM h config =
     (let cfg = (case config of None \<Rightarrow> DefaultPAMConfig | Some c \<Rightarrow> c)
      in case detectAndInitStore h cfg of
           (Inl e, _) \<Rightarrow> Inl (''failed to initialize token store: '' @ e)
         | (Inr st, mode) \<Rightarrow> Inr \<lparr>pam_store = st, pam_config = cfg, clawvaultMode = mode\<rparr>)"

text \<open>The fields of \<open>GetStatus\<close>: mode, clawvault_found and endpoint.\<close>

definition GetStatus :: "PAM \<Rightarrow> string \<times> bool \<times> string" where
  "GetStatus p = (Mode (clawvaultMode p), Available (clawvaultMode p), Endpoint (clawvaultMode p))"

section \<open>Properties\<close>

definition toy_token :: Token where
  "toy_token = \<lparr>TokenValue = ''bio'', DeviceInfo = ''phone'', EnrolledAt = 1700000000000000000,
     LastUsedAt = 1700000000000000000, TokenStorage = ''local''\<rparr>"

definition toy_env :: token_env where
  "toy_env = \<lparr>sha256 = (\<lambda>x. x), gcm_seal = (\<lambda>k n p. p), gcm_open = (\<lambda>k n c. Inr c),
     marshal_data = (\<lambda>d. Inr (Nonce d @ ''/'' @ Cipher d)),
     unmarshal_data = (\<lambda>x. let (n, c, _) = cut (CHR ''/'') x in Inr \<lparr>Nonce = n, Cipher = c\<rparr>),
     marshal_token = (\<lambda>t. Inr (TokenValue t)),
     unmarshal_token = (\<lambda>x. Inr (toy_token\<lparr>TokenValue := x\<rparr>)),
     getenv = (\<lambda>_. concat (replicate 32 ''2a''))\<rparr>"

definition toy_local :: LocalEncryptedTokenStore where
  "toy_local = \<lparr>storagePath = ''/var/tokens'', keyEnv = ''KEY''\<rparr>"

definition toy_state :: local_state where
  "toy_state = \<lparr>files = Map.empty, fs_outcomes = [], random = [Inr ''abcdefghijkl'', Inr ''abcdefghijkl'']\<rparr>"

lemma toy_inv: "local_inv toy_env UNIV toy_state"
proof -
  have "unmarshal_data toy_env x = Inr \<lparr>Nonce = hex_encode a, Cipher = hex_encode b\<rparr>"
    if "marshal_data toy_env \<lparr>Nonce = hex_encode a, Cipher = hex_encode b\<rparr> = Inr x" for a b x
    using that cut_append_sep [OF hex_encode_no_slash, of a "hex_encode b"] by (auto simp: toy_env_def)
  moreover have "inj_on (sha256 toy_env) UNIV" by (simp add: toy_env_def)
  ultimately show ?thesis by (auto simp: local_inv_def crypto_ok_def nonces_ok_def toy_state_def toy_env_def)
qed

lemma toy_survives: "token_survives toy_env toy_token"
  by (simp add: token_survives_def toy_env_def toy_token_def)

definition toy_stored :: local_state where
  "toy_stored = fst (local_Store toy_env toy_local ''tg:1'' toy_token toy_state)"

lemma toy_store_ok: "local_Store toy_env toy_local ''tg:1'' toy_token toy_state = (toy_stored, None)"
proof -
  have "snd (local_Store toy_env toy_local ''tg:1'' toy_token toy_state) = None" by code_simp
  then show ?thesis by (metis prod.collapse toy_stored_def)
qed

text \<open>
  Decryption inverts encryption: whatever the key, a text that \<open>EncryptAESGCM\<close>
  produced is read back by \<open>DecryptAESGCM\<close> under the same key as the plaintext, given
  that AES-GCM opens what it sealed, that JSON reads back what it wrote and that the
  generator fills the nonce.
\<close>

theorem aesgcm_roundtrip:
  assumes "crypto_ok env users" "nonces_ok s" "EncryptAESGCM env key p s = (s', Inr c)"
  shows "DecryptAESGCM env key c = Inr p"
  using assms by (rule encrypt_decrypt)

theorem aesgcm_roundtrip_witness:
  "\<exists>s' c. EncryptAESGCM toy_env (replicate 32 CHR ''k'') ''secret'' toy_state = (s', Inr c) \<and>
     DecryptAESGCM toy_env (replicate 32 CHR ''k'') c = Inr ''secret''"
proof -
  let ?e = "EncryptAESGCM toy_env (replicate 32 CHR ''k'') ''secret'' toy_state"
  have "isl (snd ?e) = False" by code_simp
  then obtain s' c where e: "?e = (s', Inr c)" by (cases ?e; cases "snd ?e") auto
  have "crypto_ok toy_env UNIV" "nonces_ok toy_state" using toy_inv by (simp_all add: local_inv_def)
  from aesgcm_roundtrip [OF this e] e show ?thesis by blast
qed

text \<open>
  C17: the local store keeps users apart and returns what was stored. After a successful
  \<open>Store\<close> for a user, a \<open>Retrieve\<close> that reports no error returns that token for this
  user, and for every other user what it would have returned before.
\<close>

theorem local_store_retrieve:
  assumes "local_inv env users s" "u \<in> users" "v \<in> users" "token_survives env t"
    "local_Store env st u t s = (s1, None)" "local_Retrieve env st v s1 = (s2, Inr q)"
  shows "q = (if v = u then Some t else local_tok env st s v)"
proof -
  have inv1: "local_inv env users s1" by (rule local_store_law(1) [OF assms(1,2,4,5)])
  have "TokRetrieve (local_token_store env st) v s1 = (s2, Inr q)"
    using assms(6) by (simp add: local_token_store_def)
  from lts.retrieve [OF inv1 this] have "q = local_tok env st s1 v" by simp
  then show ?thesis using local_store_law(2,3) [OF assms(1,2,4,5)] assms(3) by simp
qed

theorem local_store_retrieve_witness:
  "\<exists>s2 q. local_Retrieve toy_env toy_local ''tg:1'' toy_stored = (s2, Inr q) \<and> q = Some toy_token"
proof -
  let ?r = "local_Retrieve toy_env toy_local ''tg:1'' toy_stored"
  have "isl (snd ?r) = False" by code_simp
  then obtain s2 q where r: "?r = (s2, Inr q)" by (cases ?r; cases "snd ?r") auto
  from local_store_retrieve [OF toy_inv UNIV_I UNIV_I toy_survives toy_store_ok r] r show ?thesis by simp
qed

text \<open>
  C16: \<open>RetrieveToken\<close> under a positive TTL never returns an expired token, and deletes
  nothing but an expired token of the same user, whatever other goroutines do to the store
  between its two locks: each user's token afterwards is the one before, or the one left by
  the others, or was deleted having failed the second expiry check.
\<close>

theorem retrieve_token_safe:
  assumes "local_inv env users s" "u \<in> users" "ttl > 0"
    "local_inv env users (others (fst (local_Retrieve env st u s)))"
    "RetrieveToken (local_token_store env st) ttl clk others u s = (s', q)"
  shows "(\<forall>t. q = Inr (Some t) \<longrightarrow>
       local_tok env st s' u = Some t \<and> (\<exists>n. time_sub (clk n) (LastUsedAt t) \<le> dur_times ttl time_Minute))
     \<and> (\<forall>v \<in> users. local_tok env st s' v = local_tok env st s v \<or>
          local_tok env st s' v = local_tok env st (others (fst (local_Retrieve env st u s))) v \<or>
          (v = u \<and> local_tok env st s' v = None \<and>
           (\<exists>t. local_tok env st (others (fst (local_Retrieve env st u s))) v = Some t \<and>
              dur_times ttl time_Minute < time_sub (clk 1) (LastUsedAt t))))"
proof -
  have r: "TokRetrieve (local_token_store env st) u s = local_Retrieve env st u s"
    by (simp add: local_token_store_def)
  have fresh: "TokenExpirationChecker (Some t) ttl now \<longleftrightarrow> time_sub now (LastUsedAt t) \<le> dur_times ttl time_Minute"
    for t now using assms(3) by (simp add: TokenExpirationChecker_def)
  have "local_tok env st s' u = Some t \<and> (\<exists>n. time_sub (clk n) (LastUsedAt t) \<le> dur_times ttl time_Minute)"
    if "q = Inr (Some t)" for t
    using lts.retrieve_returns [OF assms(1) _ assms(5) [unfolded that]] assms(3,4) by (simp add: r fresh)
  moreover note lts.retrieve_deletes [OF assms(1,2) _ assms(5)]
  ultimately show ?thesis using assms(4) by (auto simp: r fresh not_le)
qed

definition toy_late :: "local_state \<times> (go_error + Token option)" where
  "toy_late = RetrieveToken (local_token_store toy_env toy_local) 5 (\<lambda>_. 1700000400000000000) (\<lambda>s. s) ''tg:1'' toy_stored"

theorem retrieve_token_safe_witness:
  "snd toy_late = Inl ''token expired (TTL: 5 minutes)'' \<and>
   local_tok toy_env toy_local (fst toy_late) ''tg:2'' = local_tok toy_env toy_local toy_stored ''tg:2''"
proof -
  have late: "snd toy_late = Inl ''token expired (TTL: 5 minutes)''" by code_simp
  have stored: "local_inv toy_env UNIV toy_stored"
    by (rule local_store_law(1) [OF toy_inv UNIV_I toy_survives toy_store_ok])
  have "TokRetrieve (local_token_store toy_env toy_local) ''tg:1'' toy_stored =
      (fst (local_Retrieve toy_env toy_local ''tg:1'' toy_stored), snd (local_Retrieve toy_env toy_local ''tg:1'' toy_stored))"
    by (simp add: local_token_store_def)
  note kept = lts.retrieve [OF stored this]
  have run: "RetrieveToken (local_token_store toy_env toy_local) 5 (\<lambda>_. 1700000400000000000) (\<lambda>s. s) ''tg:1'' toy_stored =
      (fst toy_late, snd toy_late)" by (simp add: toy_late_def)
  have "(0::int) < 5" by simp
  from retrieve_token_safe [OF stored UNIV_I this _ run] kept late show ?thesis by auto
qed

text \<open>
  Which token store is used. If both checks of the binaries give the same answer,
  ClawVault is chosen exactly when it is not disabled and both \<open>secret-tool\<close> and
  \<open>clawvault\<close> are found; when it is required and not chosen, start-up fails instead of
  falling back; and an endpoint that was found on a socket, a port or Tailscale never
  selects it by itself.
\<close>

theorem store_selection:
  assumes "look_path h 1 = look_path h 0"
  shows "((\<exists>p n. fst (detectAndInitStore h cfg) = Inr (UseVault p n)) \<longleftrightarrow>
       UseClawVault cfg \<noteq> ''false'' \<and> look_path h 0 ''secret-tool'' = None \<and> look_path h 0 ''clawvault'' = None)
     \<and> (UseClawVault cfg = ''true'' \<longrightarrow> (\<exists>p n e. fst (detectAndInitStore h cfg) \<in> {Inr (UseVault p n), Inl e}))"
proof -
  have nf: "newFallbackStore h cfg \<noteq> Inr (UseVault p n)" for p n
    by (auto simp: newFallbackStore_def Let_def split: sum.splits)
  have c: "CheckAvailability look = None \<longleftrightarrow> look ''secret-tool'' = None \<and> look ''clawvault'' = None" for look
    by (auto simp: CheckAvailability_def split: option.splits)
  have a: "CheckAvailability (look_path h 0) = None \<Longrightarrow> Available (detectClawVault h cfg)"
    by (simp add: detectClawVault_def)
  have "(\<exists>p n. fst (detectAndInitStore h cfg) = Inr (UseVault p n)) \<longleftrightarrow>
       UseClawVault cfg \<noteq> ''false'' \<and> look_path h 0 ''secret-tool'' = None \<and> look_path h 0 ''clawvault'' = None"
    using nf a assms by (auto simp: detectAndInitStore_def Let_def c [symmetric] split: option.splits)
  moreover have "UseClawVault cfg = ''true'' \<Longrightarrow> \<exists>p n e. fst (detectAndInitStore h cfg) \<in> {Inr (UseVault p n), Inl e}"
    by (auto simp: detectAndInitStore_def Let_def split: option.splits)
  ultimately show ?thesis by blast
qed

text \<open>A host where nothing but a ClawVault socket is present.\<close>

definition socket_host :: host_env where
  "socket_host = \<lparr>look_path = (\<lambda>_ b. Some (''exec: '' @ b @ '': executable file not found in $PATH'')),
     stat_ok = (\<lambda>p. p = ''/var/run/clawvault.sock''), dial_ok = (\<lambda>_. False), env_var = (\<lambda>_. []),
     home_dir = Inr ''/root'', mkdir_all = (\<lambda>_. None)\<rparr>"

theorem store_selection_witness:
  "Available (detectClawVault socket_host DefaultPAMConfig) \<and>
   \<not> (\<exists>p n. fst (detectAndInitStore socket_host DefaultPAMConfig) = Inr (UseVault p n))"
proof -
  have "Available (detectClawVault socket_host DefaultPAMConfig)" by code_simp
  moreover have "look_path socket_host 1 = look_path socket_host 0" by (simp add: socket_host_def)
  from store_selection [OF this, of DefaultPAMConfig]
  have "\<not> (\<exists>p n. fst (detectAndInitStore socket_host DefaultPAMConfig) = Inr (UseVault p n))"
    by (simp add: socket_host_def)
  ultimately show ?thesis by blast
qed

end
