(* ===== verification/InitData.thy ===== *)
theory InitData
  imports Requests "HOL-Library.Multiset"
begin

text \<open>
  \<open>internal/pam/validation.go\<close>: validation of the signed launch data of a Telegram Mini
  App, and the authorization of its user. Query parsing and number parsing are modelled as
  the standard library does them; HMAC-SHA256, the JSON decoder of the user and two
  formatters used in error texts are arguments.
\<close>

section \<open>Query strings\<close>

definition is_hex :: "char \<Rightarrow> bool" where
  "is_hex c \<longleftrightarrow> from_hex_char c \<noteq> None"

definition unhex :: "char \<Rightarrow> nat" where
  "unhex c = (case from_hex_char c of None \<Rightarrow> 0 | Some d \<Rightarrow> d)"

text \<open>\<open>url.QueryUnescape\<close>; an error carries the text \<open>url.EscapeError\<close> quotes.\<close>

fun query_unescape :: "string \<Rightarrow> string + string" where
  "query_unescape [] = Inr []"
| "query_unescape (c # s) =
     (if c = CHR ''%'' then
        (case s of
           a # b # t \<Rightarrow>
             if is_hex a \<and> is_hex b then
               (case query_unescape t of
                  Inl e \<Rightarrow> Inl e
                | Inr r \<Rightarrow> Inr (char_of (16 * unhex a + unhex b) # r))
             else Inl [c, a, b]
         | _ \<Rightarrow> Inl (c # s))
      else
        (case query_unescape s of
           Inl e \<Rightarrow> Inl e
         | Inr r \<Rightarrow> Inr ((if c = CHR ''+'' then CHR '' '' else c) # r)))"

text \<open>\<open>url.Values\<close> as an association list with distinct keys.\<close>

type_synonym url_values = "(string \<times> string list) list"

fun values_add :: "string \<Rightarrow> string \<Rightarrow> url_values \<Rightarrow> url_values" where
  "values_add k v [] = [(k, [v])]"
| "values_add k v ((k', vs) # m) = (if k' = k then (k', vs @ [v]) # m else (k', vs) # values_add k v m)"

definition values_get :: "url_values \<Rightarrow> string \<Rightarrow> string" where
  "values_get m k = (case map_of m k of Some (v # _) \<Rightarrow> v | _ \<Rightarrow> [])"

text \<open>One \<open>key=value\<close> setting, and the loop of \<open>url.ParseQuery\<close>, which keeps the first error.\<close>

definition parse_setting :: "(string \<Rightarrow> string) \<Rightarrow> string \<Rightarrow> go_error + (string \<times> string)" where
  "parse_setting quote setting =
     (let (k, v, _) = cut (CHR ''='') setting
      in case query_unescape k of
           Inl e \<Rightarrow> Inl (''invalid URL escape '' @ quote e)
         | Inr key \<Rightarrow>
             (case query_unescape v of
                Inl e \<Rightarrow> Inl (''invalid URL escape '' @ quote e)
              | Inr val \<Rightarrow> Inr (key, val)))"

fun parse_settings :: "(string \<Rightarrow> string) \<Rightarrow> string list \<Rightarrow> url_values \<Rightarrow> go_error option \<Rightarrow> url_values \<times> go_error option" where
  "parse_settings quote [] m err = (m, err)"
| "parse_settings quote (x # xs) m err =
     (if CHR '';'' \<in> set x then parse_settings quote xs m (Some ''invalid semicolon separator in query'')
      else if x = [] then parse_settings quote xs m err
      else case parse_setting quote x of
             Inl e \<Rightarrow> parse_settings quote xs m (case err of None \<Rightarrow> Some e | Some _ \<Rightarrow> err)
           | Inr (k, v) \<Rightarrow> parse_settings quote xs (values_add k v m) err)"

definition ParseQuery :: "(string \<Rightarrow> string) \<Rightarrow> string \<Rightarrow> url_values \<times> go_error option" where
  "ParseQuery quote s = parse_settings quote (split_on (CHR ''&'') s) [] None"

section \<open>Numbers and times\<close>

datatype num_error = ErrSyntax | ErrRange

text \<open>The digit loop of \<open>strconv.ParseUint\<close> in base ten with 64 bits.\<close>

fun parse_uint_loop :: "nat \<Rightarrow> string \<Rightarrow> num_error + nat" where
  "parse_uint_loop n [] = Inr n"
| "parse_uint_loop n (c # s) =
     (if \<not> is_digit c then Inl ErrSyntax
      else if n * 10 + digit_val c > 18446744073709551615 then Inl ErrRange
      else parse_uint_loop (n * 10 + digit_val c) s)"

definition ParseInt :: "string \<Rightarrow> num_error + int" where
  "ParseInt s =
     (if s = [] then Inl ErrSyntax
      else
        let neg = (hd s = CHR ''-'');
            digits = (if hd s = CHR ''-'' \<or> hd s = CHR ''+'' then tl s else s)
        in if digits = [] then Inl ErrSyntax
           else case parse_uint_loop 0 digits of
                  Inl e \<Rightarrow> Inl e
                | Inr un \<Rightarrow>
                    if \<not> neg \<and> un \<ge> 9223372036854775808 then Inl ErrRange
                    else if neg \<and> un > 9223372036854775808 then Inl ErrRange
                    else Inr (if neg then - int un else int un))"

definition num_error_text :: "(string \<Rightarrow> string) \<Rightarrow> string \<Rightarrow> num_error \<Rightarrow> go_error" where
  "num_error_text quote s e =
     ''strconv.ParseInt: parsing '' @ quote s @
     (case e of ErrSyntax \<Rightarrow> '': invalid syntax'' | ErrRange \<Rightarrow> '': value out of range'')"

text \<open>\<open>time.Unix(sec, 0)\<close>: seconds are kept from the year 1 in an \<open>int64\<close>, which wraps.\<close>

definition time_Unix :: "int \<Rightarrow> gotime" where
  "time_Unix sec = (wrap64 (sec + 62135596800) - 62135596800) * nanosecond_per_second"

section \<open>Validation\<close>

record TGUser =
  TGID :: int
  FirstName :: string
  LastName :: string
  Username :: string
  Language :: string

record InitData =
  QueryID :: string
  InitUser :: "TGUser option"
  AuthDate :: gotime
  Hash :: string
  Raw :: string

record validation_env =
  hmac_sha256 :: "string \<Rightarrow> string \<Rightarrow> string" \<comment> \<open>key and message\<close>
  json_user :: "string \<Rightarrow> go_error + TGUser"
  strconv_quote :: "string \<Rightarrow> string"
  duration_text :: "duration \<Rightarrow> string"
  key_order :: "string list \<Rightarrow> string list" \<comment> \<open>the order in which \<open>range\<close> visits the keys\<close>

definition computeHMACSHA256Bytes :: "validation_env \<Rightarrow> string \<Rightarrow> string \<Rightarrow> string" where
  "computeHMACSHA256Bytes env data key = hmac_sha256 env key data"

definition computeHMACSHA256 :: "validation_env \<Rightarrow> string \<Rightarrow> string \<Rightarrow> string" where
  "computeHMACSHA256 env data key = hex_encode (hmac_sha256 env key data)"

definition parseUser :: "validation_env \<Rightarrow> string \<Rightarrow> go_error + TGUser" where
  "parseUser env userData =
     (case query_unescape userData of
        Inl e \<Rightarrow> Inl (''invalid URL escape '' @ strconv_quote env e)
      | Inr decoded \<Rightarrow>
          if decoded = [] then Inl ''empty user data''
          else case json_user env decoded of
                 Inl e \<Rightarrow> Inl (''parse user JSON: '' @ e)
               | Inr user \<Rightarrow> Inr user)"

definition buildDataCheckString :: "validation_env \<Rightarrow> url_values \<Rightarrow> string" where
  "buildDataCheckString env params =
     (let keys = sort (filter (\<lambda>k. k \<noteq> ''hash'') (key_order env (map fst params)));
          parts = map (\<lambda>k. k @ ''='' @ values_get params k) keys
      in join parts [CHR 0x0A])"

text \<open>The signature the code expects for given parameters and bot token.\<close>

definition expected_hash :: "validation_env \<Rightarrow> string \<Rightarrow> url_values \<Rightarrow> string" where
  "expected_hash env botToken params =
     (let dataCheckString = buildDataCheckString env params;
          secretKey = computeHMACSHA256Bytes env botToken ''WebAppData'';
          expectedHashBytes = computeHMACSHA256Bytes env dataCheckString secretKey
      in hex_encode expectedHashBytes)"

definition clockSkew :: duration where
  "clockSkew = dur_times 5 time_Minute"

text \<open>The optional user: absent or empty is not an error.\<close>

definition user_of :: "validation_env \<Rightarrow> url_values \<Rightarrow> go_error + TGUser option" where
  "user_of env params =
     (if values_get params ''user'' = [] then Inr None
      else case parseUser env (values_get params ''user'') of
             Inl e \<Rightarrow> Inl (''parse user: '' @ e)
           | Inr u \<Rightarrow> Inr (Some u))"

definition ValidateInitData ::
  "validation_env \<Rightarrow> gotime \<Rightarrow> string \<Rightarrow> string \<Rightarrow> duration \<Rightarrow> go_error + InitData" where
  "ValidateInitData env now initDataString botToken maxAge =
     (if initDataString = [] then Inl ''empty initData''
      else case ParseQuery (strconv_quote env) initDataString of
        (params, Some e) \<Rightarrow> Inl (''parse initData: '' @ e)
      | (params, None) \<Rightarrow>
      if values_get params ''hash'' = [] then Inl ''missing hash''
      else if values_get params ''auth_date'' = [] then Inl ''missing auth_date''
      else case ParseInt (values_get params ''auth_date'') of
        Inl e \<Rightarrow> Inl (''parse auth_date: '' @ num_error_text (strconv_quote env) (values_get params ''auth_date'') e)
      | Inr authDateUnix \<Rightarrow>
      let authDate = time_Unix authDateUnix
      in if time_after authDate (time_add now clockSkew) then
        Inl ''auth_date is in the future (possible clock skew or replay attack)''
      else if maxAge > 0 \<and> time_sub now authDate > maxAge then
        Inl (''initData expired (age: '' @ duration_text env (time_sub now authDate) @
             '', max: '' @ duration_text env maxAge @ '')'')
      else case user_of env params of
        Inl e \<Rightarrow> Inl e
      | Inr user \<Rightarrow>
      if expected_hash env botToken params \<noteq> values_get params ''hash'' then
        Inl ''invalid hash (possible spoofing attempt)''
      else
        Inr \<lparr>QueryID = values_get params ''query_id'', InitUser = user, AuthDate = authDate,
             Hash = values_get params ''hash'', Raw = initDataString\<rparr>)"

definition ValidateInitDataFromRequest ::
  "validation_env \<Rightarrow> gotime \<Rightarrow> string \<Rightarrow> string \<Rightarrow> go_error + InitData" where
  "ValidateInitDataFromRequest env now initData botToken =
     ValidateInitData env now initData botToken (dur_times 24 time_Hour)"

text \<open>A nil pointer is \<open>None\<close>.\<close>

definition InitDataToUserID :: "InitData option \<Rightarrow> string" where
  "InitDataToUserID initData =
     (case initData of
        None \<Rightarrow> []
      | Some d \<Rightarrow> (case InitUser d of None \<Rightarrow> [] | Some u \<Rightarrow> ''tg:'' @ show_int (TGID u)))"

definition IsAuthorizedUser :: "InitData option \<Rightarrow> User list \<Rightarrow> bool" where
  "IsAuthorizedUser initData allowedUsers =
     (case initData of
        None \<Rightarrow> False
      | Some d \<Rightarrow>
          (case InitUser d of
             None \<Rightarrow> False
           | Some u \<Rightarrow> list_ex (\<lambda>user. TelegramID user = TGID u) allowedUsers))"

definition CheckAuthorization :: "InitData option \<Rightarrow> User list \<Rightarrow> go_error option" where
  "CheckAuthorization initData allowedUsers =
     (case initData of
        None \<Rightarrow> Some ''missing user data in initData''
      | Some d \<Rightarrow>
          (case InitUser d of
             None \<Rightarrow> Some ''missing user data in initData''
           | Some u \<Rightarrow>
               if allowedUsers = [] then Some ''no authorized users configured''
               else if \<not> IsAuthorizedUser initData allowedUsers then
                 Some (''user '' @ show_int (TGID u) @ '' not authorized'')
               else None))"

section \<open>Encoding launch data\<close>

text \<open>
  The reference encoder: \<open>url.QueryEscape\<close>, the query string of a list of parameters,
  and what Telegram sends, the parameters followed by their signature.
\<close>

definition unreserved :: "char \<Rightarrow> bool" where
  "unreserved c \<longleftrightarrow>
     (let b = of_char c :: nat
      in (97 \<le> b \<and> b \<le> 122) \<or> (65 \<le> b \<and> b \<le> 90) \<or> (48 \<le> b \<and> b \<le> 57) \<or> b \<in> {45, 95, 46, 126})"

definition escape_char :: "char \<Rightarrow> string" where
  "escape_char c =
     (if c = CHR '' '' then ''+''
      else if unreserved c then [c]
      else [CHR ''%'', hex_upper (of_char c div 16), hex_upper (of_char c mod 16)])"

definition query_escape :: "string \<Rightarrow> string" where
  "query_escape s = concat (map escape_char s)"

definition encode_setting :: "string \<times> string \<Rightarrow> string" where
  "encode_setting kv = query_escape (fst kv) @ ''='' @ query_escape (snd kv)"

definition encode_params :: "(string \<times> string) list \<Rightarrow> string" where
  "encode_params ps = join (map encode_setting ps) ''&''"

definition single_values :: "(string \<times> string) list \<Rightarrow> url_values" where
  "single_values ps = map (\<lambda>(k, v). (k, [v])) ps"

definition sign_params :: "validation_env \<Rightarrow> string \<Rightarrow> (string \<times> string) list \<Rightarrow> (string \<times> string) list" where
  "sign_params env botToken ps = ps @ [(''hash'', expected_hash env botToken (single_values ps))]"

lemma from_hex_upper: "d < 16 \<Longrightarrow> from_hex_char (hex_upper d) = Some d"
  by (auto simp: from_hex_char_def hex_upper_def Let_def)

lemma nibbles: "(of_char c :: nat) div 16 < 16" "(of_char c :: nat) mod 16 < 16"
  "char_of (16 * ((of_char c :: nat) div 16) + of_char c mod 16) = c"
  using of_char_less_256 [of c] by (simp_all add: less_mult_imp_div_less)

lemma unescape_escape_char:
  "query_unescape (escape_char c @ s) =
     (case query_unescape s of Inl e \<Rightarrow> Inl e | Inr r \<Rightarrow> Inr (c # r))"
proof (cases "c = CHR '' '' \<or> unreserved c")
  case True
  have "unreserved c \<Longrightarrow> c \<noteq> CHR ''%'' \<and> c \<noteq> CHR ''+''" by (auto simp: unreserved_def)
  with True show ?thesis by (auto simp: escape_char_def split: sum.split)
next
  case False
  then show ?thesis
    by (simp add: escape_char_def is_hex_def unhex_def from_hex_upper nibbles split: sum.split)
qed

lemma unescape_escape: "query_unescape (query_escape s) = Inr s"
  by (induction s) (simp_all add: query_escape_def unescape_escape_char)

lemma hex_upper_unreserved: "d < 16 \<Longrightarrow> unreserved (hex_upper d)"
  by (auto simp: unreserved_def hex_upper_def Let_def)

lemma escape_chars: "x \<in> set (query_escape s) \<Longrightarrow> unreserved x \<or> x = CHR ''+'' \<or> x = CHR ''%''"
  using hex_upper_unreserved nibbles(1,2)
  by (auto simp: query_escape_def escape_char_def split: if_splits)

lemma escape_safe:
  "CHR ''='' \<notin> set (query_escape s)" "CHR ''&'' \<notin> set (query_escape s)" "CHR '';'' \<notin> set (query_escape s)"
  using escape_chars [of _ s] by (fastforce simp: unreserved_def)+

lemma parse_encode_setting: "parse_setting quote (encode_setting kv) = Inr kv"
  by (simp add: parse_setting_def encode_setting_def cut_append_sep escape_safe unescape_escape)

lemma values_add_new: "k \<notin> fst ` set m \<Longrightarrow> values_add k v m = m @ [(k, [v])]"
  by (induction m) auto

lemma parse_settings_encode:
  "distinct (map fst ps) \<Longrightarrow> fst ` set ps \<inter> fst ` set m = {} \<Longrightarrow>
     parse_settings quote (map encode_setting ps) m err = (m @ single_values ps, err)"
proof (induction ps arbitrary: m)
  case (Cons p ps)
  have "CHR '';'' \<notin> set (encode_setting p)" "encode_setting p \<noteq> []"
    by (simp_all add: encode_setting_def escape_safe)
  moreover have "values_add (fst p) (snd p) m = m @ [(fst p, [snd p])]"
    using Cons.prems by (intro values_add_new) auto
  moreover have "parse_settings quote (map encode_setting ps) (m @ [(fst p, [snd p])]) err =
      ((m @ [(fst p, [snd p])]) @ single_values ps, err)"
    using Cons.prems by (intro Cons.IH) auto
  ultimately show ?case
    by (cases p) (simp add: parse_encode_setting single_values_def)
qed (simp add: single_values_def)

lemma ParseQuery_encode:
  "distinct (map fst ps) \<Longrightarrow> ParseQuery quote (encode_params ps) = (single_values ps, None)"
proof (cases "ps = []")
  case False
  assume d: "distinct (map fst ps)"
  have "split_on (CHR ''&'') (encode_params ps) = map encode_setting ps"
    using False unfolding encode_params_def
    by (intro split_on_join) (auto simp: encode_setting_def escape_safe)
  then show ?thesis using d by (simp add: ParseQuery_def parse_settings_encode)
qed (simp add: ParseQuery_def encode_params_def single_values_def)

lemma values_get_single:
  "values_get (single_values ps) k = (case map_of ps k of None \<Rightarrow> [] | Some v \<Rightarrow> v)"
  by (induction ps) (auto simp: single_values_def values_get_def)

section \<open>The data check string is canonical\<close>

text \<open>Iterating over a map visits every key once, in some order.\<close>

definition order_ok :: "validation_env \<Rightarrow> bool" where
  "order_ok env \<longleftrightarrow> (\<forall>ks. mset (key_order env ks) = mset ks)"

definition canonical_check_string :: "url_values \<Rightarrow> string" where
  "canonical_check_string params =
     join (map (\<lambda>k. k @ ''='' @ values_get params k) (sort (filter (\<lambda>k. k \<noteq> ''hash'') (map fst params))))
       [CHR 0x0A]"

lemma check_string_canonical:
  "order_ok env \<Longrightarrow> buildDataCheckString env params = canonical_check_string params"
proof -
  assume "order_ok env"
  then have "mset (filter (\<lambda>k. k \<noteq> ''hash'') (key_order env (map fst params))) =
      mset (filter (\<lambda>k. k \<noteq> ''hash'') (map fst params))"
    by (simp only: order_ok_def mset_filter)
  then have "sort (filter (\<lambda>k. k \<noteq> ''hash'') (key_order env (map fst params))) =
      sort (filter (\<lambda>k. k \<noteq> ''hash'') (map fst params))"
    by (intro properties_for_sort) (simp_all del: mset_filter)
  then show ?thesis by (simp only: buildDataCheckString_def canonical_check_string_def Let_def)
qed

lemma canonical_perm:
  assumes "mset ps = mset qs" "distinct (map fst ps)"
  shows "canonical_check_string (single_values ps) = canonical_check_string (single_values qs)"
proof -
  have fst: "map fst (single_values xs) = map fst xs" for xs by (simp add: single_values_def comp_def split_beta)
  have m: "mset (map fst ps) = mset (map fst qs)" using assms(1) by simp
  then have d: "distinct (map fst qs)" using assms(2) by (metis mset_eq_imp_distinct_iff)
  have "mset (filter (\<lambda>k. k \<noteq> ''hash'') (map fst ps)) = mset (filter (\<lambda>k. k \<noteq> ''hash'') (map fst qs))"
    by (simp only: mset_filter m)
  then have "sort (filter (\<lambda>k. k \<noteq> ''hash'') (map fst ps)) = sort (filter (\<lambda>k. k \<noteq> ''hash'') (map fst qs))"
    by (intro properties_for_sort) (simp_all only: mset_sort sorted_sort)
  moreover have "map_of ps = map_of qs"
    using mset_eq_setD [OF assms(1)] by (simp only: map_of_inject_set [OF assms(2) d])
  ultimately show ?thesis by (simp only: canonical_check_string_def fst values_get_single)
qed

lemma canonical_hash_ignored:
  "''hash'' \<notin> fst ` set ps \<Longrightarrow>
     canonical_check_string (single_values (ps @ [(''hash'', h)])) = canonical_check_string (single_values ps)"
proof -
  assume a: "''hash'' \<notin> fst ` set ps"
  have fst: "map fst (single_values xs) = map fst xs" for xs by (simp add: single_values_def comp_def split_beta)
  have "values_get (single_values (ps @ [(''hash'', h)])) k = values_get (single_values ps) k" if "k \<noteq> ''hash''" for k
    using that by (simp add: values_get_single map_of_append map_add_def split: option.split)
  then have "map (\<lambda>k. k @ ''='' @ values_get (single_values (ps @ [(''hash'', h)])) k)
        (sort (filter (\<lambda>k. k \<noteq> ''hash'') (map fst ps))) =
      map (\<lambda>k. k @ ''='' @ values_get (single_values ps) k) (sort (filter (\<lambda>k. k \<noteq> ''hash'') (map fst ps)))"
    by (intro map_cong refl) simp
  note eq = this
  have f: "filter (\<lambda>k. k \<noteq> ''hash'') (map fst (ps @ [(''hash'', h)])) = filter (\<lambda>k. k \<noteq> ''hash'') (map fst ps)"
    by simp
  show ?thesis unfolding canonical_check_string_def fst f eq ..
qed

section \<open>Properties\<close>

definition toy_user :: TGUser where
  "toy_user = \<lparr>TGID = 42, FirstName = ''Ada'', LastName = [], Username = [], Language = []\<rparr>"

definition toy_venv :: validation_env where
  "toy_venv = \<lparr>hmac_sha256 = (\<lambda>k d. show_nat (length k + 7 * length d)), json_user = (\<lambda>_. Inr toy_user),
     strconv_quote = (\<lambda>s. s), duration_text = (\<lambda>_. []), key_order = rev\<rparr>"

definition toy_params :: "(string \<times> string) list" where
  "toy_params = [(''user'', ''{\"id\":42,\"first_name\":\"Ada\"}''), (''auth_date'', ''1700000000''), (''query_id'', ''AA b'')]"

definition toy_query :: string where
  "toy_query = encode_params (sign_params toy_venv ''123:abc'' toy_params)"



text \<open>
  C9: validation is complete: a list of parameters with distinct names, signed with the
  bot token and sent as a query string, is accepted whenever its \<open>auth_date\<close> is fresh and
  its user, if present, decodes; the order of the parameters in the query and the order in
  which the program visits the map play no role.
\<close>

theorem ValidateInitData_complete:
  assumes "order_ok env" "distinct (map fst ps)" "''hash'' \<notin> fst ` set ps"
    "expected_hash env botToken (single_values ps) \<noteq> []"
    "map_of ps ''auth_date'' = Some a" "ParseInt a = Inr n"
    "time_Unix n \<le> now + 300000000000" "time_sub now (time_Unix n) \<le> maxAge"
    "user_of env (single_values ps) = Inr u"
    "mset qs = mset (sign_params env botToken ps)"
  shows "ValidateInitData env now (encode_params qs) botToken maxAge =
     Inr \<lparr>QueryID = values_get (single_values ps) ''query_id'', InitUser = u, AuthDate = time_Unix n,
          Hash = expected_hash env botToken (single_values ps), Raw = encode_params qs\<rparr>"
proof -
  let ?h = "expected_hash env botToken (single_values ps)"
  let ?ss = "ps @ [(''hash'', ?h)]"
  have mset: "mset qs = mset ?ss" using assms(10) by (simp add: sign_params_def)
  have d: "distinct (map fst ?ss)" using assms(2,3) by auto
  have "mset (map fst qs) = mset (map fst ?ss)" using mset by simp
  then have dq: "distinct (map fst qs)" using d by (metis mset_eq_imp_distinct_iff)
  have "map_of qs = map_of ?ss"
    using mset_eq_setD [OF mset] by (simp only: map_of_inject_set [OF dq d])
  then have get: "values_get (single_values qs) k = values_get (single_values ?ss) k" for k
    by (simp only: values_get_single)
  have gethash: "values_get (single_values qs) ''hash'' = ?h"
    unfolding get using assms(3) by (simp add: values_get_single map_of_append map_add_def map_of_eq_None_iff [symmetric])
  have getother: "values_get (single_values qs) k = values_get (single_values ps) k" if "k \<noteq> ''hash''" for k
    unfolding get using that by (simp add: values_get_single map_of_append map_add_def split: option.split)
  have "expected_hash env botToken (single_values qs) = ?h"
    using canonical_perm [OF mset dq] canonical_hash_ignored [OF assms(3), of ?h]
    by (simp add: expected_hash_def check_string_canonical [OF assms(1)])
  moreover have "user_of env (single_values qs) = user_of env (single_values ps)"
    by (simp add: user_of_def getother)
  moreover have "encode_params qs \<noteq> []"
  proof -
    have "qs \<noteq> []" using mset by auto
    then show ?thesis by (cases qs) (auto simp: encode_params_def join_Cons encode_setting_def)
  qed
  moreover have "values_get (single_values ps) ''auth_date'' = a" by (simp add: values_get_single assms(5))
  moreover have "a \<noteq> []" using assms(6) by (auto simp: ParseInt_def)
  moreover have "clockSkew = 300000000000" by (simp add: clockSkew_def dur_times_minute)
  ultimately show ?thesis using assms(4,6-9)
    by (simp add: ValidateInitData_def ParseQuery_encode [OF dq] gethash getother time_after_def time_add_def
        Let_def not_less)
qed

theorem ValidateInitData_complete_witness:
  "\<exists>d. ValidateInitData toy_venv 1700000100000000000 (encode_params (rev (sign_params toy_venv ''123:abc'' toy_params)))
     ''123:abc'' 86400000000000 = Inr d \<and> InitUser d = Some toy_user"
proof -
  have o: "order_ok toy_venv" by (simp add: order_ok_def toy_venv_def)
  have d: "distinct (map fst toy_params)" and h: "''hash'' \<notin> fst ` set toy_params"
    and e: "expected_hash toy_venv ''123:abc'' (single_values toy_params) \<noteq> []"
    and a: "map_of toy_params ''auth_date'' = Some ''1700000000''"
    and n: "ParseInt ''1700000000'' = Inr 1700000000"
    and t: "time_Unix 1700000000 \<le> 1700000100000000000 + 300000000000"
    and f: "time_sub 1700000100000000000 (time_Unix 1700000000) \<le> 86400000000000"
    and u: "user_of toy_venv (single_values toy_params) = Inr (Some toy_user)" by code_simp+
  have m: "mset (rev (sign_params toy_venv ''123:abc'' toy_params)) = mset (sign_params toy_venv ''123:abc'' toy_params)"
    by simp
  from ValidateInitData_complete [OF o d h e a n t f u m] show ?thesis by simp
qed

text \<open>
  The user value is decoded twice, by the query parser and again by \<open>parseUser\<close>: a
  user whose JSON holds a percent sign that does not start an escape, in a name for
  instance, is refused however correct the signature is.
\<close>

theorem user_decoded_twice:
  assumes "distinct (map fst qs)" "map_of qs ''user'' = Some v" "query_unescape v = Inl e"
  shows "\<not> is_ok (ValidateInitData env now (encode_params qs) botToken maxAge)"
proof -
  have "v \<noteq> []" using assms(3) by auto
  then have "\<exists>x. user_of env (single_values qs) = Inl x"
    using assms(2,3) by (simp add: user_of_def values_get_single parseUser_def)
  then show ?thesis
    by (auto simp: ValidateInitData_def ParseQuery_encode [OF assms(1)] Let_def split: sum.splits if_splits)
qed

definition percent_params :: "(string \<times> string) list" where
  "percent_params = [(''user'', ''{\"id\":42,\"first_name\":\"100%\"}''), (''auth_date'', ''1700000000'')]"

theorem user_decoded_twice_witness:
  "\<not> is_ok (ValidateInitData toy_venv 1700000100000000000
     (encode_params (sign_params toy_venv ''123:abc'' percent_params)) ''123:abc'' 86400000000000)"
proof (rule user_decoded_twice)
  show "distinct (map fst (sign_params toy_venv ''123:abc'' percent_params))" by code_simp
  show "map_of (sign_params toy_venv ''123:abc'' percent_params) ''user'' = Some ''{\"id\":42,\"first_name\":\"100%\"}''"
    by code_simp
  show "query_unescape ''{\"id\":42,\"first_name\":\"100%\"}'' = Inl ''%\"}''" by code_simp
qed

lemma CheckAuthorization_iff:
  "CheckAuthorization initData allowed = None \<longleftrightarrow>
     (\<exists>d u. initData = Some d \<and> InitUser d = Some u \<and> TGID u \<in> TelegramID ` set allowed)"
  by (auto simp: CheckAuthorization_def IsAuthorizedUser_def list_ex_iff image_iff split: option.splits)
    (metis)

text \<open>
  Authorization fails closed: \<open>CheckAuthorization\<close> succeeds exactly when the data
  names a user and the list of allowed users holds that identifier; in particular an empty
  list or data without a user is refused.
\<close>

theorem CheckAuthorization_fail_closed:
  "CheckAuthorization initData allowed = None \<longleftrightarrow>
     (\<exists>d u. initData = Some d \<and> InitUser d = Some u \<and> TGID u \<in> TelegramID ` set allowed)"
  by (rule CheckAuthorization_iff)

end
