(* ===== verification/PamHandler.thy ===== *)
theory PamHandler
  imports Http Tokens InitData Executor SqliteStore
begin

text \<open>
  \<open>internal/pam/handlers.go\<close>: the HTTP handler of the biometric approval flow. It works
  on any request store and any token store, given as records of functions; its state is the
  pair of their states. Where a handler makes several calls, other goroutines may act on
  the stores in between: they are the functions of the record \<open>interference\<close>.
\<close>

section \<open>The handler and its requests\<close>

record ('s, 't) Handler =
  pam_tokens :: "'t TokenStore"
  pam_ttl :: int \<comment> \<open>\<open>Fallback.TTLMinutes\<close> of the PAM configuration\<close>
  pam_mode :: string
  requestStore :: "'s RequestStore"
  botToken :: string
  allowedUsers :: "User list"
  hAllowedCommands :: "string list"
  requestTTL :: duration

record ('s, 't) pam_state =
  req_state :: 's
  tok_state :: 't

record ('s, 't) interference =
  between_tokens :: "'t \<Rightarrow> 't" \<comment> \<open>between the two locks of \<open>RetrieveToken\<close>\<close>
  before_update :: "'s \<Rightarrow> 's" \<comment> \<open>between \<open>Get\<close> and \<open>UpdateStateIf\<close>\<close>

record EnrollRequest =
  en_InitData :: string
  en_DeviceInfo :: string
  en_BiometricToken :: string

record ApproveRequest =
  ap_InitData :: string
  ap_BiometricToken :: string
  ap_RequestID :: string

record DenyRequest =
  dn_InitData :: string
  dn_BiometricToken :: string
  dn_RequestID :: string
  dn_Reason :: string

record CreateRequestRequest =
  cr_InitData :: string
  cr_Command :: string
  cr_Reason :: string
  cr_Requester :: string
  cr_TargetSystem :: string
  cr_NotifyChatID :: int

text \<open>The JSON decoders of the bodies, the validation primitives and the fresh identifier.\<close>

record pam_env =
  venv :: validation_env
  decode_enroll :: "string \<Rightarrow> go_error + EnrollRequest"
  decode_approve :: "string \<Rightarrow> go_error + ApproveRequest"
  decode_deny :: "string \<Rightarrow> go_error + DenyRequest"
  decode_create :: "string \<Rightarrow> go_error + CreateRequestRequest"
  uuid :: string

definition NewHandler ::
  "'t TokenStore \<Rightarrow> int \<Rightarrow> string \<Rightarrow> 's RequestStore \<Rightarrow> string \<Rightarrow> User list \<Rightarrow> string list \<Rightarrow> int \<Rightarrow>
     ('s, 't) Handler" where
  "NewHandler ts ttl mode store token users commands ttlMinutes =
     (let ttlMinutes = (if ttlMinutes \<le> 0 then 5 else ttlMinutes)
      in \<lparr>pam_tokens = ts, pam_ttl = ttl, pam_mode = mode, requestStore = store, botToken = token,
          allowedUsers = users, hAllowedCommands = commands,
          requestTTL = dur_times ttlMinutes time_Minute\<rparr>)"

section \<open>Command matching\<close>

text \<open>
  The handler has a tokenizer and a matcher of its own, which know no quotes; the check for
  metacharacters is the same as the executor's.
\<close>

fun pam_tokenize_loop :: "rune list \<Rightarrow> string list \<Rightarrow> rune list \<Rightarrow> string list \<times> rune list" where
  "pam_tokenize_loop [] tokens cur = (tokens, cur)"
| "pam_tokenize_loop (ch # s) tokens cur =
     (if ch = 32 \<or> ch = 9 \<or> ch = 10 \<or> ch = 13 then
        (if cur \<noteq> [] then pam_tokenize_loop s (tokens @ [string_of_runes cur]) []
         else pam_tokenize_loop s tokens cur)
      else pam_tokenize_loop s tokens (cur @ [ch]))"

definition pam_tokenizeCommand :: "string \<Rightarrow> string list" where
  "pam_tokenizeCommand s =
     (let (tokens, cur) = pam_tokenize_loop (runes s) [] []
      in if cur \<noteq> [] then tokens @ [string_of_runes cur] else tokens)"

definition matchCommand :: "string \<Rightarrow> string \<Rightarrow> bool" where
  "matchCommand pattern command =
     (if pattern = ''*'' then True
      else if pattern = command then True
      else
        let patternTokens = pam_tokenizeCommand pattern;
            commandTokens = pam_tokenizeCommand command
        in if patternTokens = [] \<or> commandTokens = [] then False
           else
             let hasWildcard = (last patternTokens = ''*'');
                 matchTokens = (if hasWildcard then butlast patternTokens else patternTokens)
             in if length commandTokens < length matchTokens then False
                else if \<not> hasWildcard \<and> length commandTokens \<noteq> length matchTokens then False
                else if \<not> tokens_agree matchTokens commandTokens then False
                else if \<exists>t \<in> set commandTokens. containsShellMetacharacters t then False
                else True)"

definition isCommandAllowed :: "('s, 't) Handler \<Rightarrow> string \<Rightarrow> bool" where
  "isCommandAllowed h command =
     (if hAllowedCommands h = [] then False
      else list_ex (\<lambda>pattern. matchCommand pattern command) (hAllowedCommands h))"

section \<open>Authorization\<close>

text \<open>The type assertion on \<open>*DBRequestStore\<close> is the field \<open>DBOps\<close> of the store.\<close>

definition checkAuthorization ::
  "('s, 't) Handler \<Rightarrow> InitData \<Rightarrow> ('s, 't) pam_state \<Rightarrow> ('s, 't) pam_state \<times> go_error option" where
  "checkAuthorization h initData s =
     (if allowedUsers h = [] then
        (case DBOps (requestStore h) of
           None \<Rightarrow> (s, CheckAuthorization (Some initData) (allowedUsers h))
         | Some ops \<Rightarrow>
             let (s1, q) = GetAuthorizedUsers ops (req_state s); s' = s\<lparr>req_state := s1\<rparr>
             in case q of
                  Inl e \<Rightarrow> (s', Some ''no authorized users configured'')
                | Inr users \<Rightarrow>
                    if users = [] then (s', Some ''no authorized users configured'')
                    else (s', CheckAuthorization (Some initData) users))
      else (s, CheckAuthorization (Some initData) (allowedUsers h)))"

definition loadAllowedUsers :: "'s RequestStore \<Rightarrow> 's \<Rightarrow> 's \<times> User list" where
  "loadAllowedUsers store s =
     (case DBOps store of
        None \<Rightarrow> (s, [])
      | Some ops \<Rightarrow> (case GetAuthorizedUsers ops s of (s1, Inl e) \<Rightarrow> (s1, []) | (s1, Inr users) \<Rightarrow> (s1, users)))"

section \<open>Enrolment\<close>

definition handleEnroll ::
  "('s, 't) Handler \<Rightarrow> pam_env \<Rightarrow> clock \<Rightarrow> http_request \<Rightarrow> ('s, 't) pam_state \<Rightarrow>
     ('s, 't) pam_state \<times> http_response" where
  "handleEnroll h env clk r s =
     (if Method r \<noteq> ''POST'' then (s, http_Error ''method not allowed'' StatusMethodNotAllowed)
      else case decode_enroll env (ReqBody r) of
        Inl _ \<Rightarrow> (s, respondError StatusBadRequest ''invalid request body'')
      | Inr req \<Rightarrow>
      case ValidateInitDataFromRequest (venv env) (clk 0) (en_InitData req) (botToken h) of
        Inl err \<Rightarrow> (s, respondError StatusUnauthorized (''invalid initData: '' @ err))
      | Inr initData \<Rightarrow>
      if en_BiometricToken req = [] then (s, respondError StatusBadRequest ''biometric token required'')
      else case checkAuthorization h initData s of
        (s1, Some err) \<Rightarrow> (s1, respondError StatusForbidden err)
      | (s1, None) \<Rightarrow>
      let userID = InitDataToUserID (Some initData);
          token = \<lparr>TokenValue = en_BiometricToken req, DeviceInfo = en_DeviceInfo req,
                   EnrolledAt = clk 1, LastUsedAt = clk 2, TokenStorage = ''local''\<rparr>
      in case StoreToken (pam_tokens h) userID token (tok_state s1) of
        (t2, Some err) \<Rightarrow>
          (s1\<lparr>tok_state := t2\<rparr>, respondError StatusInternalServerError (''failed to store token: '' @ err))
      | (t2, None) \<Rightarrow>
          (s1\<lparr>tok_state := t2\<rparr>,
           respond (JObj ([(''success'', JBool True), (''message'', JStr ''Device enrolled successfully'')] @
                          (if userID = [] then [] else [(''user_id'', JStr userID)])))))"

section \<open>Approval and denial\<close>

text \<open>
  The two handlers share their body word for word up to the new state and the final message:
  first the checks of the caller and of the biometric token (\<open>verify_caller\<close>), then the
  decision on the request (\<open>decide_request\<close>). An \<open>Inl\<close> is the response that ends the
  handler early.
\<close>

definition verify_caller ::
  "('s, 't) Handler \<Rightarrow> pam_env \<Rightarrow> clock \<Rightarrow> ('s, 't) interference \<Rightarrow> string \<Rightarrow> string \<Rightarrow>
     ('s, 't) pam_state \<Rightarrow> ('s, 't) pam_state \<times> (http_response + string)" where
  "verify_caller h env clk oth biometric initDataString s =
     (if biometric = [] then (s, Inl (respondError StatusBadRequest ''biometric token required''))
      else case ValidateInitDataFromRequest (venv env) (clk 0) initDataString (botToken h) of
        Inl err \<Rightarrow> (s, Inl (respondError StatusUnauthorized (''invalid initData: '' @ err)))
      | Inr initData \<Rightarrow>
      case checkAuthorization h initData s of
        (s1, Some err) \<Rightarrow> (s1, Inl (respondError StatusForbidden err))
      | (s1, None) \<Rightarrow>
      let userID = InitDataToUserID (Some initData)
      in case RetrieveToken (pam_tokens h) (pam_ttl h) (clk_from 1 clk) (between_tokens oth) userID (tok_state s1) of
        (t2, Inl _) \<Rightarrow> (s1\<lparr>tok_state := t2\<rparr>, Inl (respondError StatusUnauthorized ''no enrolled device found''))
      | (t2, Inr None) \<Rightarrow> (s1\<lparr>tok_state := t2\<rparr>, Inl (respondError StatusUnauthorized ''no enrolled device found''))
      | (t2, Inr (Some storedToken)) \<Rightarrow>
          if TokenValue storedToken \<noteq> biometric then
            (s1\<lparr>tok_state := t2\<rparr>, Inl (respondError StatusUnauthorized ''biometric token mismatch''))
          else case StoreToken (pam_tokens h) userID (storedToken\<lparr>LastUsedAt := clk 3\<rparr>) t2 of
            (t3, Some err) \<Rightarrow>
              (s1\<lparr>tok_state := t3\<rparr>, Inl (respondError StatusInternalServerError (''failed to update token usage: '' @ err)))
          | (t3, None) \<Rightarrow> (s1\<lparr>tok_state := t3\<rparr>, Inr userID))"

definition decide_request ::
  "('s, 't) Handler \<Rightarrow> clock \<Rightarrow> ('s, 't) interference \<Rightarrow> string \<Rightarrow> string \<Rightarrow> string \<Rightarrow> string \<Rightarrow>
     ('s, 't) pam_state \<Rightarrow> ('s, 't) pam_state \<times> http_response" where
  "decide_request h clk oth newState message requestID userID s =
     (case Get (requestStore h) requestID (req_state s) of
        (s1, Inl err) \<Rightarrow>
          (s\<lparr>req_state := s1\<rparr>, respondError StatusInternalServerError (''store error: '' @ err))
      | (s1, Inr None) \<Rightarrow> (s\<lparr>req_state := s1\<rparr>, respondError StatusNotFound ''request not found'')
      | (s1, Inr (Some pending)) \<Rightarrow>
          if time_after (clk 4) (ExpiresAt pending) then
            (let (s2, _) = UpdateStateIf (requestStore h) (clk_from 5 clk) (ID pending) ''pending'' ''expired'' []
                             (before_update oth s1)
             in (s\<lparr>req_state := s2\<rparr>, respondError StatusGone ''request expired''))
          else
            (case UpdateStateIf (requestStore h) (clk_from 5 clk) requestID ''pending'' newState userID
                    (before_update oth s1) of
               (s2, Inl err) \<Rightarrow>
                 (s\<lparr>req_state := s2\<rparr>,
                  respondError StatusInternalServerError (''failed to update request: '' @ err))
             | (s2, Inr success) \<Rightarrow>
                 if \<not> success then
                   (s\<lparr>req_state := s2\<rparr>, respondError StatusConflict ''request already processed'')
                 else
                   (s\<lparr>req_state := s2\<rparr>,
                    respond (JObj ([(''success'', JBool True), (''message'', JStr message)] @
                                   (if requestID = [] then [] else [(''request_id'', JStr requestID)]))))))"

definition handleApprove ::
  "('s, 't) Handler \<Rightarrow> pam_env \<Rightarrow> clock \<Rightarrow> ('s, 't) interference \<Rightarrow> http_request \<Rightarrow> ('s, 't) pam_state \<Rightarrow>
     ('s, 't) pam_state \<times> http_response" where
  "handleApprove h env clk oth r s =
     (if Method r \<noteq> ''POST'' then (s, http_Error ''method not allowed'' StatusMethodNotAllowed)
      else case decode_approve env (ReqBody r) of
        Inl _ \<Rightarrow> (s, respondError StatusBadRequest ''invalid request body'')
      | Inr req \<Rightarrow>
      case verify_caller h env clk oth (ap_BiometricToken req) (ap_InitData req) s of
        (s1, Inl resp) \<Rightarrow> (s1, resp)
      | (s1, Inr userID) \<Rightarrow>
          decide_request h clk oth ''approved'' ''Elevation request approved'' (ap_RequestID req) userID s1)"

definition handleDeny ::
  "('s, 't) Handler \<Rightarrow> pam_env \<Rightarrow> clock \<Rightarrow> ('s, 't) interference \<Rightarrow> http_request \<Rightarrow> ('s, 't) pam_state \<Rightarrow>
     ('s, 't) pam_state \<times> http_response" where
  "handleDeny h env clk oth r s =
     (if Method r \<noteq> ''POST'' then (s, http_Error ''method not allowed'' StatusMethodNotAllowed)
      else case decode_deny env (ReqBody r) of
        Inl _ \<Rightarrow> (s, respondError StatusBadRequest ''invalid request body'')
      | Inr req \<Rightarrow>
      case verify_caller h env clk oth (dn_BiometricToken req) (dn_InitData req) s of
        (s1, Inl resp) \<Rightarrow> (s1, resp)
      | (s1, Inr userID) \<Rightarrow>
          decide_request h clk oth ''denied'' ''Elevation request denied'' (dn_RequestID req) userID s1)"

section \<open>Creation, status and health\<close>

text \<open>
  The audit entries of a refused creation are written only to a PostgreSQL store; there the
  entry of an unauthorized caller dereferences the user of the launch data, which may be nil.
\<close>

definition log_denied ::
  "('s, 't) Handler \<Rightarrow> http_request \<Rightarrow> int option \<Rightarrow> string \<Rightarrow> go_error \<Rightarrow> ('s, 't) pam_state \<Rightarrow>
     ('s, 't) pam_state" where
  "log_denied h r userID reason err s =
     (case DBOps (requestStore h) of
        None \<Rightarrow> s
      | Some ops \<Rightarrow>
          s\<lparr>req_state := LogAudit ops
             \<lparr>audit_action = ''create_request_denied'', audit_user = userID, audit_ip = RemoteAddr r,
              audit_agent = Header r ''User-Agent'', audit_details = [(''reason'', reason), (''error'', err)]\<rparr>
             (req_state s)\<rparr>)"

definition handleCreateRequest ::
  "('s, 't) Handler \<Rightarrow> pam_env \<Rightarrow> clock \<Rightarrow> http_request \<Rightarrow> ('s, 't) pam_state \<Rightarrow>
     ('s, 't) pam_state \<times> http_response" where
  "handleCreateRequest h env clk r s =
     (if Method r \<noteq> ''POST'' then (s, http_Error ''method not allowed'' StatusMethodNotAllowed)
      else case decode_create env (ReqBody r) of
        Inl _ \<Rightarrow> (s, respondError StatusBadRequest ''invalid request body'')
      | Inr req \<Rightarrow>
      let header = Header r ''X-Telegram-Init-Data'';
          initDataHeader = (if header = [] then cr_InitData req else header)
      in case ValidateInitDataFromRequest (venv env) (clk 0) initDataHeader (botToken h) of
        Inl err \<Rightarrow>
          (log_denied h r None ''invalid_initdata'' err s,
           respondError StatusUnauthorized (''invalid initData: '' @ err))
      | Inr initData \<Rightarrow>
      case checkAuthorization h initData s of
        (s1, Some err) \<Rightarrow>
          if DBOps (requestStore h) \<noteq> None \<and> InitUser initData = None then (s1, handler_panic)
          else (log_denied h r (map_option TGID (InitUser initData)) ''unauthorized'' err s1,
                respondError StatusForbidden err)
      | (s1, None) \<Rightarrow>
      if cr_Command req = [] then (s1, respondError StatusBadRequest ''command required'')
      else if \<not> isCommandAllowed h (cr_Command req) then
        (s1, respondError StatusForbidden ''command not in allowlist'')
      else
        let requester = InitDataToUserID (Some initData);
            pending = NewElevationRequest (uuid env) (clk_from 1 clk) (cr_Command req) (cr_Reason req)
                        requester (cr_TargetSystem req) (requestTTL h) (cr_NotifyChatID req)
        in case Create (requestStore h) pending (req_state s1) of
             (s2, Some err) \<Rightarrow>
               (s1\<lparr>req_state := s2\<rparr>,
                respondError StatusInternalServerError (''failed to create request: '' @ err))
           | (s2, None) \<Rightarrow>
               (s1\<lparr>req_state := s2\<rparr>,
                respond (JObj [(''request_id'', JStr (ID pending)), (''status'', JStr ''pending''),
                               (''expires_at'', JTime (ExpiresAt pending)),
                               (''approval_url'', JStr (''/approve?request_id='' @ ID pending))])))"

definition handleGetRequest ::
  "('s, 't) Handler \<Rightarrow> pam_env \<Rightarrow> clock \<Rightarrow> http_request \<Rightarrow> ('s, 't) pam_state \<Rightarrow>
     ('s, 't) pam_state \<times> http_response" where
  "handleGetRequest h env clk r s =
     (if Method r \<noteq> ''GET'' then (s, http_Error ''method not allowed'' StatusMethodNotAllowed)
      else
      let requestID = drop (length ''/api/pam/request/'') (URLPath r)
      in if requestID = [] then (s, http_Error ''request ID required'' StatusBadRequest)
      else
      let initDataHeader = Header r ''X-Telegram-Init-Data''
      in if initDataHeader = [] then (s, respondError StatusUnauthorized ''authentication required'')
      else case ValidateInitDataFromRequest (venv env) (clk 0) initDataHeader (botToken h) of
        Inl _ \<Rightarrow> (s, respondError StatusUnauthorized ''invalid authentication'')
      | Inr initData \<Rightarrow>
      case checkAuthorization h initData s of
        (s1, Some _) \<Rightarrow> (s1, respondError StatusForbidden ''access denied'')
      | (s1, None) \<Rightarrow>
      case Get (requestStore h) requestID (req_state s1) of
        (s2, Inl _) \<Rightarrow> (s1\<lparr>req_state := s2\<rparr>, respondError StatusInternalServerError ''error retrieving request'')
      | (s2, Inr None) \<Rightarrow> (s1\<lparr>req_state := s2\<rparr>, respondError StatusNotFound ''request not found'')
      | (s2, Inr (Some pending)) \<Rightarrow> (s1\<lparr>req_state := s2\<rparr>, respond (json_of_request pending)))"

definition handleHealth :: "('s, 't) Handler \<Rightarrow> http_response" where
  "handleHealth h = respond (JObj [(''mode'', JStr (pam_mode h)), (''status'', JStr ''healthy'')])"

definition pam_ServeHTTP ::
  "('s, 't) Handler \<Rightarrow> pam_env \<Rightarrow> clock \<Rightarrow> ('s, 't) interference \<Rightarrow> http_request \<Rightarrow> ('s, 't) pam_state \<Rightarrow>
     ('s, 't) pam_state \<times> http_response" where
  "pam_ServeHTTP h env clk oth r s =
     (if Method r = ''OPTIONS'' then (s, empty_response StatusOK)
      else if URLPath r = ''/api/pam/enroll'' then handleEnroll h env clk r s
      else if URLPath r = ''/api/pam/approve'' then handleApprove h env clk oth r s
      else if URLPath r = ''/api/pam/deny'' then handleDeny h env clk oth r s
      else if URLPath r = ''/api/pam/request'' then handleCreateRequest h env clk r s
      else if URLPath r = ''/api/pam/health'' then (s, handleHealth h)
      else if length (URLPath r) > length ''/api/pam/request/'' \<and>
              take (length ''/api/pam/request/'') (URLPath r) = ''/api/pam/request/'' then
        handleGetRequest h env clk r s
      else (s, http_NotFound))"

section \<open>The two command matchers\<close>

definition quote_free :: "string \<Rightarrow> bool" where
  "quote_free s \<longleftrightarrow> CHR 0x27 \<notin> set s \<and> CHR 0x22 \<notin> set s \<and> CHR 0x00 \<notin> set s"

lemma quote_free_runes:
  "quote_free s \<Longrightarrow> rune_squote \<notin> set (runes s) \<and> rune_dquote \<notin> set (runes s) \<and> 0 \<notin> set (runes s)"
  using char_in_runes [of "CHR 0x27" s] char_in_runes [of "CHR 0x22" s] char_in_runes [of "CHR 0x00" s]
  by (simp add: quote_free_def rune_squote_def rune_dquote_def)

lemma tokenize_loops_agree:
  "rune_squote \<notin> set rs \<Longrightarrow> rune_dquote \<notin> set rs \<Longrightarrow> 0 \<notin> set rs \<Longrightarrow>
     tokenize_loop rs tokens cur 0 = (fst (pam_tokenize_loop rs tokens cur), snd (pam_tokenize_loop rs tokens cur), 0)"
  by (induction rs tokens cur rule: pam_tokenize_loop.induct) (auto simp: is_blank_def)

lemma tokenizers_agree: "quote_free s \<Longrightarrow> tokenizeCommand s = Inr (pam_tokenizeCommand s)"
  using tokenize_loops_agree [of "runes s" "[]" "[]"] quote_free_runes [of s]
  by (simp add: tokenizeCommand_def pam_tokenizeCommand_def split_beta Let_def)


section \<open>The decision on a request, for any store\<close>

text \<open>
  Facts of the interface: a 200 answer means a successful compare-and-set on what the store
  held after the other goroutines' work, and an answer other than 200 and 500 changes no
  request except for marking an expired one.
\<close>

context request_store
begin

lemma decide_request_ok:
  assumes "requestStore h = st" "ok (req_state s)" "\<forall>x. ok x \<longrightarrow> ok (before_update oth x)"
    "in_years (clk 5)" "in_years (clk 6)"
    "decide_request h clk oth new msg i user s = (s', resp)" "resp_status resp = 200"
  shows "\<exists>p r r'. lookup (req_state s) i = Some p \<and> clk 4 \<le> ExpiresAt p \<and>
     lookup (before_update oth (fst (Get st i (req_state s)))) i = Some r \<and>
     lookup (req_state s') = (lookup (before_update oth (fst (Get st i (req_state s)))))(i \<mapsto> r') \<and>
     Status r = ''pending'' \<and> Status r' = new \<and> same_subject r r'"
proof -
  obtain s1 q where g: "Get st i (req_state s) = (s1, q)" by fastforce
  note lg = get [OF assms(2) g]
  obtain p where p: "q = Inr (Some p)"
    using assms(1,6,7) g by (auto simp: decide_request_def status_defs split: sum.splits option.splits)
  have pl: "lookup (req_state s) i = Some p" using lg p by simp
  have fresh: "\<not> time_after (clk 4) (ExpiresAt p)"
    using assms(1,6,7) g p by (auto simp: decide_request_def status_defs split: if_splits prod.splits)
  obtain s2 b where u: "UpdateStateIf st (clk_from 5 clk) i ''pending'' new user (before_update oth s1) = (s2, b)"
    by fastforce
  have b: "b = Inr True" "req_state s' = s2"
    using assms(1,6,7) g p fresh u by (auto simp: decide_request_def status_defs split: sum.splits if_splits)
  have "ok (before_update oth s1)" using lg assms(3) by simp
  from cas [OF this _ _ u] assms(4,5) b show ?thesis using pl fresh g by (auto simp: time_after_def not_less)
qed

lemma decide_request_refused:
  assumes "requestStore h = st" "ok (req_state s)" "\<forall>x. ok x \<longrightarrow> ok (before_update oth x)"
    "in_years (clk 5)" "in_years (clk 6)"
    "decide_request h clk oth new msg i user s = (s', resp)" "resp_status resp \<notin> {200, 500}"
  shows "\<forall>j. lookup (req_state s') j = lookup (req_state s) j \<or>
     lookup (req_state s') j = lookup (before_update oth (fst (Get st i (req_state s)))) j \<or>
     (\<exists>r'. lookup (req_state s') j = Some r' \<and> Status r' = ''expired'')"
proof -
  obtain s1 q where g: "Get st i (req_state s) = (s1, q)" by fastforce
  note lg = get [OF assms(2) g]
  have ok1: "ok (before_update oth s1)" using lg assms(3) by simp
  show ?thesis
  proof (cases q)
    case (Inl e)
    then show ?thesis using assms(1,6,7) g lg by (auto simp: decide_request_def)
  next
    case (Inr x)
    show ?thesis
    proof (cases x)
      case None
      then show ?thesis using Inr assms(1,6) g lg by (auto simp: decide_request_def)
    next
      case (Some p)
      show ?thesis
      proof (cases "time_after (clk 4) (ExpiresAt p)")
        case True
        obtain s2 b where u: "UpdateStateIf st (clk_from 5 clk) (ID p) ''pending'' ''expired'' [] (before_update oth s1) = (s2, b)"
          by fastforce
        have s': "req_state s' = s2" using True Some Inr assms(1,6) g u by (auto simp: decide_request_def)
        from cas [OF ok1 _ _ u] assms(4,5) show ?thesis by (auto simp: s' g)
      next
        case False
        obtain s2 b where u: "UpdateStateIf st (clk_from 5 clk) i ''pending'' new user (before_update oth s1) = (s2, b)"
          by fastforce
        have "b = Inr False" "req_state s' = s2"
          using False Some Inr assms(1,6,7) g u
          by (auto simp: decide_request_def status_defs split: sum.splits if_splits)
        with cas [OF ok1 _ _ u] assms(4,5) show ?thesis by (auto simp: g)
      qed
    qed
  qed
qed

text \<open>Every answer: the decision was made on a pending, fresh request, or no request is decided by the call.\<close>

lemma decide_request_effect:
  assumes "requestStore h = st" "ok (req_state s)" "\<forall>x. ok x \<longrightarrow> ok (before_update oth x)"
    "in_years (clk 5)" "in_years (clk 6)" "decide_request h clk oth new msg i user s = (s', resp)"
  defines "db \<equiv> before_update oth (fst (Get st i (req_state s)))"
  obtains (decided) p r r' where "lookup (req_state s) i = Some p" "clk 4 \<le> ExpiresAt p" "lookup db i = Some r"
      "lookup (req_state s') = (lookup db)(i \<mapsto> r')" "Status r = ''pending''" "Status r' = new" "same_subject r r'"
  | (undecided) "resp_status resp \<noteq> 200" "\<forall>j. lookup (req_state s') j \<in> {lookup (req_state s) j, lookup db j} \<or>
      (\<exists>r'. lookup (req_state s') j = Some r' \<and> Status r' = ''expired'')"
proof (cases "resp_status resp \<in> {200, 409, 410} \<or> (\<exists>p. snd (Get st i (req_state s)) = Inr (Some p) \<and> clk 4 \<le> ExpiresAt p)")
  case False
  obtain s1 q where g: "Get st i (req_state s) = (s1, q)" by fastforce
  have "req_state s' = s1" using False assms(1,6) g
    by (auto simp: decide_request_def status_defs time_after_def not_less split: sum.splits option.splits if_splits prod.splits)
  with get [OF assms(2) g] False show thesis by (intro undecided) auto
next
  case True
  obtain s1 q where g: "Get st i (req_state s) = (s1, q)" by fastforce
  note lg = get [OF assms(2) g]
  have db: "db = before_update oth s1" by (simp add: db_def g)
  have ok1: "ok db" using lg assms(3) by (simp add: db)
  obtain p where p: "q = Inr (Some p)" using True assms(1,6) g
    by (auto simp: decide_request_def status_defs split: sum.splits option.splits)
  show thesis
  proof (cases "time_after (clk 4) (ExpiresAt p)")
    case late: True
    obtain s2 b where u: "UpdateStateIf st (clk_from 5 clk) (ID p) ''pending'' ''expired'' [] db = (s2, b)" by fastforce
    have s': "req_state s' = s2" "resp_status resp = 410"
      using late p assms(1,6) g u by (auto simp: decide_request_def db status_defs)
    from cas [OF ok1 _ _ u] assms(4,5) show thesis by (intro undecided) (auto simp: s')
  next
    case False
    obtain s2 b where u: "UpdateStateIf st (clk_from 5 clk) i ''pending'' new user db = (s2, b)" by fastforce
    have s': "req_state s' = s2" "b \<noteq> Inr True \<Longrightarrow> resp_status resp \<noteq> 200"
      using False p assms(1,6) g u by (auto simp: decide_request_def db status_defs split: sum.splits if_splits)
    from cas [OF ok1 _ _ u] assms(4,5)
    consider "b \<noteq> Inr True" "lookup s2 = lookup db"
      | r r' where "lookup db i = Some r" "lookup s2 = (lookup db)(i \<mapsto> r')" "Status r = ''pending''" "Status r' = new"
        "same_subject r r'" by auto
    then show thesis
    proof cases
      case 1
      then show ?thesis using s' by (intro undecided) auto
    next
      case 2
      then show ?thesis using s' lg p False by (intro decided) (auto simp: time_after_def not_less)
    qed
  qed
qed

end

text \<open>What \<open>verify_caller\<close> establishes, and what it leaves alone.\<close>

lemma verify_caller_ok:
  assumes "verify_caller h env clk oth bio q s = (s1, Inr user)"
  obtains d sA t2 t3 tok where
    "ValidateInitDataFromRequest (venv env) (clk 0) q (botToken h) = Inr d"
    "checkAuthorization h d s = (sA, None)" "user = InitDataToUserID (Some d)" "bio \<noteq> []"
    "RetrieveToken (pam_tokens h) (pam_ttl h) (clk_from 1 clk) (between_tokens oth) user (tok_state sA) = (t2, Inr (Some tok))"
    "TokenValue tok = bio" "StoreToken (pam_tokens h) user (tok\<lparr>LastUsedAt := clk 3\<rparr>) t2 = (t3, None)"
    "s1 = sA\<lparr>tok_state := t3\<rparr>"
  using assms that
  by (auto simp: verify_caller_def Let_def split: if_splits sum.splits prod.splits option.splits)

lemma checkAuthorization_no_db:
  "DBOps (requestStore h) = None \<Longrightarrow> checkAuthorization h d s = (s, CheckAuthorization (Some d) (allowedUsers h))"
  by (simp add: checkAuthorization_def)

lemma verify_caller_requests:
  "DBOps (requestStore h) = None \<Longrightarrow> verify_caller h env clk oth bio q s = (s1, v) \<Longrightarrow> req_state s1 = req_state s"
  by (auto simp: verify_caller_def checkAuthorization_no_db Let_def split: if_splits sum.splits prod.splits option.splits)

lemma verify_caller_status: "verify_caller h env clk oth bio q s = (s1, Inl e) \<Longrightarrow> resp_status e \<noteq> 200"
  by (auto simp: verify_caller_def Let_def status_defs split: if_splits sum.splits prod.splits option.splits)

section \<open>Properties\<close>



text \<open>A handler on the SQLite store with two users, and launch data signed for one of them.\<close>

definition toy_handler :: "(SQLiteRequestStore, local_state) Handler" where
  "toy_handler = NewHandler (local_token_store toy_env toy_local) 5 ''fallback'' sqlite_store ''123:abc''
     [\<lparr>TelegramID = 42, Name = ''Ada''\<rparr>] [''apt install *''] 5"

definition toy_penv :: pam_env where
  "toy_penv = \<lparr>venv = toy_venv,
     decode_enroll = (\<lambda>b. Inr \<lparr>en_InitData = b, en_DeviceInfo = ''phone'', en_BiometricToken = ''bio''\<rparr>),
     decode_approve = (\<lambda>b. Inr \<lparr>ap_InitData = b, ap_BiometricToken = ''bio'', ap_RequestID = ''r1''\<rparr>),
     decode_deny = (\<lambda>b. Inr \<lparr>dn_InitData = b, dn_BiometricToken = ''wrong'', dn_RequestID = ''r1'', dn_Reason = []\<rparr>),
     decode_create = (\<lambda>b. Inr \<lparr>cr_InitData = b, cr_Command = ''apt install curl'', cr_Reason = [], cr_Requester = [],
        cr_TargetSystem = [], cr_NotifyChatID = 0\<rparr>),
     uuid = ''r2''\<rparr>"

definition toy_post :: "string \<Rightarrow> http_request" where
  "toy_post path = \<lparr>Method = ''POST'', URLPath = path, Header = (\<lambda>_. []), QueryGet = (\<lambda>_. []),
     RemoteAddr = ''127.0.0.1:1'', ReqBody = toy_query\<rparr>"

definition quiet :: "('s, 't) interference" where
  "quiet = \<lparr>between_tokens = (\<lambda>t. t), before_update = (\<lambda>s. s)\<rparr>"

definition toy_enrolled :: local_state where
  "toy_enrolled = fst (local_Store toy_env toy_local ''tg:42'' toy_token toy_state)"

definition toy_pam :: "(SQLiteRequestStore, local_state) pam_state" where
  "toy_pam = \<lparr>req_state = sample_db, tok_state = toy_enrolled\<rparr>"

definition toy_clk :: clock where
  "toy_clk = (\<lambda>i. 1700000100000000000 + int i)"

lemma toy_clk_years: "in_years (toy_clk 5)" "in_years (toy_clk 6)"
  by code_simp+

text \<open>
  C7: an approval through the PAM handler on the SQLite store is sound, whatever it answers.
  Either the launch data was validated and names an allowed user, the presented token is not
  empty and is the one that \<open>RetrieveToken\<close> reads for that user from the token store as the
  call found it, and the request named was pending and unexpired and is now, alone among all
  requests, approved with its subject unchanged; or the answer is not 200 and the call has
  decided no request: each is as it was, as other goroutines left it, or marked expired.
  Other goroutines may act on the store between the lookup and the update.
\<close>

theorem pam_approve_sound:
  assumes "requestStore h = sqlite_store" "sqlite_ok (req_state s)"
    "\<forall>x. sqlite_ok x \<longrightarrow> sqlite_ok (before_update oth x)" "in_years (clk 5)" "in_years (clk 6)"
    "handleApprove h env clk oth r s = (s', resp)"
  shows "(\<exists>req d u t2 tok db p q q'. decode_approve env (ReqBody r) = Inr req \<and>
     ValidateInitDataFromRequest (venv env) (clk 0) (ap_InitData req) (botToken h) = Inr d \<and>
     InitUser d = Some u \<and> TGID u \<in> TelegramID ` set (allowedUsers h) \<and>
     RetrieveToken (pam_tokens h) (pam_ttl h) (clk_from 1 clk) (between_tokens oth)
       (''tg:'' @ show_int (TGID u)) (tok_state s) = (t2, Inr (Some tok)) \<and>
     TokenValue tok = ap_BiometricToken req \<and> ap_BiometricToken req \<noteq> [] \<and>
     db = before_update oth (fst (sqlite_Get (ap_RequestID req) (req_state s))) \<and>
     sqlite_lookup (req_state s) (ap_RequestID req) = Some p \<and> clk 4 \<le> ExpiresAt p \<and>
     sqlite_lookup db (ap_RequestID req) = Some q \<and> Status q = ''pending'' \<and>
     sqlite_lookup (req_state s') = (sqlite_lookup db)(ap_RequestID req \<mapsto> q') \<and>
     Status q' = ''approved'' \<and> same_subject q q') \<or>
   (resp_status resp \<noteq> 200 \<and> (\<exists>i. \<forall>j. sqlite_lookup (req_state s') j \<in>
       {sqlite_lookup (req_state s) j, sqlite_lookup (before_update oth (fst (sqlite_Get i (req_state s)))) j} \<or>
     (\<exists>q. sqlite_lookup (req_state s') j = Some q \<and> Status q = ''expired'')))"
proof (cases "decode_approve env (ReqBody r)")
  case (Inl e)
  then show ?thesis using assms(6) by (auto simp: handleApprove_def status_defs split: if_splits)
next
  case req: (Inr req)
  have dbo: "DBOps (requestStore h) = None" and get: "Get sqlite_store = sqlite_Get"
    by (simp_all add: assms(1) sqlite_store_def)
  obtain s1 v where v: "verify_caller h env clk oth (ap_BiometricToken req) (ap_InitData req) s = (s1, v)" by fastforce
  note keeps = verify_caller_requests [OF dbo v]
  show ?thesis
  proof (cases "Method r = ''POST'' \<and> \<not> isl v")
    case False
    then have "resp_status resp \<noteq> 200 \<and> req_state s' = req_state s"
      using assms(6) verify_caller_status [of h env clk oth _ _ s s1] v keeps
      by (cases v) (auto simp: handleApprove_def req status_defs split: if_splits)
    then show ?thesis by simp
  next
    case True
    then obtain user where user: "v = Inr user" by (cases v) auto
    have dec: "decide_request h clk oth ''approved'' ''Elevation request approved'' (ap_RequestID req) user s1 = (s', resp)"
      using assms(6) True by (simp add: handleApprove_def req v user)
    have ok1: "sqlite_ok (req_state s1)" using assms(2) keeps by simp
    show ?thesis
    proof (rule sqlite.decide_request_effect [OF assms(1) ok1 assms(3-5) dec, unfolded keeps get])
      assume "resp_status resp \<noteq> 200" "\<forall>j. sqlite_lookup (req_state s') j \<in> {sqlite_lookup (req_state s) j,
          sqlite_lookup (before_update oth (fst (sqlite_Get (ap_RequestID req) (req_state s)))) j} \<or>
        (\<exists>r'. sqlite_lookup (req_state s') j = Some r' \<and> Status r' = ''expired'')"
      then show ?thesis by blast
    next
      fix p q q'
      assume eff: "sqlite_lookup (req_state s) (ap_RequestID req) = Some p" "clk 4 \<le> ExpiresAt p"
        "sqlite_lookup (before_update oth (fst (sqlite_Get (ap_RequestID req) (req_state s)))) (ap_RequestID req) = Some q"
        "sqlite_lookup (req_state s') = (sqlite_lookup (before_update oth (fst (sqlite_Get (ap_RequestID req) (req_state s)))))
           (ap_RequestID req \<mapsto> q')" "Status q = ''pending''" "Status q' = ''approved''" "same_subject q q'"
      obtain d sA t2 t3 tok where c:
        "ValidateInitDataFromRequest (venv env) (clk 0) (ap_InitData req) (botToken h) = Inr d"
        "checkAuthorization h d s = (sA, None)" "user = InitDataToUserID (Some d)" "ap_BiometricToken req \<noteq> []"
        "RetrieveToken (pam_tokens h) (pam_ttl h) (clk_from 1 clk) (between_tokens oth) user (tok_state sA) = (t2, Inr (Some tok))"
        "TokenValue tok = ap_BiometricToken req"
        by (rule verify_caller_ok [OF v [unfolded user]])
      from c(2) have a: "sA = s" "CheckAuthorization (Some d) (allowedUsers h) = None"
        by (simp_all add: checkAuthorization_no_db [OF dbo])
      then obtain u where u: "InitUser d = Some u" "TGID u \<in> TelegramID ` set (allowedUsers h)"
        unfolding CheckAuthorization_iff by blast
      have "user = ''tg:'' @ show_int (TGID u)" by (simp add: c(3) InitDataToUserID_def u(1))
      then show ?thesis using req c(1,4-6) u a(1) eff by (intro disjI1) blast
    qed
  qed
qed

definition toy_approved :: "(SQLiteRequestStore, local_state) pam_state \<times> http_response" where
  "toy_approved = handleApprove toy_handler toy_penv toy_clk quiet (toy_post ''/api/pam/approve'') toy_pam"

theorem pam_approve_sound_witness:
  "resp_status (snd toy_approved) = 200 \<and>
   (\<exists>q'. sqlite_lookup (req_state (fst toy_approved)) ''r1'' = Some q' \<and> Status q' = ''approved'')"
proof -
  have st: "requestStore toy_handler = sqlite_store" by (simp add: toy_handler_def NewHandler_def)
  have ok: "sqlite_ok (req_state toy_pam)" by (simp add: toy_pam_def sample_db_ok)
  have oth: "\<forall>x. sqlite_ok x \<longrightarrow> sqlite_ok (before_update (quiet :: (SQLiteRequestStore, local_state) interference) x)"
    by (simp add: quiet_def)
  have run: "handleApprove toy_handler toy_penv toy_clk quiet (toy_post ''/api/pam/approve'') toy_pam =
      (fst toy_approved, snd toy_approved)" by (simp add: toy_approved_def)
  have r: "resp_status (snd toy_approved) = 200" by code_simp
  have i: "ap_RequestID x = ''r1''" if "decode_approve toy_penv b = Inr x" for x b
    using that by (auto simp: toy_penv_def)
  from pam_approve_sound [OF st ok oth toy_clk_years run] r i show ?thesis by (metis fun_upd_same)
qed

text \<open>
  C14: a refused decision leaves the requests alone: when \<open>handleApprove\<close> or
  \<open>handleDeny\<close> on the SQLite store answers anything but 200 and 500, without other
  goroutines at work, every request is as it was, or has been marked expired.
\<close>

theorem pam_refusal_keeps_requests:
  assumes "requestStore h = sqlite_store" "sqlite_ok (req_state s)" "before_update oth = (\<lambda>x. x)"
    "in_years (clk 5)" "in_years (clk 6)"
    "handleApprove h env clk oth r s = (s', resp) \<or> handleDeny h env clk oth r s = (s', resp)"
    "resp_status resp \<notin> {200, 500}"
  shows "\<forall>j. sqlite_lookup (req_state s') j = sqlite_lookup (req_state s) j \<or>
     (\<exists>q. sqlite_lookup (req_state s') j = Some q \<and> Status q = ''expired'')"
proof -
  have db: "DBOps (requestStore h) = None" by (simp add: assms(1) sqlite_store_def)
  have vc: "req_state s1 = req_state s" if "verify_caller h env clk oth bio q s = (s1, v)" for bio q s1 v
    using that by (auto simp: verify_caller_def checkAuthorization_no_db [OF db] Let_def
        split: if_splits sum.splits prod.splits option.splits)
  have dr: "\<forall>j. sqlite_lookup (req_state s') j = sqlite_lookup (req_state s) j \<or>
     (\<exists>q. sqlite_lookup (req_state s') j = Some q \<and> Status q = ''expired'')"
    if d: "decide_request h clk oth new msg i user s1 = (s', resp)" and s1: "req_state s1 = req_state s"
    for new msg i user s1
  proof -
    have ok: "sqlite_ok (req_state s1)" using assms(2) s1 by simp
    have oth: "\<forall>x. sqlite_ok x \<longrightarrow> sqlite_ok (before_update oth x)" by (simp add: assms(3))
    have "sqlite_lookup (fst (Get sqlite_store i (req_state s1))) = sqlite_lookup (req_state s1)"
      using sqlite.get [OF ok prod.collapse [symmetric], of i] by simp
    with sqlite.decide_request_refused [OF assms(1) ok oth assms(4,5) d assms(7)] show ?thesis
      by (simp add: assms(3) s1)
  qed
  from assms(6) show ?thesis
  proof
    assume a: "handleApprove h env clk oth r s = (s', resp)"
    show ?thesis
    proof (cases "Method r = ''POST'' \<and> is_ok (decode_approve env (ReqBody r))")
      case True
      then obtain req where req: "decode_approve env (ReqBody r) = Inr req" by (auto simp: is_ok_iff)
      obtain s1 v where v: "verify_caller h env clk oth (ap_BiometricToken req) (ap_InitData req) s = (s1, v)" by fastforce
      with a True req vc [OF v] dr show ?thesis by (cases v) (auto simp: handleApprove_def)
    next
      case False
      then show ?thesis using a by (cases "decode_approve env (ReqBody r)") (auto simp: handleApprove_def split: if_splits)
    qed
  next
    assume a: "handleDeny h env clk oth r s = (s', resp)"
    show ?thesis
    proof (cases "Method r = ''POST'' \<and> is_ok (decode_deny env (ReqBody r))")
      case True
      then obtain req where req: "decode_deny env (ReqBody r) = Inr req" by (auto simp: is_ok_iff)
      obtain s1 v where v: "verify_caller h env clk oth (dn_BiometricToken req) (dn_InitData req) s = (s1, v)" by fastforce
      with a True req vc [OF v] dr show ?thesis by (cases v) (auto simp: handleDeny_def)
    next
      case False
      then show ?thesis using a by (cases "decode_deny env (ReqBody r)") (auto simp: handleDeny_def split: if_splits)
    qed
  qed
qed

definition toy_denied :: "(SQLiteRequestStore, local_state) pam_state \<times> http_response" where
  "toy_denied = handleDeny toy_handler toy_penv toy_clk quiet (toy_post ''/api/pam/deny'') toy_pam"

theorem pam_refusal_keeps_requests_witness:
  "resp_status (snd toy_denied) = 401 \<and>
   (sqlite_lookup (req_state (fst toy_denied)) ''r1'' = sqlite_lookup sample_db ''r1'' \<or>
    (\<exists>q. sqlite_lookup (req_state (fst toy_denied)) ''r1'' = Some q \<and> Status q = ''expired''))"
proof -
  have st: "requestStore toy_handler = sqlite_store" by (simp add: toy_handler_def NewHandler_def)
  have ok: "sqlite_ok (req_state toy_pam)" by (simp add: toy_pam_def sample_db_ok)
  have oth: "before_update (quiet :: (SQLiteRequestStore, local_state) interference) = (\<lambda>x. x)" by (simp add: quiet_def)
  have run: "handleApprove toy_handler toy_penv toy_clk quiet (toy_post ''/api/pam/deny'') toy_pam = (fst toy_denied, snd toy_denied) \<or>
      handleDeny toy_handler toy_penv toy_clk quiet (toy_post ''/api/pam/deny'') toy_pam = (fst toy_denied, snd toy_denied)"
    by (simp add: toy_denied_def)
  have r: "resp_status (snd toy_denied) = 401" by code_simp
  then have "resp_status (snd toy_denied) \<notin> {200, 500}" by simp
  from pam_refusal_keeps_requests [OF st ok oth toy_clk_years run this] r show ?thesis by (simp add: toy_pam_def)
qed

text \<open>A caller whom nobody authorizes is refused by each of the four endpoints.\<close>

definition refused :: "'a \<Rightarrow> 'a \<times> http_response \<Rightarrow> bool" where
  "refused s out \<longleftrightarrow> fst out = s \<and> resp_status (snd out) \<in> {400, 401, 403, 404, 405}"

lemma refusedI [simp]:
  "refused s (s, respondError 400 m)" "refused s (s, respondError 401 m)" "refused s (s, respondError 403 m)"
  "refused s (s, http_Error m 400)" "refused s (s, http_Error m 404)" "refused s (s, http_Error m 405)"
  by (simp_all add: refused_def)

lemma verify_caller_refused:
  assumes "\<And>d. \<exists>e. checkAuthorization h d s = (s, Some e)"
  shows "\<exists>e. verify_caller h env clk oth bio q s = (s, Inl e) \<and> refused s (s, e)"
proof (cases "ValidateInitDataFromRequest (venv env) (clk 0) q (botToken h)")
  case (Inl x)
  then show ?thesis by (cases "bio = []") (simp_all add: verify_caller_def status_defs)
next
  case (Inr d)
  obtain e where "checkAuthorization h d s = (s, Some e)" using assms by blast
  then show ?thesis using Inr by (cases "bio = []") (simp_all add: verify_caller_def status_defs)
qed

lemma enroll_refused:
  assumes "\<And>d. \<exists>e. checkAuthorization h d s = (s, Some e)"
  shows "refused s (handleEnroll h env clk r s)"
proof (cases "decode_enroll env (ReqBody r)")
  case req: (Inr req)
  show ?thesis
  proof (cases "ValidateInitDataFromRequest (venv env) (clk 0) (en_InitData req) (botToken h)")
    case (Inr d)
    obtain e where "checkAuthorization h d s = (s, Some e)" using assms by blast
    then show ?thesis using req Inr by (simp add: handleEnroll_def status_defs)
  qed (simp add: handleEnroll_def status_defs req)
qed (simp add: handleEnroll_def status_defs)

lemma decisions_refused:
  assumes "\<And>d. \<exists>e. checkAuthorization h d s = (s, Some e)"
  shows "refused s (handleApprove h env clk oth r s)" "refused s (handleDeny h env clk oth r s)"
proof -
  show "refused s (handleApprove h env clk oth r s)"
  proof (cases "decode_approve env (ReqBody r)")
    case (Inr req)
    obtain e where "verify_caller h env clk oth (ap_BiometricToken req) (ap_InitData req) s = (s, Inl e)" "refused s (s, e)"
      using verify_caller_refused [OF assms] by blast
    then show ?thesis using Inr by (simp add: handleApprove_def status_defs)
  qed (simp add: handleApprove_def status_defs)
  show "refused s (handleDeny h env clk oth r s)"
  proof (cases "decode_deny env (ReqBody r)")
    case (Inr req)
    obtain e where "verify_caller h env clk oth (dn_BiometricToken req) (dn_InitData req) s = (s, Inl e)" "refused s (s, e)"
      using verify_caller_refused [OF assms] by blast
    then show ?thesis using Inr by (simp add: handleDeny_def status_defs)
  qed (simp add: handleDeny_def status_defs)
qed

lemma create_refused:
  assumes "\<And>d. \<exists>e. checkAuthorization h d s = (s, Some e)" "DBOps (requestStore h) = None"
  shows "refused s (handleCreateRequest h env clk r s)"
proof (cases "decode_create env (ReqBody r)")
  case req: (Inr req)
  define q where "q = (if Header r ''X-Telegram-Init-Data'' = [] then cr_InitData req else Header r ''X-Telegram-Init-Data'')"
  show ?thesis
  proof (cases "ValidateInitDataFromRequest (venv env) (clk 0) q (botToken h)")
    case (Inl e)
    then show ?thesis using req
      by (simp add: handleCreateRequest_def status_defs q_def [symmetric] log_denied_def assms(2) Let_def)
  next
    case (Inr d)
    obtain e where "checkAuthorization h d s = (s, Some e)" using assms by blast
    then show ?thesis using req Inr
      by (simp add: handleCreateRequest_def status_defs q_def [symmetric] log_denied_def assms(2) Let_def)
  qed
qed (simp add: handleCreateRequest_def status_defs)

lemma status_refused:
  assumes "\<And>d. \<exists>e. checkAuthorization h d s = (s, Some e)"
  shows "refused s (handleGetRequest h env clk r s)"
proof (cases "ValidateInitDataFromRequest (venv env) (clk 0) (Header r ''X-Telegram-Init-Data'') (botToken h)")
  case (Inr d)
  obtain e where "checkAuthorization h d s = (s, Some e)" using assms by blast
  then show ?thesis using Inr by (simp add: handleGetRequest_def status_defs Let_def)
qed (simp add: handleGetRequest_def status_defs Let_def)

text \<open>
  Without a static list of users and on any store but the PostgreSQL one, the handler
  authorizes nobody: apart from the health check and preflight requests, every call is refused.
\<close>

lemma pam_nobody_authorized:
  assumes "allowedUsers h = []" "DBOps (requestStore h) = None" "Method r \<noteq> ''OPTIONS''" "URLPath r \<noteq> ''/api/pam/health''"
    "pam_ServeHTTP h env clk oth r s = (s', resp)"
  shows "s' = s \<and> resp_status resp \<in> {400, 401, 403, 404, 405}"
proof -
  have c: "\<exists>e. checkAuthorization h d s = (s, Some e)" for d
    using assms(1) CheckAuthorization_iff [of "Some d" "[]"]
    by (auto simp: checkAuthorization_no_db [OF assms(2)])
  have "refused s (pam_ServeHTTP h env clk oth r s)"
    using assms(3,4) enroll_refused [OF c] decisions_refused [OF c] create_refused [OF c assms(2)] status_refused [OF c]
    by (simp add: pam_ServeHTTP_def http_NotFound_def status_defs)
  then show ?thesis by (simp add: assms(5) refused_def)
qed


definition toy_created :: "(SQLiteRequestStore, local_state) pam_state \<times> http_response" where
  "toy_created = handleCreateRequest toy_handler toy_penv toy_clk (toy_post ''/api/pam/request'') toy_pam"


text \<open>
  On the PostgreSQL store a creation whose signed launch data has no user panics: the
  refused caller is to be audited, and the audit reads the identifier of the user that is
  not there; the other stores answer 403.
\<close>

theorem pam_create_without_user:
  assumes "Method r = ''POST''" "decode_create env (ReqBody r) = Inr req"
    "ValidateInitDataFromRequest (venv env) (clk 0)
       (if Header r ''X-Telegram-Init-Data'' = [] then cr_InitData req else Header r ''X-Telegram-Init-Data'')
       (botToken h) = Inr d" "InitUser d = None"
  shows "snd (handleCreateRequest h env clk r s) = handler_panic \<longleftrightarrow> DBOps (requestStore h) \<noteq> None"
proof -
  have no: "CheckAuthorization (Some d) us \<noteq> None" for us
    using CheckAuthorization_iff [of "Some d" us] assms(4) by auto
  obtain s1 e where e: "checkAuthorization h d s = (s1, Some e)"
    using no by (cases "checkAuthorization h d s") (auto simp: checkAuthorization_def Let_def
        split: if_splits option.splits prod.splits sum.splits)
  have "respondError 403 e \<noteq> handler_panic" by (simp add: respondError_def handler_panic_def)
  then show ?thesis using assms e
    by (simp add: handleCreateRequest_def status_defs Let_def cong: if_cong)
qed

definition anonymous_query :: string where
  "anonymous_query = encode_params (sign_params toy_venv ''123:abc'' [(''auth_date'', ''1700000000'')])"

definition audit_store :: "SQLiteRequestStore RequestStore" where
  "audit_store = sqlite_store\<lparr>DBOps := Some \<lparr>GetAuthorizedUsers = (\<lambda>s. (s, Inr [\<lparr>TelegramID = 42, Name = ''Ada''\<rparr>])),
     LogAudit = (\<lambda>a s. s)\<rparr>\<rparr>"

theorem pam_create_without_user_witness:
  "snd (handleCreateRequest (toy_handler\<lparr>requestStore := audit_store\<rparr>) toy_penv toy_clk
     ((toy_post ''/api/pam/request'')\<lparr>ReqBody := anonymous_query\<rparr>) toy_pam) = handler_panic"
proof -
  let ?h = "toy_handler\<lparr>requestStore := audit_store\<rparr>" and ?r = "(toy_post ''/api/pam/request'')\<lparr>ReqBody := anonymous_query\<rparr>"
  obtain req where req: "decode_create toy_penv (ReqBody ?r) = Inr req" "cr_InitData req = anonymous_query"
    by (simp add: toy_penv_def toy_post_def)
  have hd: "Header ?r ''X-Telegram-Init-Data'' = []" by (simp add: toy_post_def)
  let ?v = "ValidateInitDataFromRequest (venv toy_penv) (toy_clk 0) anonymous_query (botToken ?h)"
  have "(case ?v of Inl _ \<Rightarrow> False | Inr d \<Rightarrow> InitUser d = None)" by code_simp
  then obtain d where d: "?v = Inr d" "InitUser d = None" by (cases ?v) auto
  have m: "Method ?r = ''POST''" by (simp add: toy_post_def)
  have "DBOps (requestStore ?h) \<noteq> None" by (simp add: audit_store_def)
  with pam_create_without_user [OF m req(1), of toy_clk ?h d toy_pam] d hd req(2) show ?thesis by simp
qed

end
