(* ===== verification/ClawVaultStore.thy ===== *)
theory ClawVaultStore
  imports Tokens
begin

text \<open>
  \<open>internal/pam/clawvault.go\<close>: the client that runs the \<open>secret-tool\<close> and \<open>clawvault\<close>
  binaries, and the token store on top of it. The binaries and the keyring behind them are
  outside the program: one function runs a command, with its time limit and standard input,
  on the state of the keyring. What the store relies on is the predicate \<open>keyring_laws\<close>;
  under it the store satisfies the contract \<open>token_store\<close> of every token store.
\<close>

section \<open>The client\<close>

text \<open>What \<open>cmd.Run\<close> returns: nothing, an \<open>*exec.Error\<close>, an \<open>*exec.ExitError\<close>, or another error.\<close>

datatype cmd_error =
    ExecError go_error
  | CmdExit int go_error
  | CmdOther go_error

fun cmd_error_text :: "cmd_error \<Rightarrow> go_error" where
  "cmd_error_text (ExecError e) = e"
| "cmd_error_text (CmdExit n e) = e"
| "cmd_error_text (CmdOther e) = e"

record cmd_outcome =
  cmd_stdout :: string
  cmd_stderr :: string
  cmd_err :: "cmd_error option"

record ClawVaultSecret =
  secret_Name :: string
  secret_Description :: string
  secret_Provider :: string

record 'k claw_env =
  run_cmd :: "duration \<Rightarrow> string list \<Rightarrow> string \<Rightarrow> 'k \<Rightarrow> 'k \<times> cmd_outcome"
  stdin_pipe :: "go_error option"
  json_secrets :: "string \<Rightarrow> go_error + ClawVaultSecret list"

record ClawVaultClient =
  claw_timeout :: duration

definition NewClawVaultClient :: "int \<Rightarrow> ClawVaultClient" where
  "NewClawVaultClient timeoutSec =
     (let timeoutSec = (if timeoutSec \<le> 0 then 5 else timeoutSec)
      in \<lparr>claw_timeout = dur_times timeoutSec time_Second\<rparr>)"

definition ListSecrets ::
  "'k claw_env \<Rightarrow> ClawVaultClient \<Rightarrow> 'k \<Rightarrow> 'k \<times> (go_error + ClawVaultSecret list)" where
  "ListSecrets ce c k =
     (let (k1, out) = run_cmd ce (claw_timeout c) [''clawvault'', ''list'', ''--json''] [] k
      in case cmd_err out of
           Some err \<Rightarrow> (k1, Inl (''clawvault list failed: '' @ cmd_error_text err @ '' - '' @ cmd_stderr out))
         | None \<Rightarrow>
             (case json_secrets ce (cmd_stdout out) of
                Inl err \<Rightarrow> (k1, Inl (''parse secrets: '' @ err))
              | Inr secrets \<Rightarrow> (k1, Inr secrets)))"

definition GetSecret :: "'k claw_env \<Rightarrow> ClawVaultClient \<Rightarrow> string \<Rightarrow> 'k \<Rightarrow> 'k \<times> (go_error + string)" where
  "GetSecret ce c key k =
     (let (k1, out) = run_cmd ce (claw_timeout c) [''clawvault'', ''resolve'', key] [] k
      in case cmd_err out of
           Some (ExecError e) \<Rightarrow> (k1, Inl (''clawvault binary not found or not executable: '' @ e))
         | Some (CmdExit n e) \<Rightarrow>
             (k1, Inl (''clawvault resolve failed with exit code '' @ show_int n @ '': '' @ cmd_stderr out))
         | Some (CmdOther e) \<Rightarrow> (k1, Inl (''clawvault resolve failed: '' @ e @ '' - '' @ cmd_stderr out))
         | None \<Rightarrow> (k1, Inr (trim_space (cmd_stdout out))))"

definition SetSecret ::
  "'k claw_env \<Rightarrow> ClawVaultClient \<Rightarrow> string \<Rightarrow> string \<Rightarrow> 'k \<Rightarrow> 'k \<times> go_error option" where
  "SetSecret ce c key val k =
     (case stdin_pipe ce of
        Some err \<Rightarrow> (k, Some (''stdin pipe: '' @ err))
      | None \<Rightarrow>
          let (k1, out) = run_cmd ce (claw_timeout c)
                [''secret-tool'', ''store'', ''--label'', ''KingCrab: '' @ key, ''kingcrab'', key] val k
          in case cmd_err out of
               Some err \<Rightarrow> (k1, Some (''secret-tool store failed: '' @ cmd_error_text err @ '' - '' @ cmd_stderr out))
             | None \<Rightarrow> (k1, None))"

definition DeleteSecret :: "'k claw_env \<Rightarrow> ClawVaultClient \<Rightarrow> string \<Rightarrow> 'k \<Rightarrow> 'k \<times> go_error option" where
  "DeleteSecret ce c key k =
     (let (k1, out) = run_cmd ce (claw_timeout c) [''secret-tool'', ''clear'', ''kingcrab'', key] [] k
      in case cmd_err out of
           Some err \<Rightarrow> (k1, Some (''secret-tool delete failed: '' @ cmd_error_text err @ '' - '' @ cmd_stderr out))
         | None \<Rightarrow> (k1, None))"

definition LookupSecret :: "'k claw_env \<Rightarrow> ClawVaultClient \<Rightarrow> string \<Rightarrow> 'k \<Rightarrow> 'k \<times> (go_error + string)" where
  "LookupSecret ce c key k =
     (let (k1, out) = run_cmd ce (claw_timeout c) [''secret-tool'', ''lookup'', ''kingcrab'', key] [] k
      in case cmd_err out of
           Some err \<Rightarrow> (k1, Inl (''secret-tool lookup failed: '' @ cmd_error_text err @ '' - '' @ cmd_stderr out))
         | None \<Rightarrow> (k1, Inr (trim_space (cmd_stdout out))))"

definition SearchSecret :: "'k claw_env \<Rightarrow> ClawVaultClient \<Rightarrow> string \<Rightarrow> 'k \<Rightarrow> 'k \<times> (go_error + bool)" where
  "SearchSecret ce c key k =
     (let (k1, out) = run_cmd ce (claw_timeout c) [''secret-tool'', ''search'', ''kingcrab'', key] [] k
      in case cmd_err out of
           Some err \<Rightarrow> (k1, Inl (''secret-tool search failed: '' @ cmd_error_text err @ '' - '' @ cmd_stderr out))
         | None \<Rightarrow> if trim_space (cmd_stdout out) = [] then (k1, Inr False) else (k1, Inr True))"

section \<open>The token store\<close>

record ClawVaultTokenStore =
  claw_prefix :: string
  claw_client :: ClawVaultClient
  claw_store_timeout :: duration

definition NewClawVaultTokenStore :: "string \<Rightarrow> int \<Rightarrow> ClawVaultTokenStore" where
  "NewClawVaultTokenStore prefix timeoutSec =
     \<lparr>claw_prefix = prefix, claw_client = NewClawVaultClient timeoutSec,
      claw_store_timeout = dur_times timeoutSec time_Second\<rparr>"

definition claw_key :: "token_env \<Rightarrow> ClawVaultTokenStore \<Rightarrow> string \<Rightarrow> string" where
  "claw_key te st userID = claw_prefix st @ ''/'' @ sanitizeUserID te userID"

definition claw_Store ::
  "token_env \<Rightarrow> 'k claw_env \<Rightarrow> ClawVaultTokenStore \<Rightarrow> string \<Rightarrow> Token \<Rightarrow> 'k \<Rightarrow> 'k \<times> go_error option" where
  "claw_Store te ce st userID token k =
     (case marshal_token te token of
        Inl err \<Rightarrow> (k, Some (''marshal token: '' @ err))
      | Inr data \<Rightarrow>
          (case SetSecret ce (claw_client st) (claw_key te st userID) data k of
             (k1, Some err) \<Rightarrow> (k1, Some (''set secret: '' @ err))
           | (k1, None) \<Rightarrow> (k1, None)))"

definition claw_read ::
  "'k claw_env \<Rightarrow> ClawVaultClient \<Rightarrow> string \<Rightarrow> 'k \<Rightarrow> 'k \<times> (go_error + string)" where
  "claw_read ce c key k =
     (case LookupSecret ce c key k of
        (k1, Inr data) \<Rightarrow> (k1, Inr data)
      | (k1, Inl _) \<Rightarrow>
          (case GetSecret ce c key k1 of
             (k2, Inl err) \<Rightarrow> (k2, Inl (''failed to retrieve secret from clawvault: '' @ err))
           | (k2, Inr data) \<Rightarrow> (k2, Inr data)))"

definition claw_Retrieve ::
  "token_env \<Rightarrow> 'k claw_env \<Rightarrow> ClawVaultTokenStore \<Rightarrow> string \<Rightarrow> 'k \<Rightarrow> 'k \<times> (go_error + Token option)" where
  "claw_Retrieve te ce st userID k =
     (let key = claw_key te st userID
      in case SearchSecret ce (claw_client st) key k of
           (k1, Inl err) \<Rightarrow> (k1, Inl (''failed to search for secret in clawvault: '' @ err))
         | (k1, Inr found) \<Rightarrow>
             if \<not> found then (k1, Inr None)
             else case claw_read ce (claw_client st) key k1 of
                    (k2, Inl err) \<Rightarrow> (k2, Inl err)
                  | (k2, Inr data) \<Rightarrow>
                      if data = [] then (k2, Inr None)
                      else case unmarshal_token te data of
                             Inl err \<Rightarrow> (k2, Inl (''unmarshal token: '' @ err))
                           | Inr token \<Rightarrow> (k2, Inr (Some token)))"

definition claw_Delete ::
  "token_env \<Rightarrow> 'k claw_env \<Rightarrow> ClawVaultTokenStore \<Rightarrow> string \<Rightarrow> 'k \<Rightarrow> 'k \<times> go_error option" where
  "claw_Delete te ce st userID k =
     (case DeleteSecret ce (claw_client st) (claw_key te st userID) k of
        (k1, Some err) \<Rightarrow> (k1, Some (''delete secret: '' @ err))
      | (k1, None) \<Rightarrow> (k1, None))"

definition claw_CheckAvailability :: "(string \<Rightarrow> go_error option) \<Rightarrow> go_error option" where
  "claw_CheckAvailability look = CheckAvailability look"

definition claw_token_store :: "token_env \<Rightarrow> 'k claw_env \<Rightarrow> ClawVaultTokenStore \<Rightarrow> 'k TokenStore" where
  "claw_token_store te ce st =
     \<lparr>TokStore = claw_Store te ce st, TokRetrieve = claw_Retrieve te ce st, TokDelete = claw_Delete te ce st\<rparr>"

section \<open>The contract\<close>

text \<open>
  The documented behaviour of the two tools: \<open>store\<close> files the standard input under the
  attribute, \<open>lookup\<close> and \<open>resolve\<close> print it, \<open>search\<close> prints something exactly when it
  is there, \<open>clear\<close> removes it; no command touches other attributes, and a failed \<open>clear\<close>
  leaves the secret in place. Any command may fail.
\<close>

definition files_secret :: "'k claw_env \<Rightarrow> ('k \<Rightarrow> string \<Rightarrow> string option) \<Rightarrow> bool" where
  "files_secret ce secret \<longleftrightarrow>
     (\<forall>t lab key v k k' out.
        run_cmd ce t [''secret-tool'', ''store'', ''--label'', lab, ''kingcrab'', key] v k = (k', out) \<longrightarrow>
        (\<forall>j. j \<noteq> key \<longrightarrow> secret k' j = secret k j) \<and> (cmd_err out = None \<longrightarrow> secret k' key = Some v))"

definition clears_secret :: "'k claw_env \<Rightarrow> ('k \<Rightarrow> string \<Rightarrow> string option) \<Rightarrow> bool" where
  "clears_secret ce secret \<longleftrightarrow>
     (\<forall>t key k k' out. run_cmd ce t [''secret-tool'', ''clear'', ''kingcrab'', key] [] k = (k', out) \<longrightarrow>
        secret k' = (if cmd_err out = None then (secret k)(key := None) else secret k))"

definition finds_secret :: "'k claw_env \<Rightarrow> ('k \<Rightarrow> string \<Rightarrow> string option) \<Rightarrow> bool" where
  "finds_secret ce secret \<longleftrightarrow>
     (\<forall>t key k k' out. run_cmd ce t [''secret-tool'', ''search'', ''kingcrab'', key] [] k = (k', out) \<longrightarrow>
        secret k' = secret k \<and>
        (cmd_err out = None \<longrightarrow> (trim_space (cmd_stdout out) \<noteq> [] \<longleftrightarrow> secret k key \<noteq> None)))"

definition prints_secret :: "'k claw_env \<Rightarrow> ('k \<Rightarrow> string \<Rightarrow> string option) \<Rightarrow> bool" where
  "prints_secret ce secret \<longleftrightarrow>
     (\<forall>t key argv k k' out.
        argv = [''secret-tool'', ''lookup'', ''kingcrab'', key] \<or> argv = [''clawvault'', ''resolve'', key] \<longrightarrow>
        run_cmd ce t argv [] k = (k', out) \<longrightarrow>
        secret k' = secret k \<and>
        (cmd_err out = None \<longrightarrow> (\<exists>v. secret k key = Some v \<and> trim_space (cmd_stdout out) = trim_space v)))"

definition keyring_laws :: "'k claw_env \<Rightarrow> ('k \<Rightarrow> string \<Rightarrow> string option) \<Rightarrow> bool" where
  "keyring_laws ce secret \<longleftrightarrow>
     files_secret ce secret \<and> clears_secret ce secret \<and> finds_secret ce secret \<and> prints_secret ce secret"

text \<open>The client's operations under these laws.\<close>

lemma SetSecret_law:
  "files_secret ce secret \<Longrightarrow> SetSecret ce c key v k = (k', e) \<Longrightarrow>
     (\<forall>j. j \<noteq> key \<longrightarrow> secret k' j = secret k j) \<and> (e = None \<longrightarrow> secret k' key = Some v)"
  unfolding files_secret_def
  by (auto simp: SetSecret_def split: option.splits prod.splits)

lemma DeleteSecret_law:
  "clears_secret ce secret \<Longrightarrow> DeleteSecret ce c key k = (k', e) \<Longrightarrow>
     secret k' = (if e = None then (secret k)(key := None) else secret k)"
  unfolding clears_secret_def
  by (auto simp: DeleteSecret_def split: option.splits prod.splits)

lemma SearchSecret_law:
  assumes "finds_secret ce secret" "SearchSecret ce c key k = (k', q)"
  shows "secret k' = secret k \<and> (\<forall>b. q = Inr b \<longrightarrow> b = (secret k key \<noteq> None))"
proof -
  obtain k1 out where r: "run_cmd ce (claw_timeout c) [''secret-tool'', ''search'', ''kingcrab'', key] [] k = (k1, out)"
    by fastforce
  from assms(1) [unfolded finds_secret_def] r have "secret k1 = secret k"
    "cmd_err out = None \<Longrightarrow> trim_space (cmd_stdout out) \<noteq> [] \<longleftrightarrow> secret k key \<noteq> None" by blast+
  with assms(2) show ?thesis by (auto simp: SearchSecret_def r split: option.splits if_splits)
qed

lemma LookupSecret_law:
  assumes "prints_secret ce secret" "LookupSecret ce c key k = (k', q)"
  shows "secret k' = secret k \<and> (\<forall>d. q = Inr d \<longrightarrow> (\<exists>v. secret k key = Some v \<and> d = trim_space v))"
  using assms(2) assms(1) [unfolded prints_secret_def, rule_format, OF disjI1, OF refl, of "claw_timeout c" key k]
  by (auto simp: LookupSecret_def split: option.splits prod.splits)

lemma GetSecret_law:
  assumes "prints_secret ce secret" "GetSecret ce c key k = (k', q)"
  shows "secret k' = secret k \<and> (\<forall>d. q = Inr d \<longrightarrow> (\<exists>v. secret k key = Some v \<and> d = trim_space v))"
  using assms(2) assms(1) [unfolded prints_secret_def, rule_format, OF disjI2, OF refl, of "claw_timeout c" key k]
  by (auto simp: GetSecret_def split: option.splits prod.splits cmd_error.splits)

lemma claw_read_law:
  assumes "prints_secret ce secret" "claw_read ce c key k = (k', q)"
  shows "secret k' = secret k \<and> (\<forall>d. q = Inr d \<longrightarrow> (\<exists>v. secret k key = Some v \<and> d = trim_space v))"
proof -
  obtain k1 q1 where l: "LookupSecret ce c key k = (k1, q1)" by fastforce
  obtain k2 q2 where g: "GetSecret ce c key k1 = (k2, q2)" by fastforce
  show ?thesis
    using assms(2) LookupSecret_law [OF assms(1) l] GetSecret_law [OF assms(1) g]
    by (auto simp: claw_read_def l g split: sum.splits)
qed

section \<open>The store meets the contract\<close>

text \<open>The token the store would return for a user, and the tokens that survive the codec.\<close>

definition claw_tok ::
  "token_env \<Rightarrow> ClawVaultTokenStore \<Rightarrow> ('k \<Rightarrow> string \<Rightarrow> string option) \<Rightarrow> 'k \<Rightarrow> string \<Rightarrow> Token option" where
  "claw_tok te st secret k u =
     (case secret k (claw_key te st u) of
        None \<Rightarrow> None
      | Some v \<Rightarrow> if trim_space v = [] then None
                  else (case unmarshal_token te (trim_space v) of Inl _ \<Rightarrow> None | Inr t \<Rightarrow> Some t))"

definition claw_survives :: "token_env \<Rightarrow> Token \<Rightarrow> bool" where
  "claw_survives te t \<longleftrightarrow>
     (\<exists>d. marshal_token te t = Inr d \<and> d \<noteq> [] \<and> trim_space d = d \<and> unmarshal_token te d = Inr t)"

lemma claw_key_inj:
  "inj_on (sha256 te) users \<Longrightarrow> u \<in> users \<Longrightarrow> v \<in> users \<Longrightarrow> v \<noteq> u \<Longrightarrow> claw_key te st v \<noteq> claw_key te st u"
  by (auto simp: claw_key_def sanitizeUserID_def hex_encode_inj inj_on_eq_iff)

lemma claw_tok_cong: "secret k' = secret k \<Longrightarrow> claw_tok te st secret k' = claw_tok te st secret k"
  by (simp add: claw_tok_def fun_eq_iff)

lemma claw_tok_other:
  "secret k' (claw_key te st v) = secret k (claw_key te st v) \<Longrightarrow> claw_tok te st secret k' v = claw_tok te st secret k v"
  by (simp add: claw_tok_def)

lemma claw_Retrieve_law:
  assumes "keyring_laws ce secret" "claw_Retrieve te ce st u k = (k', q)"
  shows "claw_tok te st secret k' = claw_tok te st secret k \<and> (\<forall>x. q = Inr x \<longrightarrow> x = claw_tok te st secret k u)"
proof -
  let ?key = "claw_key te st u" and ?c = "claw_client st"
  obtain k1 q1 where s1: "SearchSecret ce ?c ?key k = (k1, q1)" by fastforce
  obtain k2 q2 where s2: "claw_read ce ?c ?key k1 = (k2, q2)" by fastforce
  have l1: "secret k1 = secret k" "\<forall>b. q1 = Inr b \<longrightarrow> b = (secret k ?key \<noteq> None)"
    using SearchSecret_law [OF _ s1] assms(1) by (auto simp: keyring_laws_def)
  have l2: "secret k2 = secret k1" "\<forall>d. q2 = Inr d \<longrightarrow> (\<exists>v. secret k1 ?key = Some v \<and> d = trim_space v)"
    using claw_read_law [OF _ s2] assms(1) by (auto simp: keyring_laws_def)
  have r: "k' = k1 \<or> k' = k2"
    "\<forall>x. q = Inr x \<longrightarrow> q1 = Inr False \<and> x = None \<or>
       (\<exists>d. q2 = Inr d \<and> (if d = [] then x = None else \<exists>t. unmarshal_token te d = Inr t \<and> x = Some t))"
    using assms(2) by (auto simp: claw_Retrieve_def s1 s2 split: sum.splits if_splits)
  have "x = claw_tok te st secret k u" if "q = Inr x" for x
  proof (cases "q1 = Inr False")
    case True
    then have "secret k ?key = None" using l1(2) by auto
    with True r(2) that show ?thesis
      using l2 l1(1) by (auto simp: claw_tok_def split: if_splits)
  next
    case False
    with r(2) that obtain d where d: "q2 = Inr d"
      "if d = [] then x = None else \<exists>t. unmarshal_token te d = Inr t \<and> x = Some t" by blast
    then obtain v where "secret k ?key = Some v" "d = trim_space v" using l2(2) l1(1) by auto
    with d(2) show ?thesis by (auto simp: claw_tok_def split: if_splits)
  qed
  moreover have "secret k' = secret k" using r(1) l1(1) l2(1) by auto
  ultimately have "secret k' = secret k" "\<forall>x. q = Inr x \<longrightarrow> x = claw_tok te st secret k u" by blast+
  then show ?thesis using claw_tok_cong [of secret k' k te st] by blast
qed

text \<open>
  Under the laws of the keyring the ClawVault store is a token store like the local one, so
  every fact proved in the interface holds for it; no invariant of its own is needed.
\<close>

lemma claw_token_store_contract:
  assumes "keyring_laws ce secret" "inj_on (sha256 te) users"
  shows "token_store (claw_token_store te ce st) (claw_tok te st secret) (\<lambda>k. True) users (claw_survives te)"
proof (unfold_locales, goal_cases)
  case (1 s u s' q)
  then show ?case using claw_Retrieve_law [OF assms(1), of te st u s s' q] by (simp add: claw_token_store_def)
next
  case (2 s u t s' e)
  from 2(3) obtain d where d: "marshal_token te t = Inr d" "d \<noteq> []" "trim_space d = d" "unmarshal_token te d = Inr t"
    by (auto simp: claw_survives_def)
  obtain k1 e1 where w: "SetSecret ce (claw_client st) (claw_key te st u) d s = (k1, e1)" by fastforce
  have l: "\<forall>j. j \<noteq> claw_key te st u \<longrightarrow> secret k1 j = secret s j" "e1 = None \<longrightarrow> secret k1 (claw_key te st u) = Some d"
    using SetSecret_law [OF _ w] assms(1) by (auto simp: keyring_laws_def)
  have r: "s' = k1" "e = None \<longleftrightarrow> e1 = None"
    using 2(4) by (auto simp: claw_token_store_def claw_Store_def d(1) w split: option.splits)
  have "claw_tok te st secret k1 v = claw_tok te st secret s v" if "v \<in> users" "v \<noteq> u" for v
    using l(1) claw_key_inj [OF assms(2) 2(2) that] by (intro claw_tok_other) blast
  moreover have "e1 = None \<longrightarrow> claw_tok te st secret k1 u = Some t"
    using l(2) d by (auto simp: claw_tok_def)
  ultimately show ?case using r by simp
next
  case (3 s u s' e)
  obtain k1 e1 where w: "DeleteSecret ce (claw_client st) (claw_key te st u) s = (k1, e1)" by fastforce
  have l: "secret k1 = (if e1 = None then (secret s)(claw_key te st u := None) else secret s)"
    using DeleteSecret_law [OF _ w] assms(1) by (auto simp: keyring_laws_def)
  have r: "s' = k1" "e = None \<longleftrightarrow> e1 = None"
    using 3(3) by (auto simp: claw_token_store_def claw_Delete_def w split: option.splits)
  have "claw_tok te st secret k1 v = claw_tok te st secret s v" if "v \<in> users" "v \<noteq> u" for v
    using l claw_key_inj [OF assms(2) 3(2) that] by (intro claw_tok_other) (auto split: if_splits)
  moreover have "claw_tok te st secret k1 u = (if e1 = None then None else claw_tok te st secret s u)"
    using l by (auto simp: claw_tok_def split: if_splits)
  ultimately show ?case using r by simp
qed

section \<open>Properties\<close>

text \<open>
  C18: the ClawVault store returns what was stored and keeps users apart. After a successful
  \<open>Store\<close> for a user, a \<open>Retrieve\<close> that reports no error returns that token for this
  user and, for every other user, what it would have returned before, whether the secret was
  printed by \<open>secret-tool\<close> or, that failing, by \<open>clawvault\<close>.
\<close>

theorem claw_store_retrieve:
  assumes "keyring_laws ce secret" "inj_on (sha256 te) users" "u \<in> users" "v \<in> users" "claw_survives te t"
    "claw_Store te ce st u t k = (k1, None)" "claw_Retrieve te ce st v k1 = (k2, Inr q)"
  shows "q = (if v = u then Some t else claw_tok te st secret k v)"
proof -
  note laws = claw_token_store_contract [OF assms(1,2), of st]
  have s: "TokStore (claw_token_store te ce st) u t k = (k1, None)"
    and r: "TokRetrieve (claw_token_store te ce st) v k1 = (k2, Inr q)"
    using assms(6,7) by (simp_all add: claw_token_store_def)
  show ?thesis
    using token_store.store [OF laws _ assms(3,5) s] token_store.retrieve [OF laws _ r] assms(4) by auto
qed

text \<open>A keyring held in a list of pairs, whose \<open>lookup\<close> always fails.\<close>

definition sample_keyring ::
  "duration \<Rightarrow> string list \<Rightarrow> string \<Rightarrow> (string \<times> string) list \<Rightarrow> (string \<times> string) list \<times> cmd_outcome" where
  "sample_keyring t argv input k =
     (let fine = (\<lambda>out. \<lparr>cmd_stdout = out, cmd_stderr = [], cmd_err = None\<rparr>);
          failed = \<lparr>cmd_stdout = [], cmd_stderr = ''no'', cmd_err = Some (CmdExit 1 ''exit status 1'')\<rparr>
      in if take 2 argv = [''secret-tool'', ''store''] then ((last argv, input) # k, fine [])
         else if take 2 argv = [''secret-tool'', ''clear''] then (filter (\<lambda>x. fst x \<noteq> last argv) k, fine [])
         else if take 2 argv = [''secret-tool'', ''search''] then
           (k, fine (if map_of k (last argv) = None then [] else ''[/1]''))
         else if take 2 argv = [''clawvault'', ''resolve''] then
           (case map_of k (last argv) of None \<Rightarrow> (k, failed) | Some v \<Rightarrow> (k, fine v))
         else (k, failed))"

definition sample_claw :: "(string \<times> string) list claw_env" where
  "sample_claw = \<lparr>run_cmd = sample_keyring, stdin_pipe = None, json_secrets = (\<lambda>_. Inr [])\<rparr>"

lemma map_of_clear: "map_of (filter (\<lambda>x. fst x \<noteq> key) k) = (map_of k)(key := None)"
  by (induction k) (auto simp: fun_eq_iff)

lemma sample_keyring_laws: "keyring_laws sample_claw map_of"
proof -
  have t: "trim_space [] = []" "trim_space ''[/1]'' \<noteq> []" by code_simp+
  have "files_secret sample_claw map_of"
    unfolding files_secret_def by (auto simp: sample_claw_def sample_keyring_def Let_def)
  moreover have "clears_secret sample_claw map_of"
    unfolding clears_secret_def by (auto simp: sample_claw_def sample_keyring_def Let_def map_of_clear)
  moreover have "finds_secret sample_claw map_of"
    unfolding finds_secret_def using t by (auto simp: sample_claw_def sample_keyring_def Let_def)
  moreover have "prints_secret sample_claw map_of"
    unfolding prints_secret_def by (auto simp: sample_claw_def sample_keyring_def Let_def split: option.splits)
  ultimately show ?thesis by (simp add: keyring_laws_def)
qed

definition sample_vault :: ClawVaultTokenStore where
  "sample_vault = NewClawVaultTokenStore ''kingcrab/pam/tokens'' 5"

theorem claw_store_retrieve_witness:
  "\<exists>k1 k2 q. claw_Store toy_env sample_claw sample_vault ''tg:1'' toy_token [] = (k1, None) \<and>
     claw_Retrieve toy_env sample_claw sample_vault ''tg:1'' k1 = (k2, Inr q) \<and> q = Some toy_token"
proof -
  let ?w = "claw_Store toy_env sample_claw sample_vault ''tg:1'' toy_token []"
  let ?r = "claw_Retrieve toy_env sample_claw sample_vault ''tg:1'' (fst ?w)"
  have inj: "inj_on (sha256 toy_env) UNIV" by (simp add: toy_env_def)
  have "trim_space ''bio'' = ''bio''" by code_simp
  then have t: "claw_survives toy_env toy_token" by (simp add: claw_survives_def toy_env_def toy_token_def)
  have "snd ?w = None" by code_simp
  then have w: "?w = (fst ?w, None)" by (metis prod.collapse)
  have "isl (snd ?r) = False" by code_simp
  then obtain k2 q where r: "?r = (k2, Inr q)" by (cases ?r; cases "snd ?r") auto
  from claw_store_retrieve [OF sample_keyring_laws inj UNIV_I UNIV_I t w r] w r show ?thesis by auto
qed

end
