(* ===== verification/Config.thy ===== *)
theory Config
  imports InitData Tokens
begin

text \<open>
  \<open>internal/config/config.go\<close>: the configuration with its defaults, the file and the
  environment. A nil section is \<open>None\<close>. The JSON decoder is an argument: it overwrites
  what the file names and may, on the document \<open>null\<close>, set the pointer it was given to nil.
\<close>

section \<open>The configuration\<close>

record ListenConfig =
  listen_Type :: string
  listen_Path :: string
  listen_Port :: int

record TelegramConfig =
  tg_BotToken :: string
  tg_AllowedUsers :: "int list"
  tg_WebhookURL :: string

record AuthConfig =
  PluginToken :: string

record AuditConfig =
  audit_Enabled :: bool
  audit_LogPath :: string

record RateLimitConfig =
  rate_Enabled :: bool
  RequestsPerMin :: int

record WebhookConfig =
  hook_URL :: string
  hook_Secret :: string

record RetentionConfig =
  retention_Days :: int

record SecurityConfig =
  sec_AllowedCommands :: "string list"
  sec_RequireReason :: bool

record DatabaseConfig =
  pg_Host :: string
  pg_Port :: int
  pg_User :: string
  pg_PasswordEnv :: string
  pg_DBName :: string
  pg_SSLMode :: string

record OpenClawConfig =
  claw_WebhookURL :: string
  claw_Enabled :: bool

record Config =
  cfg_Version :: string
  Listen :: ListenConfig
  AllowedCommands :: "string list"
  RequireReason :: bool
  AutoApproveTimeout :: int
  LogDir :: string
  DataDir :: string
  cfg_Port :: int
  SocketPath :: string
  LogLevel :: string
  Auth :: "AuthConfig option"
  Telegram :: "TelegramConfig option"
  Audit :: "AuditConfig option"
  RateLimit :: "RateLimitConfig option"
  Webhook :: "WebhookConfig option"
  Retention :: "RetentionConfig option"
  Security :: "SecurityConfig option"
  Database :: "DatabaseConfig option"
  cfg_PAM :: "PAMConfig option"
  OpenClaw :: "OpenClawConfig option"

definition DefaultConfig :: "(string \<Rightarrow> string) \<Rightarrow> Config" where
  "DefaultConfig env =
     \<lparr>cfg_Version = ''0.1.0'',
      Listen = \<lparr>listen_Type = ''unix'', listen_Path = ''/var/run/kingcrab.sock'', listen_Port = 0\<rparr>,
      AllowedCommands = [''apt install *'', ''apt update'', ''systemctl restart *'', ''systemctl start *'',
        ''systemctl stop *'', ''systemctl status *''],
      RequireReason = True, AutoApproveTimeout = 0, LogDir = ''/var/log/kingcrab'',
      DataDir = ''/var/lib/kingcrab'', cfg_Port = 8080, SocketPath = ''/var/run/kingcrab.sock'',
      LogLevel = ''info'', Auth = None,
      Telegram = Some \<lparr>tg_BotToken = [], tg_AllowedUsers = [], tg_WebhookURL = []\<rparr>,
      Audit = None, RateLimit = None, Webhook = None, Retention = None, Security = None, Database = None,
      cfg_PAM = Some DefaultPAMConfig,
      OpenClaw = Some \<lparr>claw_WebhookURL = env ''KINGCRAB_OPENCLAW_WEBHOOK'',
        claw_Enabled = (env ''KINGCRAB_OPENCLAW_WEBHOOK'' \<noteq> [])\<rparr>\<rparr>"

section \<open>The environment\<close>

definition zero_database :: DatabaseConfig where
  "zero_database = \<lparr>pg_Host = [], pg_Port = 0, pg_User = [], pg_PasswordEnv = [], pg_DBName = [], pg_SSLMode = []\<rparr>"

text \<open>\<open>strconv.Atoi\<close> followed by the range check of a port.\<close>

definition port_of :: "string \<Rightarrow> int option" where
  "port_of s = (case ParseInt s of Inl _ \<Rightarrow> None | Inr p \<Rightarrow> if p > 0 \<and> p < 65536 then Some p else None)"

text \<open>The six assignments, in the order of the code.\<close>

definition fill_Host :: "(string \<Rightarrow> string) \<Rightarrow> DatabaseConfig \<Rightarrow> DatabaseConfig" where
  "fill_Host env d = (if env ''KINGCRAB_DB_HOST'' \<noteq> [] \<and> pg_Host d = [] then d\<lparr>pg_Host := env ''KINGCRAB_DB_HOST''\<rparr> else d)"

definition fill_Port :: "(string \<Rightarrow> string) \<Rightarrow> DatabaseConfig \<Rightarrow> DatabaseConfig" where
  "fill_Port env d =
     (if env ''KINGCRAB_DB_PORT'' \<noteq> [] \<and> pg_Port d = 0
      then (case port_of (env ''KINGCRAB_DB_PORT'') of None \<Rightarrow> d | Some p \<Rightarrow> d\<lparr>pg_Port := p\<rparr>) else d)"

definition fill_User :: "(string \<Rightarrow> string) \<Rightarrow> DatabaseConfig \<Rightarrow> DatabaseConfig" where
  "fill_User env d = (if env ''KINGCRAB_DB_USER'' \<noteq> [] \<and> pg_User d = [] then d\<lparr>pg_User := env ''KINGCRAB_DB_USER''\<rparr> else d)"

definition fill_PasswordEnv :: "(string \<Rightarrow> string) \<Rightarrow> DatabaseConfig \<Rightarrow> DatabaseConfig" where
  "fill_PasswordEnv env d =
     (if env ''KINGCRAB_DB_PASSWORD'' \<noteq> [] \<and> pg_PasswordEnv d = []
      then d\<lparr>pg_PasswordEnv := ''KINGCRAB_DB_PASSWORD''\<rparr> else d)"

definition fill_DBName :: "(string \<Rightarrow> string) \<Rightarrow> DatabaseConfig \<Rightarrow> DatabaseConfig" where
  "fill_DBName env d = (if env ''KINGCRAB_DB_NAME'' \<noteq> [] \<and> pg_DBName d = [] then d\<lparr>pg_DBName := env ''KINGCRAB_DB_NAME''\<rparr> else d)"

definition fill_SSLMode :: "(string \<Rightarrow> string) \<Rightarrow> DatabaseConfig \<Rightarrow> DatabaseConfig" where
  "fill_SSLMode env d = (if env ''KINGCRAB_DB_SSLMODE'' \<noteq> [] \<and> pg_SSLMode d = [] then d\<lparr>pg_SSLMode := env ''KINGCRAB_DB_SSLMODE''\<rparr> else d)"

definition override_database :: "(string \<Rightarrow> string) \<Rightarrow> DatabaseConfig \<Rightarrow> DatabaseConfig" where
  "override_database env d =
     fill_SSLMode env (fill_DBName env (fill_PasswordEnv env (fill_User env (fill_Port env (fill_Host env d)))))"

definition has_database_env :: "(string \<Rightarrow> string) \<Rightarrow> bool" where
  "has_database_env env \<longleftrightarrow>
     env ''KINGCRAB_DB_HOST'' \<noteq> [] \<or> env ''KINGCRAB_DB_PORT'' \<noteq> [] \<or> env ''KINGCRAB_DB_USER'' \<noteq> [] \<or>
     env ''KINGCRAB_DB_PASSWORD'' \<noteq> [] \<or> env ''KINGCRAB_DB_NAME'' \<noteq> [] \<or> env ''KINGCRAB_DB_SSLMODE'' \<noteq> []"

definition applyDatabaseEnvOverrides :: "(string \<Rightarrow> string) \<Rightarrow> Config \<Rightarrow> Config" where
  "applyDatabaseEnvOverrides env cfg =
     (if \<not> has_database_env env then cfg
      else
        let d = (case Database cfg of None \<Rightarrow> zero_database | Some d \<Rightarrow> d)
        in cfg\<lparr>Database := Some (override_database env d)\<rparr>)"

section \<open>Loading\<close>

text \<open>What the file system answers and what the decoder does; a nil dereference is a panic.\<close>

record config_env =
  conf_getenv :: "string \<Rightarrow> string"
  conf_missing :: "string \<Rightarrow> bool" \<comment> \<open>\<open>os.IsNotExist\<close> of the error of \<open>os.Stat\<close>\<close>
  conf_read :: "string \<Rightarrow> go_error + string"
  conf_unmarshal :: "string \<Rightarrow> Config \<Rightarrow> go_error + Config option"

datatype load_result =
    Loaded Config
  | LoadError go_error
  | LoadPanic

definition override_port :: "(string \<Rightarrow> string) \<Rightarrow> Config \<Rightarrow> Config" where
  "override_port env cfg =
     (if env ''KINGCRAB_PORT'' = [] then cfg
      else case port_of (env ''KINGCRAB_PORT'') of
             None \<Rightarrow> cfg
           | Some p \<Rightarrow> cfg\<lparr>cfg_Port := p, Listen := (Listen cfg)\<lparr>listen_Port := p\<rparr>\<rparr>)"

definition Load :: "config_env \<Rightarrow> string \<Rightarrow> load_result" where
  "Load ce path =
     (let cfg = DefaultConfig (conf_getenv ce)
      in if conf_missing ce path then Loaded (applyDatabaseEnvOverrides (conf_getenv ce) cfg)
         else case conf_read ce path of
           Inl err \<Rightarrow> LoadError err
         | Inr data \<Rightarrow>
             (case conf_unmarshal ce data cfg of
                Inl err \<Rightarrow> LoadError err
              | Inr None \<Rightarrow> LoadPanic
              | Inr (Some cfg1) \<Rightarrow>
                  let cfg2 = applyDatabaseEnvOverrides (conf_getenv ce) (override_port (conf_getenv ce) cfg1)
                  in Loaded (if SocketPath cfg2 = [] \<and> listen_Path (Listen cfg2) \<noteq> []
                             then cfg2\<lparr>SocketPath := listen_Path (Listen cfg2)\<rparr> else cfg2)))"

section \<open>Properties\<close>

lemma port_of_empty [simp]: "port_of [] = None"
  by code_simp

lemma fill_fields [simp]:
  "pg_Host (fill_Host env d) = (if pg_Host d = [] then env ''KINGCRAB_DB_HOST'' else pg_Host d)"
  "pg_Port (fill_Host env d) = pg_Port d"
  "pg_User (fill_Host env d) = pg_User d"
  "pg_PasswordEnv (fill_Host env d) = pg_PasswordEnv d"
  "pg_DBName (fill_Host env d) = pg_DBName d"
  "pg_SSLMode (fill_Host env d) = pg_SSLMode d"
  "pg_Host (fill_Port env d) = pg_Host d"
  "pg_Port (fill_Port env d) = (if pg_Port d = 0 \<and> env ''KINGCRAB_DB_PORT'' \<noteq> []
     then (case port_of (env ''KINGCRAB_DB_PORT'') of None \<Rightarrow> 0 | Some p \<Rightarrow> p) else pg_Port d)"
  "pg_User (fill_Port env d) = pg_User d"
  "pg_PasswordEnv (fill_Port env d) = pg_PasswordEnv d"
  "pg_DBName (fill_Port env d) = pg_DBName d"
  "pg_SSLMode (fill_Port env d) = pg_SSLMode d"
  "pg_Host (fill_User env d) = pg_Host d"
  "pg_Port (fill_User env d) = pg_Port d"
  "pg_User (fill_User env d) = (if pg_User d = [] then env ''KINGCRAB_DB_USER'' else pg_User d)"
  "pg_PasswordEnv (fill_User env d) = pg_PasswordEnv d"
  "pg_DBName (fill_User env d) = pg_DBName d"
  "pg_SSLMode (fill_User env d) = pg_SSLMode d"
  "pg_Host (fill_PasswordEnv env d) = pg_Host d"
  "pg_Port (fill_PasswordEnv env d) = pg_Port d"
  "pg_User (fill_PasswordEnv env d) = pg_User d"
  "pg_PasswordEnv (fill_PasswordEnv env d) =
     (if pg_PasswordEnv d = [] \<and> env ''KINGCRAB_DB_PASSWORD'' \<noteq> [] then ''KINGCRAB_DB_PASSWORD'' else pg_PasswordEnv d)"
  "pg_DBName (fill_PasswordEnv env d) = pg_DBName d"
  "pg_SSLMode (fill_PasswordEnv env d) = pg_SSLMode d"
  "pg_Host (fill_DBName env d) = pg_Host d"
  "pg_Port (fill_DBName env d) = pg_Port d"
  "pg_User (fill_DBName env d) = pg_User d"
  "pg_PasswordEnv (fill_DBName env d) = pg_PasswordEnv d"
  "pg_DBName (fill_DBName env d) = (if pg_DBName d = [] then env ''KINGCRAB_DB_NAME'' else pg_DBName d)"
  "pg_SSLMode (fill_DBName env d) = pg_SSLMode d"
  "pg_Host (fill_SSLMode env d) = pg_Host d"
  "pg_Port (fill_SSLMode env d) = pg_Port d"
  "pg_User (fill_SSLMode env d) = pg_User d"
  "pg_PasswordEnv (fill_SSLMode env d) = pg_PasswordEnv d"
  "pg_DBName (fill_SSLMode env d) = pg_DBName d"
  "pg_SSLMode (fill_SSLMode env d) = (if pg_SSLMode d = [] then env ''KINGCRAB_DB_SSLMODE'' else pg_SSLMode d)"
  by (simp_all add: fill_Host_def fill_Port_def fill_User_def fill_PasswordEnv_def fill_DBName_def fill_SSLMode_def
      split: option.split)

lemma override_database_fields:
  "pg_Host (override_database env d) = (if pg_Host d = [] then env ''KINGCRAB_DB_HOST'' else pg_Host d)"
  "pg_Port (override_database env d) = (if pg_Port d = 0 \<and> env ''KINGCRAB_DB_PORT'' \<noteq> []
     then (case port_of (env ''KINGCRAB_DB_PORT'') of None \<Rightarrow> 0 | Some p \<Rightarrow> p) else pg_Port d)"
  "pg_User (override_database env d) = (if pg_User d = [] then env ''KINGCRAB_DB_USER'' else pg_User d)"
  "pg_PasswordEnv (override_database env d) =
     (if pg_PasswordEnv d = [] \<and> env ''KINGCRAB_DB_PASSWORD'' \<noteq> [] then ''KINGCRAB_DB_PASSWORD'' else pg_PasswordEnv d)"
  "pg_DBName (override_database env d) = (if pg_DBName d = [] then env ''KINGCRAB_DB_NAME'' else pg_DBName d)"
  "pg_SSLMode (override_database env d) = (if pg_SSLMode d = [] then env ''KINGCRAB_DB_SSLMODE'' else pg_SSLMode d)"
  by (simp_all add: override_database_def)

lemma override_database_record:
  "override_database env d =
     \<lparr>pg_Host = (if pg_Host d = [] then env ''KINGCRAB_DB_HOST'' else pg_Host d),
      pg_Port = (if pg_Port d = 0 then (case port_of (env ''KINGCRAB_DB_PORT'') of None \<Rightarrow> 0 | Some p \<Rightarrow> p) else pg_Port d),
      pg_User = (if pg_User d = [] then env ''KINGCRAB_DB_USER'' else pg_User d),
      pg_PasswordEnv = (if pg_PasswordEnv d = [] \<and> env ''KINGCRAB_DB_PASSWORD'' \<noteq> []
        then ''KINGCRAB_DB_PASSWORD'' else pg_PasswordEnv d),
      pg_DBName = (if pg_DBName d = [] then env ''KINGCRAB_DB_NAME'' else pg_DBName d),
      pg_SSLMode = (if pg_SSLMode d = [] then env ''KINGCRAB_DB_SSLMODE'' else pg_SSLMode d)\<rparr>"
  by (rule DatabaseConfig.equality) (simp_all add: override_database_fields port_of_empty)

lemma override_port_record:
  "override_port env cfg =
     (case port_of (env ''KINGCRAB_PORT'') of
        None \<Rightarrow> cfg
      | Some p \<Rightarrow> cfg\<lparr>cfg_Port := p, Listen := (Listen cfg)\<lparr>listen_Port := p\<rparr>\<rparr>)"
  by (simp add: override_port_def port_of_empty)

text \<open>Overriding touches nothing but the database section, and that as the section and the variables say.\<close>

lemma applyDatabaseEnvOverrides_base:
  "base\<lparr>Database := Database (applyDatabaseEnvOverrides env base)\<rparr> = applyDatabaseEnvOverrides env base"
  by (simp add: applyDatabaseEnvOverrides_def Let_def)

lemma applyDatabaseEnvOverrides_port:
  "applyDatabaseEnvOverrides env (override_port env base) =
     (override_port env base)\<lparr>Database := Database (applyDatabaseEnvOverrides env base)\<rparr>"
  by (simp add: applyDatabaseEnvOverrides_def Let_def override_port_record split: option.split)

lemma database_of_overrides:
  "Database (applyDatabaseEnvOverrides env base) =
     (if map env [''KINGCRAB_DB_HOST'', ''KINGCRAB_DB_PORT'', ''KINGCRAB_DB_USER'', ''KINGCRAB_DB_PASSWORD'',
        ''KINGCRAB_DB_NAME'', ''KINGCRAB_DB_SSLMODE''] = replicate 6 [] then Database base
      else let d = (case Database base of Some d \<Rightarrow> d | None \<Rightarrow> zero_database)
        in Some \<lparr>pg_Host = (if pg_Host d = [] then env ''KINGCRAB_DB_HOST'' else pg_Host d),
          pg_Port = (if pg_Port d = 0 then (case port_of (env ''KINGCRAB_DB_PORT'') of Some p \<Rightarrow> p | None \<Rightarrow> 0)
            else pg_Port d),
          pg_User = (if pg_User d = [] then env ''KINGCRAB_DB_USER'' else pg_User d),
          pg_PasswordEnv = (if pg_PasswordEnv d = [] \<and> env ''KINGCRAB_DB_PASSWORD'' \<noteq> []
            then ''KINGCRAB_DB_PASSWORD'' else pg_PasswordEnv d),
          pg_DBName = (if pg_DBName d = [] then env ''KINGCRAB_DB_NAME'' else pg_DBName d),
          pg_SSLMode = (if pg_SSLMode d = [] then env ''KINGCRAB_DB_SSLMODE'' else pg_SSLMode d)\<rparr>)"
proof -
  have "(map env [''KINGCRAB_DB_HOST'', ''KINGCRAB_DB_PORT'', ''KINGCRAB_DB_USER'', ''KINGCRAB_DB_PASSWORD'',
      ''KINGCRAB_DB_NAME'', ''KINGCRAB_DB_SSLMODE''] = replicate 6 []) \<longleftrightarrow> \<not> has_database_env env"
    by (simp add: has_database_env_def numeral_eq_Suc) blast
  then show ?thesis
    by (simp only: applyDatabaseEnvOverrides_def override_database_record Let_def if_not_P if_P if_distrib [of Database]
        Config.simps not_not cong: if_cong) simp
qed


definition sample_config_env :: config_env where
  "sample_config_env = \<lparr>
     conf_getenv = (\<lambda>v. if v = ''KINGCRAB_DB_HOST'' then ''env-host'' else if v = ''KINGCRAB_DB_USER'' then ''env-user''
                        else if v = ''KINGCRAB_PORT'' then ''9090'' else []),
     conf_missing = (\<lambda>_. False), conf_read = (\<lambda>_. Inr ''{}''),
     conf_unmarshal = (\<lambda>data cfg. Inr (Some (cfg\<lparr>Database := Some (zero_database\<lparr>pg_Host := ''file-host''\<rparr>)\<rparr>)))\<rparr>"


end
