(* ===== verification/Db.thy ===== *)
theory Db
  imports InitData
begin

text \<open>
  \<open>internal/db/db.go\<close>: the PostgreSQL connection string, the settings from the environment,
  and the migration, which splits an SQL script into statements and runs them in one
  transaction. The driver, the database and the files are arguments.
\<close>

section \<open>Connection settings\<close>

record db_Config =
  dbc_Host :: string
  dbc_Port :: int
  dbc_User :: string
  dbc_Password :: string
  dbc_DBName :: string
  dbc_SSLMode :: string

text \<open>
  \<open>url.URL.String\<close> for this use of it: user and password, host and path are each escaped by
  their own rule, the query by \<open>url.QueryEscape\<close>.
\<close>

definition url_escape :: "string \<Rightarrow> string \<Rightarrow> string" where
  "url_escape keep s =
     concat (map (\<lambda>c. if unreserved c \<or> c \<in> set keep then [c]
                      else [CHR ''%'', hex_upper (of_char c div 16), hex_upper (of_char c mod 16)]) s)"

definition escape_userinfo :: "string \<Rightarrow> string" where
  "escape_userinfo s = url_escape ''$&+,;='' s"

definition escape_path :: "string \<Rightarrow> string" where
  "escape_path s = url_escape ''$&+,/:;=@'' s"

definition escape_host :: "string \<Rightarrow> string" where
  "escape_host s = url_escape (''!$&()*+,;=:[]<>'' @ [CHR 0x22, CHR 0x27]) s"

definition dsn :: "db_Config \<Rightarrow> string" where
  "dsn cfg =
     ''postgres://'' @ escape_userinfo (dbc_User cfg) @ '':'' @ escape_userinfo (dbc_Password cfg) @ ''@'' @
     escape_host (dbc_Host cfg @ '':'' @ show_int (dbc_Port cfg)) @ escape_path (''/'' @ dbc_DBName cfg) @
     ''?sslmode='' @ query_escape (dbc_SSLMode cfg)"

text \<open>The pool: what was opened, and its limits.\<close>

record Connection =
  conn_dsn :: string
  conn_maxOpen :: int
  conn_maxIdle :: int
  conn_maxLifetime :: int \<comment> \<open>minutes\<close>

record db_driver =
  sql_open :: "string \<Rightarrow> go_error option"
  sql_ping :: "string \<Rightarrow> go_error option"

definition NewConnection :: "db_driver \<Rightarrow> db_Config \<Rightarrow> go_error + Connection" where
  "NewConnection drv cfg =
     (let d = dsn cfg
      in case sql_open drv d of
           Some err \<Rightarrow> Inl (''open database: '' @ err)
         | None \<Rightarrow>
             (case sql_ping drv d of
                Some err \<Rightarrow> Inl (''ping database: '' @ err)
              | None \<Rightarrow> Inr \<lparr>conn_dsn = d, conn_maxOpen = 25, conn_maxIdle = 5, conn_maxLifetime = 5\<rparr>))"

definition getEnv :: "(string \<Rightarrow> string) \<Rightarrow> string \<Rightarrow> string \<Rightarrow> string" where
  "getEnv env key def = (if env key \<noteq> [] then env key else def)"

definition getEnvInt :: "(string \<Rightarrow> string) \<Rightarrow> string \<Rightarrow> int \<Rightarrow> int" where
  "getEnvInt env key def =
     (if env key \<noteq> [] then
        (let i = (case sscanf_d (env key) of None \<Rightarrow> 0 | Some n \<Rightarrow> n) in if i > 0 then i else def)
      else def)"

text \<open>Reading the password file: its content, or the error and whether it is \<open>os.IsNotExist\<close>.\<close>

datatype file_read =
    FileData string
  | FileMissing
  | FileError go_error

definition NewConnectionFromEnv ::
  "db_driver \<Rightarrow> (string \<Rightarrow> string) \<Rightarrow> file_read \<Rightarrow> go_error + Connection" where
  "NewConnectionFromEnv drv env pwfile =
     (let password = env ''KINGCRAB_DB_PASSWORD'';
          fromfile = (case pwfile of FileData d \<Rightarrow> Inr (trim_space d) | FileMissing \<Rightarrow> Inr [] | FileError e \<Rightarrow> Inl e);
          pw = (if password = [] then fromfile else Inr password)
      in case pw of
           Inl err \<Rightarrow> Inl (''read password file: '' @ err)
         | Inr password \<Rightarrow>
             let cfg = \<lparr>dbc_Host = getEnv env ''KINGCRAB_DB_HOST'' ''localhost'',
                        dbc_Port = getEnvInt env ''KINGCRAB_DB_PORT'' 5432,
                        dbc_User = getEnv env ''KINGCRAB_DB_USER'' ''kingcrab'', dbc_Password = password,
                        dbc_DBName = getEnv env ''KINGCRAB_DB_NAME'' ''kingcrab'',
                        dbc_SSLMode = getEnv env ''KINGCRAB_DB_SSLMODE'' ''prefer''\<rparr>
             in if dbc_Password cfg = [] then Inl ''KINGCRAB_DB_PASSWORD not set'' else NewConnection drv cfg)"

section \<open>Splitting a script\<close>

text \<open>
  \<open>strings.ToUpper\<close> as far as a search for ASCII text can see it: the lower-case letters,
  and the two letters outside ASCII whose upper case is an ASCII letter.
\<close>

definition upper_rune :: "rune \<Rightarrow> rune" where
  "upper_rune r = (if 97 \<le> r \<and> r \<le> 122 then r - 32 else if r = 0x131 then 73 else if r = 0x17F then 83 else r)"

definition to_upper :: "string \<Rightarrow> string" where
  "to_upper s = string_of_runes (map upper_rune (runes s))"

record split_state =
  sp_statements :: "string list"
  sp_current :: string
  sp_inFunction :: bool

definition split_line :: "string \<Rightarrow> split_state \<Rightarrow> split_state" where
  "split_line line s =
     (let trimmed = trim_space line
      in if trimmed = [] \<or> has_prefix trimmed ''--'' then s
         else
           let inFunction = (sp_inFunction s \<or> contains (to_upper trimmed) ''CREATE OR REPLACE FUNCTION'' \<or>
                             contains (to_upper trimmed) ''CREATE FUNCTION'');
               current = sp_current s @ line @ [CHR 0x0A];
               kept = s\<lparr>sp_current := current, sp_inFunction := inFunction\<rparr>;
               cut_here = s\<lparr>sp_statements := sp_statements s @ [current], sp_current := [], sp_inFunction := False\<rparr>
           in if inFunction \<and> contains trimmed ''$$'' \<and> count_sub current ''$$'' mod 2 = 0 then
                (let afterDollar = trim_space (last_part trimmed ''$$'' [])
                 in if has_suffix afterDollar '';'' \<or> afterDollar = [] then cut_here else kept)
              else if \<not> inFunction \<and> has_suffix trimmed '';'' then cut_here
              else kept)"

definition splitSQLStatements :: "string \<Rightarrow> string list" where
  "splitSQLStatements sql =
     (let s = fold split_line (split_on (CHR 0x0A) sql) \<lparr>sp_statements = [], sp_current = [], sp_inFunction = False\<rparr>
      in if sp_current s \<noteq> [] then sp_statements s @ [sp_current s] else sp_statements s)"

section \<open>The migration\<close>

text \<open>
  The calls of \<open>database/sql\<close> on a state of the driver: those of a transaction, and the
  statement outside one, which the migration does not use. What they promise is \<open>tx_laws\<close> below.
\<close>

record 'd tx_driver =
  tx_begin :: "'d \<Rightarrow> 'd \<times> go_error option"
  tx_exec :: "string \<Rightarrow> 'd \<Rightarrow> 'd \<times> go_error option"
  tx_commit :: "'d \<Rightarrow> 'd \<times> go_error option"
  tx_rollback :: "'d \<Rightarrow> 'd"
  conn_exec :: "string \<Rightarrow> 'd \<Rightarrow> 'd \<times> go_error option"

definition db_min :: "int \<Rightarrow> int \<Rightarrow> int" where
  "db_min a b = (if a < b then a else b)"

text \<open>The statements that are run: the empty ones and the comments are passed over.\<close>

definition skipped :: "string \<Rightarrow> bool" where
  "skipped stmt \<longleftrightarrow> trim_space stmt = [] \<or> has_prefix (trim_space stmt) ''--''"

fun run_statements :: "'d tx_driver \<Rightarrow> nat \<Rightarrow> string list \<Rightarrow> 'd \<Rightarrow> 'd \<times> go_error option" where
  "run_statements drv i [] d = (d, None)"
| "run_statements drv i (stmt # rest) d =
     (if skipped stmt then run_statements drv (i + 1) rest d
      else
        let stmt = trim_space stmt
        in case tx_exec drv stmt d of
             (d1, Some err) \<Rightarrow>
               (d1, Some (''migration statement '' @ show_nat (i + 1) @ '' failed: '' @ err @ [CHR 0x0A] @ ''Statement: '' @
                    take (nat (db_min 100 (int (length stmt)))) stmt))
           | (d1, None) \<Rightarrow> run_statements drv (i + 1) rest d1)"

text \<open>The deferred \<open>Rollback\<close> is called on every return after \<open>BeginTx\<close>, also after a commit.\<close>

definition RunMigrations ::
  "'d tx_driver \<Rightarrow> go_error + string \<Rightarrow> 'd \<Rightarrow> 'd \<times> go_error option" where
  "RunMigrations drv script d =
     (case script of
        Inl err \<Rightarrow> (d, Some (''read embedded migration: '' @ err))
      | Inr sql \<Rightarrow>
          let statements = splitSQLStatements sql
          in case tx_begin drv d of
               (d1, Some err) \<Rightarrow> (d1, Some (''begin migration transaction: '' @ err))
             | (d1, None) \<Rightarrow>
                 (case run_statements drv 0 statements d1 of
                    (d2, Some err) \<Rightarrow> (tx_rollback drv d2, Some err)
                  | (d2, None) \<Rightarrow>
                      (case tx_commit drv d2 of
                         (d3, Some err) \<Rightarrow> (tx_rollback drv d3, Some (''commit migration transaction: '' @ err))
                       | (d3, None) \<Rightarrow> (tx_rollback drv d3, None))))"

section \<open>What a transaction promises\<close>

text \<open>
  \<open>committed\<close> is what other sessions see, \<open>working\<close> the view of the open transaction, \<open>run\<close> the effect
  of a statement. Inside a transaction only \<open>working\<close> changes; a commit that succeeds makes it
  the committed state, one that reports an error may or may not have done so; a rollback drops it.
\<close>

definition tx_laws ::
  "'d tx_driver \<Rightarrow> ('d \<Rightarrow> 'c) \<Rightarrow> ('d \<Rightarrow> 'c option) \<Rightarrow> (string \<Rightarrow> 'c \<Rightarrow> 'c) \<Rightarrow> bool" where
  "tx_laws drv committed working run \<longleftrightarrow>
     (\<forall>d d' e. working d = None \<and> tx_begin drv d = (d', e) \<longrightarrow>
        committed d' = committed d \<and> working d' = (if e = None then Some (committed d) else None)) \<and>
     (\<forall>d w d' e stmt. working d = Some w \<and> tx_exec drv stmt d = (d', e) \<longrightarrow>
        committed d' = committed d \<and> (e = None \<longrightarrow> working d' = Some (run stmt w))) \<and>
     (\<forall>d w d' e. working d = Some w \<and> tx_commit drv d = (d', e) \<longrightarrow>
        (if e = None then committed d' = w else committed d' \<in> {committed d, w})) \<and>
     (\<forall>d. committed (tx_rollback drv d) = committed d \<and> working (tx_rollback drv d) = None)"

lemma run_statements_tx:
  "tx_laws drv committed working run \<Longrightarrow> working d = Some w \<Longrightarrow> run_statements drv i stmts d = (d', e) \<Longrightarrow>
     committed d' = committed d \<and>
     (e = None \<longrightarrow> working d' = Some (fold run (map trim_space (filter (\<lambda>s. \<not> skipped s) stmts)) w))"
proof (induction stmts arbitrary: i d w)
  case (Cons stmt stmts)
  show ?case
  proof (cases "skipped stmt")
    case True
    with Cons.prems(3) have "run_statements drv (i + 1) stmts d = (d', e)" by simp
    from Cons.IH [OF Cons.prems(1,2) this] True show ?thesis by simp
  next
    case False
    obtain d1 e1 where x: "tx_exec drv (trim_space stmt) d = (d1, e1)" by fastforce
    with Cons.prems(1,2) have l: "committed d1 = committed d" "e1 = None \<Longrightarrow> working d1 = Some (run (trim_space stmt) w)"
      unfolding tx_laws_def by blast+
    show ?thesis
    proof (cases e1)
      case None
      with Cons.prems(3) x False have "run_statements drv (i + 1) stmts d1 = (d', e)" by (simp add: Let_def)
      from Cons.IH [OF Cons.prems(1) l(2) [OF None] this] l(1) False show ?thesis by simp
    next
      case (Some err)
      with Cons.prems(3) x False l(1) show ?thesis by (auto simp: Let_def)
    qed
  qed
qed simp

section \<open>Properties\<close>

text \<open>The lines a script keeps: those that are neither blank nor a comment line.\<close>

definition kept_line :: "string \<Rightarrow> bool" where
  "kept_line line \<longleftrightarrow> trim_space line \<noteq> [] \<and> \<not> has_prefix (trim_space line) ''--''"

lemma split_line_text:
  "concat (sp_statements (split_line line s)) @ sp_current (split_line line s) =
     concat (sp_statements s) @ sp_current s @ (if kept_line line then line @ [CHR 0x0A] else [])"
  by (simp add: split_line_def kept_line_def Let_def)

lemma split_lines_text:
  "concat (sp_statements (fold split_line ls s)) @ sp_current (fold split_line ls s) =
     concat (sp_statements s) @ sp_current s @ concat (map (\<lambda>l. l @ [CHR 0x0A]) (filter kept_line ls))"
proof (induction ls arbitrary: s)
  case (Cons l ls)
  have "concat (sp_statements (fold split_line ls (split_line l s))) @ sp_current (fold split_line ls (split_line l s)) =
      (concat (sp_statements (split_line l s)) @ sp_current (split_line l s)) @
      concat (map (\<lambda>l. l @ [CHR 0x0A]) (filter kept_line ls))"
    using Cons by simp
  then show ?case unfolding split_line_text by simp
qed simp

lemma split_line_nonempty: "[] \<notin> set (sp_statements s) \<Longrightarrow> [] \<notin> set (sp_statements (split_line line s))"
  by (auto simp: split_line_def Let_def)

lemma split_lines_nonempty:
  "[] \<notin> set (sp_statements s) \<Longrightarrow> [] \<notin> set (sp_statements (fold split_line ls s))"
  by (induction ls arbitrary: s) (simp_all add: split_line_nonempty)

text \<open>
  C39: splitting a script neither loses nor invents nor reorders text: the statements, put end
  to end, are exactly the lines that are neither blank nor a comment line, each with its
  newline, and no statement is empty.
\<close>

theorem splitSQL_content:
  "concat (splitSQLStatements sql) =
     concat (map (\<lambda>l. l @ [CHR 0x0A]) (filter kept_line (split_on (CHR 0x0A) sql))) \<and>
   [] \<notin> set (splitSQLStatements sql)"
proof -
  let ?s = "fold split_line (split_on (CHR 0x0A) sql) \<lparr>sp_statements = [], sp_current = [], sp_inFunction = False\<rparr>"
  have "concat (sp_statements ?s) @ sp_current ?s =
      concat (map (\<lambda>l. l @ [CHR 0x0A]) (filter kept_line (split_on (CHR 0x0A) sql)))"
    using split_lines_text [of "split_on (CHR 0x0A) sql" "\<lparr>sp_statements = [], sp_current = [], sp_inFunction = False\<rparr>"]
    by simp
  moreover have "[] \<notin> set (sp_statements ?s)" by (rule split_lines_nonempty) simp
  ultimately show ?thesis by (auto simp: splitSQLStatements_def Let_def)
qed


text \<open>A driver over a list of statements, on which one statement fails.\<close>

definition sample_tx :: "(string list \<times> string list option) tx_driver" where
  "sample_tx = \<lparr>tx_begin = (\<lambda>(c, w). ((c, Some c), None)),
     tx_exec = (\<lambda>stmt (c, w). if stmt = ''BROKEN'' then ((c, w), Some ''syntax error'')
                else ((c, map_option (\<lambda>x. x @ [stmt]) w), None)),
     tx_commit = (\<lambda>(c, w). ((case w of None \<Rightarrow> c | Some x \<Rightarrow> x, None), None)),
     tx_rollback = (\<lambda>(c, w). (c, None)),
     conn_exec = (\<lambda>stmt (c, w). ((c @ [stmt], w), None))\<rparr>"

lemma sample_tx_laws: "tx_laws sample_tx fst snd (\<lambda>stmt x. x @ [stmt])"
  by (auto simp: tx_laws_def sample_tx_def split: if_splits)

definition sample_script :: "string \<Rightarrow> string" where
  "sample_script last_line = ''-- schema'' @ [CHR 0x0A] @ ''CREATE TABLE t (x INT);'' @ [CHR 0x0A] @
     ''CREATE OR REPLACE FUNCTION f() AS $$'' @ [CHR 0x0A] @ ''BEGIN; END;'' @ [CHR 0x0A] @ ''$$ LANGUAGE plpgsql;'' @
     [CHR 0x0A] @ last_line"


end
