(* ===== verification/Server.thy ===== *)
theory Server
  imports V1Threads PamHandler ClawVaultStore Config Db Logger
begin

text \<open>
  \<open>internal/daemon/server_v2.go\<close>: the server that \<open>main\<close> runs. It opens the SQLite store and
  the token store, wires the two HTTP interfaces behind a multiplexer and two middlewares, and
  expires old requests every hour. What a request does is a function of the state of the
  two stores; it returns the log lines and the other actions in their order.
\<close>

section \<open>Wiring\<close>

text \<open>The token store that a \<open>store_choice\<close> stands for, on the files and the keyring.\<close>

definition token_store_of ::
  "token_env \<Rightarrow> 'k claw_env \<Rightarrow> store_choice \<Rightarrow> (local_state \<times> 'k) TokenStore" where
  "token_store_of te ce choice =
     (case choice of
        UseLocal st \<Rightarrow>
          \<lparr>TokStore = (\<lambda>u t (l, k). let (l1, e) = local_Store te st u t l in ((l1, k), e)),
           TokRetrieve = (\<lambda>u (l, k). let (l1, q) = local_Retrieve te st u l in ((l1, k), q)),
           TokDelete = (\<lambda>u (l, k). let (l1, e) = local_Delete te st u l in ((l1, k), e))\<rparr>
      | UseVault pfx secs \<Rightarrow>
          let st = NewClawVaultTokenStore pfx secs
          in \<lparr>TokStore = (\<lambda>u t (l, k). let (k1, e) = claw_Store te ce st u t k in ((l, k1), e)),
              TokRetrieve = (\<lambda>u (l, k). let (k1, q) = claw_Retrieve te ce st u k in ((l, k1), q)),
              TokDelete = (\<lambda>u (l, k). let (k1, e) = claw_Delete te ce st u k in ((l, k1), e))\<rparr>)"

record http_server =
  srv_Addr :: string
  srv_ReadTimeout :: duration
  srv_WriteTimeout :: duration
  srv_IdleTimeout :: duration

record 't ServerV2 =
  sv_config :: Config
  sv_store :: "SQLiteRequestStore RequestStore"
  sv_pam :: PAM
  sv_executor :: Executor
  sv_notifier :: OpenClawNotifier
  sv_apiHandler :: "SQLiteRequestStore V1Handler"
  sv_pamHandler :: "(SQLiteRequestStore, 't) Handler option"
  sv_httpServer :: "http_server option"
  sv_allowedOrigins :: "string list"
  sv_cleanupCancel :: bool \<comment> \<open>the cancel function is set\<close>

text \<open>
  The file system, the database driver and the listener, as the server calls them; the
  listener answers after the removal of an old socket, whose error is ignored.
\<close>

record 'k server_os =
  so_host :: host_env
  so_tokens :: token_env
  so_claw :: "'k claw_env"
  so_mkdir :: "string \<Rightarrow> go_error option"
  so_open :: "string \<Rightarrow> go_error option"
  so_schema :: "string \<Rightarrow> go_error option"
  so_file :: "string \<Rightarrow> SQLiteRequestStore"
  so_listen :: "string \<Rightarrow> go_error option"
  so_chmod :: "string \<Rightarrow> go_error option"
  so_serve :: "string \<Rightarrow> go_error" \<comment> \<open>the error with which \<open>Serve\<close> ends\<close>

definition NewServerV2 ::
  "'k server_os \<Rightarrow> clock \<Rightarrow> Config \<Rightarrow> json list \<times> (go_error + 't ServerV2 \<times> SQLiteRequestStore)" where
  "NewServerV2 os clk cfg =
     (let dbPath = (if DataDir cfg \<noteq> [] then path_join [DataDir cfg, ''requests.db''] else '':memory:'');
          made = (if DataDir cfg \<noteq> [] then so_mkdir os (DataDir cfg) else None)
      in case made of
           Some err \<Rightarrow> ([], Inl (''create data directory: '' @ err))
         | None \<Rightarrow>
      (case NewSQLiteRequestStore (so_open os dbPath) (so_schema os dbPath) (so_file os dbPath) of
         Inl err \<Rightarrow> ([], Inl (''initialize sqlite request store: '' @ err))
       | Inr db \<Rightarrow>
      (case NewPAM (so_host os) (cfg_PAM cfg) of
         Inl err \<Rightarrow> ([], Inl (''initialize PAM: '' @ err))
       | Inr p \<Rightarrow>
           let ex = NewExecutor (AllowedCommands cfg) (5 * time_Minute);
               opened = Info (clk 0) ''SQLite request store opened'' [(''path'', FString dbPath)];
               enabled = (case OpenClaw cfg of Some oc \<Rightarrow> claw_Enabled oc | None \<Rightarrow> False);
               notifier = NewOpenClawNotifier (if enabled then claw_WebhookURL (the (OpenClaw cfg)) else []);
               logs = opened # (if enabled then [Info (clk 1) ''OpenClaw notifications enabled'' []] else [])
           in (logs, Inr (\<lparr>sv_config = cfg, sv_store = sqlite_store, sv_pam = p, sv_executor = ex,
                sv_notifier = notifier,
                sv_apiHandler = NewV1Handler sqlite_store ex notifier (AllowedCommands cfg) (RequireReason cfg),
                sv_pamHandler = None, sv_httpServer = None,
                sv_allowedOrigins = [''http://localhost:3000'', ''http://localhost:8080''],
                sv_cleanupCancel = False\<rparr>, db)))))"

definition getListenAddress :: "'t ServerV2 \<Rightarrow> string" where
  "getListenAddress sv =
     (let l = Listen (sv_config sv)
      in if listen_Type l = ''unix'' then listen_Path l
         else if listen_Type l = ''tcp'' \<and> listen_Port l \<noteq> 0 then ''127.0.0.1:'' @ show_int (listen_Port l)
         else ''127.0.0.1:8080'')"

text \<open>The registration of the PAM handler: only with a bot token, and without users.\<close>

definition register_pam :: "'k server_os \<Rightarrow> (local_state \<times> 'k) ServerV2 \<Rightarrow> (local_state \<times> 'k) ServerV2" where
  "register_pam os sv =
     (let token = (case Telegram (sv_config sv) of Some t \<Rightarrow> tg_BotToken t | None \<Rightarrow> []);
          p = sv_pam sv
      in if token \<noteq> []
         then sv\<lparr>sv_pamHandler := Some (NewHandler (token_store_of (so_tokens os) (so_claw os) (pam_store p))
                (TTLMinutes (Fallback (pam_config p))) (Mode (clawvaultMode p)) (sv_store sv) token []
                (AllowedCommands (sv_config sv)) 5)\<rparr>
         else sv)"

text \<open>\<open>filepath.Dir\<close>: the cleaned path up to the last slash.\<close>

definition path_dir :: "string \<Rightarrow> string" where
  "path_dir p = path_clean (rev (dropWhile (\<lambda>c. c \<noteq> CHR ''/'') (rev p)))"

text \<open>\<open>Start\<close>: the server as it is left, the log lines and the error it returns in the end.\<close>

definition Start ::
  "'k server_os \<Rightarrow> clock \<Rightarrow> (local_state \<times> 'k) ServerV2 \<Rightarrow>
     (local_state \<times> 'k) ServerV2 \<times> json list \<times> go_error" where
  "Start os clk sv =
     (let l = Listen (sv_config sv);
          unix = (listen_Type l = ''unix'');
          dir = (if unix \<and> listen_Path l \<noteq> [] then so_mkdir os (path_dir (listen_Path l)) else None)
      in case dir of
           Some err \<Rightarrow> (sv, [], ''create socket directory: '' @ err)
         | None \<Rightarrow>
             let sv1 = register_pam os sv;
                 addr = getListenAddress sv1;
                 sv2 = sv1\<lparr>sv_httpServer := Some \<lparr>srv_Addr = addr, srv_ReadTimeout = 15 * time_Second,
                         srv_WriteTimeout = 15 * time_Second, srv_IdleTimeout = 60 * time_Second\<rparr>,
                       sv_cleanupCancel := True\<rparr>;
                 logs = [Info (clk 0) (if sv_pamHandler sv1 \<noteq> None then ''PAM biometric handler registered at /api/pam/''
                           else ''Telegram botToken not configured, skipping PAM handler registration'') [],
                         Info (clk 1) ''Starting KingCrab v2 server''
                           [(''address'', FString addr), (''type'', FString (listen_Type l))]]
             in if unix then
                  (case so_listen os (listen_Path l) of
                     Some err \<Rightarrow> (sv2, logs, ''listen on unix socket: '' @ err)
                   | None \<Rightarrow>
                       let warn = (case so_chmod os (listen_Path l) of None \<Rightarrow> []
                              | Some err \<Rightarrow> [Warn (clk 2) ''Failed to set socket permissions'' [(''error'', FString err)]])
                       in (sv2, logs @ warn, so_serve os addr))
                else (case so_listen os addr of
                        Some err \<Rightarrow> (sv2, logs, err)
                      | None \<Rightarrow> (sv2, logs, so_serve os addr)))"

section \<open>Middlewares\<close>

datatype server_event =
    Logged json
  | Acted v1_event

type_synonym 'st handler = "http_request \<Rightarrow> 'st \<Rightarrow> 'st \<times> server_event list \<times> http_response"

text \<open>
  The clock is read at the start and for the first line, then by the handler inside; \<open>late\<close>
  are the readings after it. A handler that panics never comes back to the middleware.
\<close>

definition loggingMiddleware :: "clock \<Rightarrow> clock \<Rightarrow> 'st handler \<Rightarrow> 'st handler" where
  "loggingMiddleware clk late nxt r s =
     (let start = clk 0;
          received = Info (clk 1) ''Request received''
            [(''method'', FString (Method r)), (''path'', FString (URLPath r)), (''remote'', FString (RemoteAddr r))];
          (s1, evs, resp) = nxt r s
      in if resp = handler_panic then (s1, Logged received # evs, resp)
         else let duration = (late 0 - start) div 1000000;
                  completed = Info (late 1) ''Request completed''
                    [(''method'', FString (Method r)), (''path'', FString (URLPath r)),
                     (''status'', FInt (resp_status resp)), (''duration'', FInt64 duration)]
              in (s1, Logged received # evs @ [Logged completed], resp))"

definition corsMiddleware :: "string list \<Rightarrow> 'st handler \<Rightarrow> 'st handler" where
  "corsMiddleware origins nxt r s =
     (let origin = Header r ''Origin'';
          allowed = list_ex (\<lambda>allowedOrigin. origin = allowedOrigin) origins;
          hs = (if allowed then [(''Access-Control-Allow-Origin'', origin),
                                 (''Access-Control-Allow-Credentials'', ''true'')] else []) @
               [(''Access-Control-Allow-Methods'', ''GET, POST, OPTIONS''),
                (''Access-Control-Allow-Headers'', ''Content-Type, Authorization, X-User-ID'')]
      in if Method r = ''OPTIONS'' then (s, [], \<lparr>resp_status = StatusOK, resp_headers = hs, resp_body = NoBody\<rparr>)
         else let (s1, evs, resp) = nxt r s
              in (s1, evs, if resp = handler_panic then resp else resp\<lparr>resp_headers := hs @ resp_headers resp\<rparr>))"

section \<open>The multiplexer\<close>

text \<open>
  \<open>http.ServeMux\<close> with the routes of the two handlers. The path is taken as decoded; the
  multiplexer looks at its escaped form, which makes a difference only for a path that holds
  an encoded slash or dot. \<open>locate\<close> is the URL of a redirection, with the query of the request.
\<close>

record 'k request_env =
  re_v1 :: v1_env
  re_pam :: pam_env
  re_oth :: "(SQLiteRequestStore, local_state \<times> 'k) interference"
  re_locate :: "http_request \<Rightarrow> string \<Rightarrow> string"

text \<open>The methods that some route serves on a path, in the order of the \<open>Allow\<close> header.\<close>

definition allowed_methods :: "string \<Rightarrow> string list" where
  "allowed_methods path =
     (if path = ''/api/v1/health'' \<or> path = ''/api/v1/requests'' then [''GET'', ''HEAD'']
      else if path = ''/api/v1/request'' \<or> has_prefix path v1_prefix then [''GET'', ''HEAD'', ''POST'']
      else [])"

definition method_not_allowed :: "string list \<Rightarrow> http_response" where
  "method_not_allowed ms = (http_Error ''Method Not Allowed'' StatusMethodNotAllowed)\<lparr>resp_headers := [(''Allow'', join ms '', '')]\<rparr>"

definition mux ::
  "(local_state \<times> 'k) ServerV2 \<Rightarrow> 'k request_env \<Rightarrow> clock \<Rightarrow> http_request \<Rightarrow>
     (SQLiteRequestStore, local_state \<times> 'k) pam_state \<Rightarrow>
     (SQLiteRequestStore, local_state \<times> 'k) pam_state \<times> server_event list \<times> http_response" where
  "mux sv env clk r s =
     (let path = (if Method r = ''CONNECT'' then URLPath r else http_clean_path (URLPath r))
      in if URLPath r = ''*'' then
           (s, [], (empty_response StatusBadRequest)\<lparr>resp_headers := [(''Connection'', ''close'')]\<rparr>)
         else if (path = ''/api/v1/request'' \<and> Method r \<in> {''GET'', ''HEAD''}) \<or>
                 (path = ''/api/pam'' \<and> sv_pamHandler sv \<noteq> None) then
           (s, [], redirect r (re_locate env r (http_clean_path (URLPath r) @ ''/'')))
         else if path \<noteq> URLPath r then (s, [], redirect r (re_locate env r path))
         else
           (case if has_prefix path ''/api/pam/'' then sv_pamHandler sv else None of
              Some h \<Rightarrow> (let (s1, resp) = pam_ServeHTTP h (re_pam env) clk (re_oth env) r s in (s1, [], resp))
            | None \<Rightarrow>
                (case v1_route (sv_apiHandler sv) (re_v1 env) clk r (req_state s) of
                   Some (st, evs, resp) \<Rightarrow> (s\<lparr>req_state := st\<rparr>, map Acted evs, resp)
                 | None \<Rightarrow>
                     if allowed_methods path = [] then (s, [], http_NotFound)
                     else (s, [], method_not_allowed (allowed_methods path)))))"

text \<open>The handler of the running server, as \<open>Start\<close> composes it.\<close>

definition server_ServeHTTP ::
  "(local_state \<times> 'k) ServerV2 \<Rightarrow> 'k request_env \<Rightarrow> clock \<Rightarrow> clock \<Rightarrow>
     (SQLiteRequestStore, local_state \<times> 'k) pam_state handler" where
  "server_ServeHTTP sv env clk late =
     corsMiddleware (sv_allowedOrigins sv) (loggingMiddleware clk late (mux sv env (clk_from 2 clk)))"

section \<open>Cleanup, shutdown and database connection\<close>

definition performCleanup :: "'t ServerV2 \<Rightarrow> clock \<Rightarrow> SQLiteRequestStore \<Rightarrow> SQLiteRequestStore \<times> json list" where
  "performCleanup sv clk s =
     (let running = Info (clk 0) ''Running cleanup of old requests'' []
      in case ExpireOldRequests (sv_store sv) (clk_from 1 clk) s of
           (s1, Inl err) \<Rightarrow> (s1, [running, Error (clk 2) ''Failed to expire old requests'' [(''error'', FString err)]])
         | (s1, Inr n) \<Rightarrow>
             (s1, [running, if n > 0 then Info (clk 2) ''Expired old requests'' [(''count'', FInt64 n)]
                            else Info (clk 2) ''No expired requests found'' []]))"

text \<open>The loop of the goroutine over what its \<open>select\<close> receives; other requests run in between.\<close>

datatype cleanup_event =
    Tick clock
  | CtxDone
  | Between "SQLiteRequestStore \<Rightarrow> SQLiteRequestStore"

fun cleanupOldRequests ::
  "'t ServerV2 \<Rightarrow> cleanup_event list \<Rightarrow> SQLiteRequestStore \<Rightarrow> SQLiteRequestStore \<times> json list" where
  "cleanupOldRequests sv [] s = (s, [])"
| "cleanupOldRequests sv (CtxDone # es) s = (s, [])"
| "cleanupOldRequests sv (Between f # es) s = cleanupOldRequests sv es (f s)"
| "cleanupOldRequests sv (Tick clk # es) s =
     (let (s1, logs) = performCleanup sv clk s; (s2, logs') = cleanupOldRequests sv es s1 in (s2, logs @ logs'))"

text \<open>
  \<open>Stop\<close>: whether the cleanup is cancelled and the listener shut down, and the log; the
  store is closed in any case. It returns no error.
\<close>

record stop_effects =
  st_cancelled :: bool
  st_shutdown :: bool
  st_closed :: bool

definition Stop ::
  "clock \<Rightarrow> go_error option \<Rightarrow> go_error option \<Rightarrow> 't ServerV2 \<Rightarrow> stop_effects \<times> json list" where
  "Stop clk shutdown_err close_err sv =
     (let running = sv_httpServer sv \<noteq> None
      in (\<lparr>st_cancelled = sv_cleanupCancel sv, st_shutdown = running, st_closed = True\<rparr>,
          [Info (clk 0) ''Stopping KingCrab server'' []] @
          (case shutdown_err of
             Some err \<Rightarrow> if running then [Error (clk 1) ''Failed to shutdown HTTP server'' [(''error'', FString err)]] else []
           | None \<Rightarrow> []) @
          (case close_err of
             Some err \<Rightarrow> [Error (clk 2) ''Failed to close request store'' [(''error'', FString err)]]
           | None \<Rightarrow> [])))"

definition newConnectionFromConfig ::
  "db_driver \<Rightarrow> (string \<Rightarrow> string) \<Rightarrow> file_read \<Rightarrow> clock \<Rightarrow> DatabaseConfig \<Rightarrow> json list \<times> (go_error + Connection)" where
  "newConnectionFromConfig drv env pwfile clk cfg =
     (let password = (if pg_PasswordEnv cfg \<noteq> [] then env (pg_PasswordEnv cfg) else []);
          (logs, password) =
            (if password \<noteq> [] then ([], password)
             else case pwfile of
                    FileData d \<Rightarrow> ([], trim_space d)
                  | FileMissing \<Rightarrow> ([], [])
                  | FileError e \<Rightarrow> ([Warn (clk 0) ''Could not read /etc/kingcrab/db.password'' [(''error'', FString e)]], []))
      in if password = [] then
           (let envName = (if pg_PasswordEnv cfg = [] then ''KINGCRAB_DB_PASSWORD'' else pg_PasswordEnv cfg)
            in (logs, Inl (''database password not available: set '' @ envName @ '' or write to /etc/kingcrab/db.password'')))
         else (logs, NewConnection drv
                 \<lparr>dbc_Host = pg_Host cfg, dbc_Port = pg_Port cfg, dbc_User = pg_User cfg, dbc_Password = password,
                  dbc_DBName = pg_DBName cfg, dbc_SSLMode = pg_SSLMode cfg\<rparr>))"



section \<open>Headers, routes and composition\<close>

lemma headers_basic [simp]: "resp_headers (respond d) = []" "resp_headers (respondError c m) = []"
  "resp_headers (http_Error m c) = []" "resp_headers (empty_response c) = []" "resp_headers http_NotFound = []"
  "resp_headers handler_panic = []" "resp_headers (not_done m) = []"
  by (simp_all add: respond_def respondError_def http_Error_def empty_response_def http_NotFound_def
      handler_panic_def not_done_def)

lemma pam_headers: "resp_headers (snd (pam_ServeHTTP h env clk oth r s)) = []"
proof -
  have v: "resp_headers e = []" if "verify_caller h env clk oth b i s = (s1, Inl e)" for s s1 e b i
    using that by (auto simp: verify_caller_def Let_def split: if_splits sum.splits prod.splits option.splits)
  have d: "resp_headers (snd (decide_request h clk oth n m i u s)) = []" for n m i u s
    by (simp add: decide_request_def Let_def split: sum.split prod.split option.split)
  have "resp_headers (snd (handleEnroll h env clk r s)) = []"
    by (simp add: handleEnroll_def Let_def split: sum.split prod.split option.split)
  moreover have "resp_headers (snd (handleApprove h env clk oth r s)) = []"
    using v d by (auto simp: handleApprove_def split: sum.split prod.split)
  moreover have "resp_headers (snd (handleDeny h env clk oth r s)) = []"
    using v d by (auto simp: handleDeny_def split: sum.split prod.split)
  moreover have "resp_headers (snd (handleCreateRequest h env clk r s)) = []"
    by (simp add: handleCreateRequest_def Let_def split: sum.split prod.split option.split)
  moreover have "resp_headers (snd (handleGetRequest h env clk r s)) = []"
    by (simp add: handleGetRequest_def Let_def split: sum.split prod.split option.split)
  ultimately show ?thesis by (simp add: pam_ServeHTTP_def handleHealth_def)
qed

lemma v1_headers: "v1_route h env clk r s = Some (s', evs, resp) \<Longrightarrow> resp_headers resp = []"
proof -
  have c: "resp_headers e = []" if "v1_check h env clk r s = (s1, Inl e)" for s s1 e
    using that by (auto simp: v1_check_def Let_def split: if_splits sum.splits prod.splits option.splits)
  have d: "resp_headers e = []" if "v1_decide h env clk x s = (s1, v, Inl e)" for s s1 v e x
    using that by (cases x) (auto simp: v1_decide_def split: if_splits sum.splits prod.splits)
  have x: "resp_headers (snd (snd (v1_execute h env a s))) = []" for a s
    by (cases a) (simp add: v1_execute_def Let_def split: option.split prod.split)
  have a: "resp_headers (snd (snd (v1_handleApproveOrDeny h env clk r s))) = []"
    using c d x by (auto simp: v1_handleApproveOrDeny_def split: sum.split prod.split) (metis snd_conv)
  have n: "resp_headers (snd (snd (v1_handleCreateRequest h env clk r s))) = []"
    by (simp add: v1_handleCreateRequest_def Let_def split: sum.split prod.split option.split)
  have g: "resp_headers (snd (v1_handleGetRequest h r s)) = []"
    by (simp add: v1_handleGetRequest_def Let_def split: sum.split prod.split option.split)
  have l: "resp_headers (snd (v1_handleListRequests h clk r s)) = []"
    by (simp add: v1_handleListRequests_def Let_def split: sum.split prod.split option.split)
  show "v1_route h env clk r s = Some (s', evs, resp) \<Longrightarrow> resp_headers resp = []"
    using a n g l
    by (auto simp: v1_route_def v1_handleHealth_def split: if_splits prod.splits)
qed

definition mux_headers :: "(string \<times> string) list \<Rightarrow> bool" where
  "mux_headers hs \<longleftrightarrow> fst ` set hs \<subseteq> {''Connection'', ''Location'', ''Allow''}"

lemma mux_headers_simps [simp]: "mux_headers []" "mux_headers [(''Connection'', v)]" "mux_headers [(''Location'', v)]"
    "mux_headers [(''Allow'', v)]"
  by (simp_all add: mux_headers_def)

lemma mux_cases:
  assumes "mux sv env clk r s = (s', evs, resp)"
  obtains (other) "s' = s" "evs = []" "resp_status resp \<in> {301, 400, 404, 405}" "mux_headers (resp_headers resp)"
      "resp_status resp = 301 \<longrightarrow> http_clean_path (URLPath r) \<noteq> URLPath r \<or> URLPath r \<in> {''/api/v1/request'', ''/api/pam''}"
  | (pam) h where "sv_pamHandler sv = Some h" "pam_ServeHTTP h (re_pam env) clk (re_oth env) r s = (s', resp)"
      "evs = []" "resp_headers resp = []"
  | (v1) st vs where "v1_route (sv_apiHandler sv) (re_v1 env) clk r (req_state s) = Some (st, vs, resp)"
      "s' = s\<lparr>req_state := st\<rparr>" "evs = map Acted vs" "resp_headers resp = []"
proof -
  define path where "path = (if Method r = ''CONNECT'' then URLPath r else http_clean_path (URLPath r))"
  define slash where "slash \<longleftrightarrow> (path = ''/api/v1/request'' \<and> Method r \<in> {''GET'', ''HEAD''}) \<or>
     (path = ''/api/pam'' \<and> sv_pamHandler sv \<noteq> None)"
  define h where "h = (if has_prefix path ''/api/pam/'' then sv_pamHandler sv else None)"
  note m = assms [unfolded mux_def Let_def, folded path_def, folded slash_def, folded h_def]
  show thesis
  proof (cases "URLPath r = ''*'' \<or> slash \<or> path \<noteq> URLPath r")
    case True
    have "http_clean_path (URLPath r) \<noteq> URLPath r \<or> URLPath r \<in> {''/api/v1/request'', ''/api/pam''}"
      if "URLPath r \<noteq> ''*''"
      using that True unfolding slash_def path_def by (auto split: if_splits)
    with True show thesis using m by (intro other) (auto simp: redirect_def status_defs split: if_splits)
  next
    case False
    then have m: "(case h of Some h \<Rightarrow> (case pam_ServeHTTP h (re_pam env) clk (re_oth env) r s of (s1, resp) \<Rightarrow> (s1, [], resp))
       | None \<Rightarrow> (case v1_route (sv_apiHandler sv) (re_v1 env) clk r (req_state s) of
            Some (st, evs, resp) \<Rightarrow> (s\<lparr>req_state := st\<rparr>, map Acted evs, resp)
          | None \<Rightarrow> if allowed_methods path = [] then (s, [], http_NotFound)
              else (s, [], method_not_allowed (allowed_methods path)))) = (s', evs, resp)"
      using m by (simp only: de_Morgan_disj not_not simp_thms if_False)
    show thesis
    proof (cases h)
      case (Some a)
      obtain s1 resp1 where p: "pam_ServeHTTP a (re_pam env) clk (re_oth env) r s = (s1, resp1)" by fastforce
      have "sv_pamHandler sv = Some a" using Some by (simp add: h_def split: if_splits)
      moreover have "resp_headers resp1 = []" using pam_headers [of a "re_pam env" clk "re_oth env" r s] by (simp add: p)
      ultimately show thesis using m p Some by (intro pam [of a]) auto
    next
      case None
      show thesis
      proof (cases "v1_route (sv_apiHandler sv) (re_v1 env) clk r (req_state s)")
        case route: None
        then show thesis using m None
          by (intro other) (auto simp: method_not_allowed_def http_NotFound_def status_defs split: if_splits)
      next
        case route: (Some x)
        obtain st vs r1 where x: "x = (st, vs, r1)" by (cases x)
        then show thesis using m None route v1_headers [OF route [unfolded x]] by (intro v1 [of st vs]) auto
      qed
    qed
  qed
qed

lemma v1_route_actions: "v1_route h env clk r s = Some (s', evs, resp) \<Longrightarrow> Started argv \<in> set evs \<Longrightarrow>
    Method r = ''POST'' \<and> v1_handleApproveOrDeny h env clk r s = (s', evs, resp)"
proof -
  have n: "Started argv \<notin> set (fst (snd (v1_handleCreateRequest h env clk r s)))"
    by (auto simp add: v1_handleCreateRequest_def Let_def split: sum.split prod.split option.split)
  assume "v1_route h env clk r s = Some (s', evs, resp)" "Started argv \<in> set evs"
  with n show ?thesis by (auto simp: v1_route_def split: if_splits prod.splits)
qed


text \<open>What \<open>NewServerV2\<close> and \<open>Start\<close> leave in the server.\<close>

definition wired :: "'k server_os \<Rightarrow> Config \<Rightarrow> (local_state \<times> 'k) ServerV2 \<Rightarrow> bool" where
  "wired os cfg sv \<longleftrightarrow>
     (\<exists>clk0 clk1 logs logs' sv0 db err. NewServerV2 os clk0 cfg = (logs, Inr (sv0, db)) \<and> Start os clk1 sv0 = (sv, logs', err))"

lemma wired_fields:
  assumes "wired os cfg sv"
  shows "sv_allowedOrigins sv = [''http://localhost:3000'', ''http://localhost:8080'']" "sv_store sv = sqlite_store"
    "v1_store (sv_apiHandler sv) = sqlite_store"
    "v1_executor (sv_apiHandler sv) = NewExecutor (AllowedCommands cfg) (5 * time_Minute)"
    "\<forall>h. sv_pamHandler sv = Some h \<longrightarrow> requestStore h = sqlite_store \<and> allowedUsers h = []"
proof -
  obtain clk0 clk1 logs logs' sv0 db err where n: "NewServerV2 os clk0 cfg = (logs, Inr (sv0, db))"
    and s: "Start os clk1 sv0 = (sv, logs', err)" using assms by (auto simp: wired_def)
  have sv0: "sv_allowedOrigins sv0 = [''http://localhost:3000'', ''http://localhost:8080'']" "sv_store sv0 = sqlite_store"
    "v1_store (sv_apiHandler sv0) = sqlite_store"
    "v1_executor (sv_apiHandler sv0) = NewExecutor (AllowedCommands cfg) (5 * time_Minute)" "sv_pamHandler sv0 = None"
    using n by (auto simp: NewServerV2_def NewV1Handler_def Let_def split: option.splits sum.splits)
  define reg where "reg = register_pam os sv0"
  have reg: "sv_allowedOrigins reg = sv_allowedOrigins sv0" "sv_store reg = sv_store sv0"
    "sv_apiHandler reg = sv_apiHandler sv0"
    "\<forall>h. sv_pamHandler reg = Some h \<longrightarrow> requestStore h = sv_store sv0 \<and> allowedUsers h = []"
    using sv0(5) by (auto simp: reg_def register_pam_def NewHandler_def Let_def split: if_splits)
  have "sv = sv0 \<or> (\<exists>x y. sv = reg\<lparr>sv_httpServer := x, sv_cleanupCancel := y\<rparr>)"
    using s unfolding Start_def Let_def reg_def [symmetric]
    by (simp split: option.splits if_splits) blast+
  then have "sv_allowedOrigins sv = sv_allowedOrigins sv0" "sv_store sv = sv_store sv0"
    "sv_apiHandler sv = sv_apiHandler sv0"
    "\<forall>h. sv_pamHandler sv = Some h \<longrightarrow> requestStore h = sv_store sv0 \<and> allowedUsers h = []"
    using reg sv0(5) by auto
  with sv0 show "sv_allowedOrigins sv = [''http://localhost:3000'', ''http://localhost:8080'']" "sv_store sv = sqlite_store"
    "v1_store (sv_apiHandler sv) = sqlite_store"
    "v1_executor (sv_apiHandler sv) = NewExecutor (AllowedCommands cfg) (5 * time_Minute)"
    "\<forall>h. sv_pamHandler sv = Some h \<longrightarrow> requestStore h = sqlite_store \<and> allowedUsers h = []"
    by auto
qed

text \<open>What the logger makes of the two calls of the middleware.\<close>

lemma plain_lines:
  "Info t ''Request received'' [(''method'', FString m), (''path'', FString p), (''remote'', FString a)] =
     JObj [(''timestamp'', JStr (rfc3339 t)), (''level'', JStr ''info''), (''message'', JStr ''Request received'')]"
  "Info t ''Request completed'' [(''method'', FString m), (''path'', FString p), (''status'', FInt n), (''duration'', FInt64 d)] =
     JObj [(''timestamp'', JStr (rfc3339 t)), (''level'', JStr ''info''), (''message'', JStr ''Request completed'')]"
  by (simp_all add: Info_def LevelInfo_def Log_no_fields kept_fields_def string_field_def int64_field_def)

lemma server_cases:
  assumes "server_ServeHTTP sv env clk late r s = (s', evs, resp)"
  obtains (preflight) "Method r = ''OPTIONS''" "s' = s" "evs = []" "resp_status resp = 200"
  | (panic) evs' where "Method r \<noteq> ''OPTIONS''" "mux sv env (clk_from 2 clk) r s = (s', evs', handler_panic)" "resp = handler_panic"
      "evs = [Logged (JObj [(''timestamp'', JStr (rfc3339 (clk 1))), (''level'', JStr ''info''),
         (''message'', JStr ''Request received'')])] @ evs'"
  | (handled) evs' resp' where "Method r \<noteq> ''OPTIONS''" "mux sv env (clk_from 2 clk) r s = (s', evs', resp')"
      "resp_status resp = resp_status resp'" "resp_body resp = resp_body resp'"
      "evs = [Logged (JObj [(''timestamp'', JStr (rfc3339 (clk 1))), (''level'', JStr ''info''),
         (''message'', JStr ''Request received'')])] @ evs' @
        [Logged (JObj [(''timestamp'', JStr (rfc3339 (late 1))), (''level'', JStr ''info''),
         (''message'', JStr ''Request completed'')])]"
proof -
  obtain s1 e1 r1 where m: "mux sv env (clk_from 2 clk) r s = (s1, e1, r1)" by (metis prod_cases3)
  show thesis
  proof (cases "Method r = ''OPTIONS''")
    case True
    then show thesis using assms by (intro preflight) (auto simp: server_ServeHTTP_def corsMiddleware_def Let_def StatusOK_def)
  next
    case opt: False
    show thesis
    proof (cases "r1 = handler_panic")
      case True
      then show thesis using assms opt m
        by (intro panic) (auto simp: server_ServeHTTP_def corsMiddleware_def loggingMiddleware_def Let_def plain_lines)
    next
      case False
      then show thesis using assms opt m
        by (intro handled [of e1 r1]) (auto simp: server_ServeHTTP_def corsMiddleware_def loggingMiddleware_def Let_def plain_lines)
    qed
  qed
qed

text \<open>The header of a response, as the CORS middleware leaves it.\<close>

lemma server_headers:
  assumes "server_ServeHTTP sv env clk late r s = (s', evs, resp)" "resp \<noteq> handler_panic"
  shows "\<exists>hs. mux_headers hs \<and> resp_headers resp =
     (if Header r ''Origin'' \<in> set (sv_allowedOrigins sv)
      then [(''Access-Control-Allow-Origin'', Header r ''Origin''), (''Access-Control-Allow-Credentials'', ''true'')] else []) @
     [(''Access-Control-Allow-Methods'', ''GET, POST, OPTIONS''),
      (''Access-Control-Allow-Headers'', ''Content-Type, Authorization, X-User-ID'')] @ hs"
proof -
  obtain s1 e1 r1 where m: "mux sv env (clk_from 2 clk) r s = (s1, e1, r1)" by (metis prod_cases3)
  have h: "mux_headers (resp_headers r1)" using m by (cases rule: mux_cases) auto
  have o: "list_ex (\<lambda>a. x = a) xs \<longleftrightarrow> x \<in> set xs" for x :: string and xs by (induction xs) auto
  show ?thesis
  proof (cases "Method r = ''OPTIONS''")
    case True
    then show ?thesis using assms by (intro exI [of _ "[]"])
      (auto simp: server_ServeHTTP_def corsMiddleware_def Let_def o)
  next
    case False
    then show ?thesis using assms m h by (intro exI [of _ "resp_headers r1"])
      (auto simp: server_ServeHTTP_def corsMiddleware_def loggingMiddleware_def Let_def o split: if_splits)
  qed
qed


section \<open>Properties of the server\<close>

text \<open>
  C11: in the server as \<open>NewServerV2\<close> and \<open>Start\<close> wire it, whatever the configuration, the PAM
  interface is closed to everybody: under \<open>/api/pam/\<close>, only the health check and preflight
  requests are answered; every other call, be it to enrol a device, approve, deny, create or
  read a request, is refused or redirected, and neither store changes and nothing is done outside.
\<close>

theorem server_pam_refuses_everyone:
  assumes "wired os cfg sv" "Method r \<noteq> ''OPTIONS''"
    "has_prefix (URLPath r) ''/api/pam/''" "URLPath r \<noteq> ''/api/pam/health''"
    "server_ServeHTTP sv env clk late r s = (s', evs, resp)"
  shows "s' = s \<and> resp_status resp \<in> {301, 400, 401, 403, 404, 405} \<and> (\<forall>a. Acted a \<notin> set evs)"
proof -
  have "take (length ''/api/pam/'') (URLPath r) = ''/api/pam/''" using assms(3) by (simp only: has_prefix_def)
  then obtain rest where path: "URLPath r = ''/api/pam/'' @ rest" by (metis append_take_drop_id)
  have route: "v1_route h e c r q = None" for h :: "SQLiteRequestStore V1Handler" and e c q
    by (simp add: path v1_route_def v1_prefix_def has_prefix_def)
  have m: "t = s \<and> resp_status x \<in> {301, 400, 401, 403, 404, 405} \<and> es = []"
    if "mux sv env (clk_from 2 clk) r s = (t, es, x)" for t es x
    using that
  proof (cases rule: mux_cases)
    case (pam h)
    have "requestStore h = sqlite_store" "allowedUsers h = []"
      using wired_fields(5) [OF assms(1)] pam(1) by auto
    then have "t = s \<and> resp_status x \<in> {400, 401, 403, 404, 405}"
      by (intro pam_nobody_authorized [OF _ _ assms(2,4) pam(2)]) (simp_all add: sqlite_store_def)
    then show ?thesis using pam(3) by auto
  qed (use route in auto)
  from assms(5) show ?thesis
  proof (cases rule: server_cases)
    case (panic e)
    then show ?thesis using m [OF panic(2)] by (simp add: handler_panic_def)
  next
    case (handled e x)
    then show ?thesis using m [OF handled(2)] by simp
  qed (use assms(2) in simp)
qed

text \<open>
  C26: the CORS policy of the server: a response, unless the connection is dropped, carries
  \<open>Access-Control-Allow-Origin\<close> exactly when the origin of the request is one of the two local
  ones, and then with that origin; a preflight request reaches no handler.
\<close>

theorem server_cors:
  assumes "wired os cfg sv" "server_ServeHTTP sv env clk late r s = (s', evs, resp)" "resp \<noteq> handler_panic"
  shows "((''Access-Control-Allow-Origin'', x) \<in> set (resp_headers resp) \<longleftrightarrow>
      x = Header r ''Origin'' \<and> x \<in> {''http://localhost:3000'', ''http://localhost:8080''}) \<and>
    (Method r = ''OPTIONS'' \<longrightarrow> s' = s \<and> evs = [])"
proof
  obtain hs where h: "mux_headers hs" "resp_headers resp =
     (if Header r ''Origin'' \<in> set (sv_allowedOrigins sv)
      then [(''Access-Control-Allow-Origin'', Header r ''Origin''), (''Access-Control-Allow-Credentials'', ''true'')] else []) @
     [(''Access-Control-Allow-Methods'', ''GET, POST, OPTIONS''),
      (''Access-Control-Allow-Headers'', ''Content-Type, Authorization, X-User-ID'')] @ hs"
    using server_headers [OF assms(2,3)] by blast
  have n: "(''Access-Control-Allow-Origin'', x) \<notin> set hs"
  proof
    assume "(''Access-Control-Allow-Origin'', x) \<in> set hs"
    then have "''Access-Control-Allow-Origin'' \<in> fst ` set hs" by (rule rev_image_eqI) simp
    from subsetD [OF h(1) [unfolded mux_headers_def] this] show False by simp
  qed
  have "set (sv_allowedOrigins sv) = {''http://localhost:3000'', ''http://localhost:8080''}"
    by (simp add: wired_fields(1) [OF assms(1)])
  then show "(''Access-Control-Allow-Origin'', x) \<in> set (resp_headers resp) \<longleftrightarrow>
      x = Header r ''Origin'' \<and> x \<in> {''http://localhost:3000'', ''http://localhost:8080''}"
    using n unfolding h(2) by (cases "Header r ''Origin'' \<in> set (sv_allowedOrigins sv)") auto
  show "Method r = ''OPTIONS'' \<longrightarrow> s' = s \<and> evs = []"
    using assms(2) by (auto simp: server_ServeHTTP_def corsMiddleware_def Let_def)
qed

text \<open>
  C27: the two lines of the request log say nothing about the request. Of the method, the path,
  the remote address, the status and the duration that the logging middleware passes on, the
  logger keeps none: around any handler the middleware adds one line before and one line
  after, each with its time, level and message only (the second is missing if the handler
  panics), and otherwise changes nothing. What the handlers log themselves stands in between.
\<close>

theorem request_lines_say_nothing:
  "loggingMiddleware clk late nxt r s =
     (let (s1, evs, resp) = nxt r s;
          line = (\<lambda>t msg. Logged (JObj [(''timestamp'', JStr (rfc3339 t)), (''level'', JStr ''info''), (''message'', JStr msg)]))
      in (s1, [line (clk 1) ''Request received''] @ evs @
              (if resp = handler_panic then [] else [line (late 1) ''Request completed'']), resp))"
  by (simp add: loggingMiddleware_def plain_lines split_beta Let_def)

text \<open>
  C3: a process started by the whole server: the request was a POST to the approval of a stored
  request, pending and not past its expiry, and the argument vector is its tokenized command,
  which the allowlist of the configuration admits.
\<close>

theorem server_starts_only_approved:
  assumes "wired os cfg sv" "sqlite_ok (req_state s)" "in_years (clk 3)" "in_years (clk 4)"
    "server_ServeHTTP sv env clk late r s = (s', evs, resp)" "Acted (Started argv) \<in> set evs"
  shows "Method r = ''POST'' \<and> (\<exists>i rest q. splitPath (drop (length v1_prefix) (URLPath r)) = i # ''approve'' # rest \<and>
     sqlite_lookup (req_state s) i = Some q \<and> Status q = ''pending'' \<and> clk 2 \<le> ExpiresAt q \<and>
     IsAllowed (NewExecutor (AllowedCommands cfg) (5 * time_Minute)) (Command q) \<and> tokenizeCommand (Command q) = Inr argv)"
proof -
  obtain es x where m: "mux sv env (clk_from 2 clk) r s = (s', es, x)" and a: "Acted (Started argv) \<in> set es"
    using assms(5,6) by (cases rule: server_cases) auto
  from m show ?thesis
  proof (cases rule: mux_cases)
    case (v1 st vs)
    have "Started argv \<in> set vs" using a v1(3) by auto
    note p = v1_route_actions [OF v1(1) this]
    have y: "in_years (clk_from 2 clk 1)" "in_years (clk_from 2 clk 2)" using assms(3,4) by (simp_all add: numeral_eq_Suc)
    from sqlite.v1_approve_starts [OF wired_fields(3) [OF assms(1)] assms(2) y conjunct2 [OF p] \<open>Started argv \<in> set vs\<close>]
    show ?thesis using p by (auto simp: wired_fields(4) [OF assms(1)])
  qed (use a in auto)
qed

text \<open>
  C25: after a run of the hourly cleanup whose statement succeeds, no pending request is left
  whose expiry is a second or more past.
\<close>

theorem cleanup_expires_overdue:
  assumes "wired os cfg sv" "sqlite_ok s" "sql_outcomes s = []" "in_years (clk 1)"
    "performCleanup sv clk s = (s', logs)" "sqlite_lookup s' i = Some q" "Status q = ''pending''"
  shows "unix_seconds (clk 1) \<le> unix_seconds (ExpiresAt q) \<and> sqlite_lookup s i = Some q"
proof -
  obtain n where x: "sqlite_ExpireOldRequests (clk_from 1 clk) s = (s', n)"
    using assms(5) by (auto simp: performCleanup_def wired_fields(2) [OF assms(1)] sqlite_store_def Let_def
        split: prod.splits sum.splits)
  have n: "n = Inr (int (length (filter (row_expired (format_utc (clk 1))) (sql_rows s))))"
    using x assms(3) by (auto simp: sqlite_ExpireOldRequests_def sql_update_def sql_next_def rows_affected_def
        row_expired_def [abs_def] Let_def)
  from x n have rows: "sql_rows s' = map (expire_row (format_utc (clk 1))) (sql_rows s)"
    by (cases rule: sqlite_expire) auto
  have "ExpireOldRequests sqlite_store (clk_from 1 clk) s = (s', n)" using x by (simp add: sqlite_store_def)
  moreover have "in_years (clk_from 1 clk 0)" using assms(4) by simp
  ultimately have ok: "sqlite_ok s'" and old: "sqlite_lookup s' i = sqlite_lookup s i \<or>
      (\<exists>r. sqlite_lookup s' i = Some (r\<lparr>Status := ''expired''\<rparr>))"
    using sqlite.expire [OF assms(2)] by blast+
  obtain row where row: "find_row i (sql_rows s') = Some row" "q = request_of row"
    using assms(6) ok by (auto simp: sqlite_lookup_ok)
  then have r: "row_ok row" "row \<in> set (sql_rows s')" using ok find_row_Some [OF row(1)] by (auto simp: sqlite_ok_def)
  then obtain r0 where r0: "row = expire_row (format_utc (clk 1)) r0" using rows by auto
  have "c_status row = ''pending''" using assms(7) by (simp add: row(2) scan_row_ok(3) [OF r(1)])
  then have "format_utc (clk 1) < c_expires_at row"
    using r0 by (auto simp: expire_row_def row_expired_def split: if_splits)
  then have "unix_seconds (clk 1) \<le> unix_seconds (ExpiresAt q)" using text_fresh [OF r(1) assms(4)] row(2) by simp
  moreover have "sqlite_lookup s i = Some q" using old assms(6,7) by auto
  ultimately show ?thesis by simp
qed



text \<open>A configuration with a bot token and a PAM section, on a machine without ClawVault.\<close>

definition sample_cfg :: Config where
  "sample_cfg = (DefaultConfig (\<lambda>_. []))\<lparr>Telegram := Some \<lparr>tg_BotToken = ''123:abc'', tg_AllowedUsers = [42], tg_WebhookURL = []\<rparr>,
     Listen := \<lparr>listen_Type = ''tcp'', listen_Path = [], listen_Port = 8080\<rparr>\<rparr>"

definition sample_os :: "(string \<times> string) list server_os" where
  "sample_os = \<lparr>so_host = socket_host, so_tokens = toy_env, so_claw = sample_claw, so_mkdir = (\<lambda>_. None),
     so_open = (\<lambda>_. None), so_schema = (\<lambda>_. None), so_file = (\<lambda>_. sample_db), so_listen = (\<lambda>_. None),
     so_chmod = (\<lambda>_. None), so_serve = (\<lambda>_. ''http: Server closed'')\<rparr>"

definition sample_server :: "(local_state \<times> (string \<times> string) list) ServerV2" where
  "sample_server = fst (Start sample_os toy_clk (case snd (NewServerV2 sample_os toy_clk sample_cfg) of Inr (sv, _) \<Rightarrow> sv | Inl _ \<Rightarrow> undefined))"

definition sample_renv :: "(string \<times> string) list request_env" where
  "sample_renv = \<lparr>re_v1 = sample_v1_env, re_pam = toy_penv, re_oth = quiet, re_locate = (\<lambda>r p. p)\<rparr>"

definition sample_state :: "(SQLiteRequestStore, local_state \<times> (string \<times> string) list) pam_state" where
  "sample_state = \<lparr>req_state = sample_db, tok_state = (toy_enrolled, [])\<rparr>"

lemma sample_wired: "wired sample_os sample_cfg sample_server"
proof -
  have "is_ok (snd (NewServerV2 sample_os toy_clk sample_cfg :: json list \<times> (go_error + (local_state \<times> (string \<times> string) list) ServerV2 \<times> SQLiteRequestStore)))"
    by code_simp
  then obtain logs sv db where n: "NewServerV2 sample_os toy_clk sample_cfg = (logs, Inr (sv :: (local_state \<times> (string \<times> string) list) ServerV2, db))"
    by (metis is_ok_iff prod.collapse surj_pair)
  obtain sv' logs' err where s: "Start sample_os toy_clk sv = (sv', logs', err)" by (metis prod_cases3)
  then have "sample_server = sv'" by (simp add: sample_server_def n)
  with n s show ?thesis unfolding wired_def by blast
qed

definition sample_call :: "http_request \<Rightarrow> (SQLiteRequestStore, local_state \<times> (string \<times> string) list) pam_state \<times>
    server_event list \<times> http_response" where
  "sample_call r = server_ServeHTTP sample_server sample_renv sample_v1_clk sample_v1_clk r sample_state"

theorem server_pam_refuses_everyone_witness:
  "fst (sample_call (toy_post ''/api/pam/approve'')) = sample_state \<and>
   resp_status (snd (snd (sample_call (toy_post ''/api/pam/approve'')))) = 403"
proof -
  let ?r = "toy_post ''/api/pam/approve''"
  obtain s' evs resp where run: "server_ServeHTTP sample_server sample_renv sample_v1_clk sample_v1_clk ?r sample_state = (s', evs, resp)"
    by (metis prod_cases3)
  have m: "Method ?r \<noteq> ''OPTIONS''" and u: "has_prefix (URLPath ?r) ''/api/pam/''"
    and n: "URLPath ?r \<noteq> ''/api/pam/health''"
    by (simp_all add: toy_post_def has_prefix_def)
  have "resp_status (snd (snd (sample_call ?r))) = 403" by code_simp
  with server_pam_refuses_everyone [OF sample_wired m u n run] show ?thesis by (simp add: sample_call_def run)
qed

text \<open>The approval of the sample request by a page on one of the two origins.\<close>

definition sample_page :: http_request where
  "sample_page = sample_approve\<lparr>Header := (\<lambda>h. if h = ''Origin'' then ''http://localhost:3000'' else [])\<rparr>"

theorem server_cors_witness:
  "(''Access-Control-Allow-Origin'', ''http://localhost:3000'') \<in> set (resp_headers (snd (snd (sample_call sample_page))))"
proof -
  obtain s' evs resp where run: "server_ServeHTTP sample_server sample_renv sample_v1_clk sample_v1_clk sample_page sample_state = (s', evs, resp)"
    by (metis prod_cases3)
  have "resp_status (snd (snd (sample_call sample_page))) = 200" by code_simp
  then have "resp \<noteq> handler_panic" by (auto simp: sample_call_def run handler_panic_def)
  moreover have "Header sample_page ''Origin'' = ''http://localhost:3000''" by (simp add: sample_page_def)
  ultimately show ?thesis
    using server_cors [OF sample_wired run, of "''http://localhost:3000''"] by (simp add: sample_call_def run)
qed

theorem server_starts_only_approved_witness:
  "\<exists>q. sqlite_lookup sample_db ''r1'' = Some q \<and> Status q = ''pending'' \<and>
     IsAllowed (NewExecutor (AllowedCommands sample_cfg) (5 * time_Minute)) (Command q) \<and>
     tokenizeCommand (Command q) = Inr [''apt'', ''install'', ''curl'']"
proof -
  obtain s' evs resp where run: "server_ServeHTTP sample_server sample_renv sample_v1_clk sample_v1_clk sample_approve sample_state = (s', evs, resp)"
    by (metis prod_cases3)
  have "Acted (Started [''apt'', ''install'', ''curl'']) \<in> set (fst (snd (sample_call sample_approve)))" by code_simp
  then have st: "Acted (Started [''apt'', ''install'', ''curl'']) \<in> set evs" by (simp add: sample_call_def run)
  have ok: "sqlite_ok (req_state sample_state)" by (simp add: sample_state_def sample_db_ok)
  have y: "in_years (sample_v1_clk 3)" "in_years (sample_v1_clk 4)" by code_simp+
  have p: "splitPath (drop (length v1_prefix) (URLPath sample_approve)) = [''r1'', ''approve'']" by code_simp
  from server_starts_only_approved [OF sample_wired ok y run st] show ?thesis
    unfolding p by (auto simp: sample_state_def)
qed

text \<open>The sample request, an hour after its expiry and long before it.\<close>

definition cleanup_clk :: clock where
  "cleanup_clk = (\<lambda>i. 1700000100000000000)"

theorem cleanup_expires_overdue_witness:
  "\<exists>q. sqlite_lookup (fst (performCleanup sample_server cleanup_clk sample_db)) ''r1'' = Some q \<and> Status q = ''pending'' \<and>
     unix_seconds (cleanup_clk 1) \<le> unix_seconds (ExpiresAt q)"
proof -
  obtain s' logs where run: "performCleanup sample_server cleanup_clk sample_db = (s', logs)" by fastforce
  have o: "sql_outcomes sample_db = []" and y: "in_years (cleanup_clk 1)" by code_simp+
  have "map_option Status (sqlite_lookup (fst (performCleanup sample_server cleanup_clk sample_db)) ''r1'') = Some ''pending''"
    by code_simp
  then obtain q where q: "sqlite_lookup s' ''r1'' = Some q" "Status q = ''pending''" by (auto simp: run)
  from cleanup_expires_overdue [OF sample_wired sample_db_ok o y run q] q show ?thesis by (simp add: run)
qed

end
