(* ===== verification/Lifecycle.thy ===== *)
theory Lifecycle
  imports Server
begin

text \<open>
  \<open>cmd/kingcrab/main.go\<close> and the end of the program: \<open>main\<close> runs the server, a second
  goroutine waits for signals (\<open>HandleSignals\<close>) and stops it. The two run at the same time,
  so the shutdown is a step relation; requests in flight are counted.
\<close>

section \<open>main\<close>

definition config_path :: "(string \<Rightarrow> string) \<Rightarrow> string" where
  "config_path env = (if env ''KINGCRAB_CONFIG'' = [] then ''/etc/kingcrab/config.json'' else env ''KINGCRAB_CONFIG'')"

definition loadConfig :: "config_env \<Rightarrow> load_result" where
  "loadConfig ce =
     (case Load ce (config_path (conf_getenv ce)) of
        LoadError err \<Rightarrow> LoadError (''failed to load config: '' @ err)
      | x \<Rightarrow> x)"

text \<open>
  \<open>main\<close> up to the end of \<open>Start\<close>: the log and the exit code, 2 for a panic. As \<open>Start\<close>
  returns only with an error, \<open>main\<close> ends with code 1 unless the other goroutine ends it.
\<close>

definition main :: "config_env \<Rightarrow> 'k server_os \<Rightarrow> clock \<Rightarrow> clock \<Rightarrow> clock \<Rightarrow> json list \<times> int" where
  "main ce os clk newclk startclk =
     (let starting = Info (clk 0) ''KingCrab starting'' [(''version'', FString ''1.0.0'')]
      in case loadConfig ce of
           LoadPanic \<Rightarrow> ([starting], 2)
         | LoadError err \<Rightarrow> ([starting, Error (clk 1) ''Failed to load config'' [(''error'', FString err)]], 1)
         | Loaded cfg \<Rightarrow>
             (case NewServerV2 os newclk cfg of
                (logs, Inl err) \<Rightarrow>
                  (starting # logs @ [Error (clk 1) ''Failed to create server'' [(''error'', FString err)]], 1)
              | (logs, Inr (sv, db)) \<Rightarrow>
                  (case Start os startclk sv of
                     (sv1, logs', err) \<Rightarrow>
                       (starting # logs @ logs' @ [Error (clk 1) ''Server error'' [(''error'', FString err)]], 1))))"

section \<open>Signals\<close>

datatype signal = SIGINT | SIGTERM | SIGUSR1

fun signal_String :: "signal \<Rightarrow> string" where
  "signal_String SIGINT = ''interrupt''"
| "signal_String SIGTERM = ''terminated''"
| "signal_String SIGUSR1 = ''user defined signal 1''"

text \<open>The loop over the channel: the log, and whether the program stops and exits with 0.\<close>

fun HandleSignals :: "'t ServerV2 \<Rightarrow> (signal \<times> clock \<times> go_error option \<times> go_error option) list \<Rightarrow>
    json list \<times> stop_effects option" where
  "HandleSignals sv [] = ([], None)"
| "HandleSignals sv ((sig, clk, sherr, clerr) # rest) =
     (let received = Info (clk 0) ''Received signal'' [(''signal'', FString (signal_String sig))]
      in case sig of
           SIGUSR1 \<Rightarrow>
             (let (logs, fx) = HandleSignals sv rest
              in (received # Info (clk 1) ''Reloading configuration'' [] # logs, fx))
         | _ \<Rightarrow> (let (fx, logs) = Stop (clk_from 1 clk) sherr clerr sv in (received # logs, Some fx)))"

section \<open>Starting and stopping\<close>

text \<open>
  From \<open>HandleSignals\<close> on two goroutines run at the same time. The main one is inside \<open>Start\<close>:
  it assigns \<open>httpServer\<close>, then \<open>cleanupCancel\<close> (and starts the cleanup), then listens and
  serves. The other one waits for a signal and runs \<open>Stop\<close>, which looks at the two fields as
  they are at that moment. The first exit ends the program. Reads and writes of the fields
  take effect in program order; a failing \<open>Accept\<close> outside a shutdown is left out.
\<close>

datatype main_phase = Starting | ServerSet | CleanupSet | Serving | Returned
datatype signal_phase = Waiting | Stopping | Cancelled | Draining | Drained | StoreClosed

text \<open>
  The two fields of \<open>ServerV2\<close> (whether they are not nil), whether the cleanup is started and
  not cancelled, whether \<open>Shutdown\<close> was called, the requests in flight, whether the ten
  seconds of the context are over, the store, and the exit code.
\<close>

record shutdown_state =
  sd_main :: main_phase
  sd_signal :: signal_phase
  sd_httpServer :: bool
  sd_cleanupCancel :: bool
  sd_cleanup :: bool
  sd_shut :: bool
  sd_inflight :: nat
  sd_timeout :: bool
  sd_store_open :: bool
  sd_exit :: "int option"

text \<open>After \<open>HandleSignals\<close>, before \<open>Start\<close>; and a server that serves, with requests in flight.\<close>

definition boot_state :: shutdown_state where
  "boot_state = \<lparr>sd_main = Starting, sd_signal = Waiting, sd_httpServer = False, sd_cleanupCancel = False,
     sd_cleanup = False, sd_shut = False, sd_inflight = 0, sd_timeout = False, sd_store_open = True, sd_exit = None\<rparr>"

definition running_state :: "nat \<Rightarrow> shutdown_state" where
  "running_state n = \<lparr>sd_main = Serving, sd_signal = Waiting, sd_httpServer = True, sd_cleanupCancel = True,
     sd_cleanup = True, sd_shut = False, sd_inflight = n, sd_timeout = False, sd_store_open = True, sd_exit = None\<rparr>"

text \<open>
  \<open>Start\<close>: it may fail to make the directory of the socket, or to listen; \<open>Serve\<close> returns at
  once when \<open>Shutdown\<close> has been called, before or after it began.
\<close>

inductive start_step :: "shutdown_state \<Rightarrow> shutdown_state \<Rightarrow> bool" where
  no_directory: "sd_main S = Starting \<Longrightarrow> start_step S (S\<lparr>sd_main := Returned\<rparr>)"
| set_server: "sd_main S = Starting \<Longrightarrow> start_step S (S\<lparr>sd_main := ServerSet, sd_httpServer := True\<rparr>)"
| set_cleanup: "sd_main S = ServerSet \<Longrightarrow>
     start_step S (S\<lparr>sd_main := CleanupSet, sd_cleanupCancel := True, sd_cleanup := True\<rparr>)"
| no_listener: "sd_main S = CleanupSet \<Longrightarrow> start_step S (S\<lparr>sd_main := Returned\<rparr>)"
| serve: "sd_main S = CleanupSet \<Longrightarrow> \<not> sd_shut S \<Longrightarrow> start_step S (S\<lparr>sd_main := Serving\<rparr>)"
| not_served: "sd_main S = CleanupSet \<Longrightarrow> sd_shut S \<Longrightarrow> start_step S (S\<lparr>sd_main := Returned\<rparr>)"
| serve_returns: "sd_main S = Serving \<Longrightarrow> sd_shut S \<Longrightarrow> start_step S (S\<lparr>sd_main := Returned\<rparr>)"

text \<open>\<open>main\<close>: every return of \<open>Start\<close> is an error, and ends the program with 1.\<close>

inductive main_step :: "shutdown_state \<Rightarrow> shutdown_state \<Rightarrow> bool" where
  start: "start_step S S' \<Longrightarrow> main_step S S'"
| exit_error: "sd_main S = Returned \<Longrightarrow> main_step S (S\<lparr>sd_exit := Some 1\<rparr>)"

text \<open>
  \<open>Stop\<close>: cancel the cleanup if there is one to cancel, shut the server down if there is one,
  waiting for the requests in flight until the context ends, and close the store.
\<close>

inductive stop_step :: "shutdown_state \<Rightarrow> shutdown_state \<Rightarrow> bool" where
  cancel: "sd_signal S = Stopping \<Longrightarrow> sd_cleanupCancel S \<Longrightarrow>
     stop_step S (S\<lparr>sd_signal := Cancelled, sd_cleanup := False\<rparr>)"
| no_cancel: "sd_signal S = Stopping \<Longrightarrow> \<not> sd_cleanupCancel S \<Longrightarrow> stop_step S (S\<lparr>sd_signal := Cancelled\<rparr>)"
| shutdown: "sd_signal S = Cancelled \<Longrightarrow> sd_httpServer S \<Longrightarrow>
     stop_step S (S\<lparr>sd_signal := Draining, sd_shut := True\<rparr>)"
| no_shutdown: "sd_signal S = Cancelled \<Longrightarrow> \<not> sd_httpServer S \<Longrightarrow> stop_step S (S\<lparr>sd_signal := Drained\<rparr>)"
| drained: "sd_signal S = Draining \<Longrightarrow> sd_inflight S = 0 \<or> sd_timeout S \<Longrightarrow>
     stop_step S (S\<lparr>sd_signal := Drained\<rparr>)"
| close_store: "sd_signal S = Drained \<Longrightarrow> stop_step S (S\<lparr>sd_signal := StoreClosed, sd_store_open := False\<rparr>)"

text \<open>The goroutine of \<open>HandleSignals\<close>: a signal that stops the program, \<open>Stop\<close>, exit with 0.\<close>

inductive signal_step :: "shutdown_state \<Rightarrow> shutdown_state \<Rightarrow> bool" where
  signalled: "sd_signal S = Waiting \<Longrightarrow> signal_step S (S\<lparr>sd_signal := Stopping\<rparr>)"
| stop: "stop_step S S' \<Longrightarrow> signal_step S S'"
| exit_ok: "sd_signal S = StoreClosed \<Longrightarrow> signal_step S (S\<lparr>sd_exit := Some 0\<rparr>)"

text \<open>The outside: requests come while the listener is open and end; the context runs out.\<close>

inductive world_step :: "shutdown_state \<Rightarrow> shutdown_state \<Rightarrow> bool" where
  arrive: "sd_main S = Serving \<Longrightarrow> \<not> sd_shut S \<Longrightarrow> world_step S (S\<lparr>sd_inflight := Suc (sd_inflight S)\<rparr>)"
| finish: "sd_inflight S = Suc n \<Longrightarrow> world_step S (S\<lparr>sd_inflight := n\<rparr>)"
| time_out: "sd_signal S \<noteq> Waiting \<Longrightarrow> world_step S (S\<lparr>sd_timeout := True\<rparr>)"

text \<open>The program: any interleaving, until one of the two exits.\<close>

inductive shutdown_step :: "shutdown_state \<Rightarrow> shutdown_state \<Rightarrow> bool" where
  by_main: "sd_exit S = None \<Longrightarrow> main_step S S' \<Longrightarrow> shutdown_step S S'"
| by_signal: "sd_exit S = None \<Longrightarrow> signal_step S S' \<Longrightarrow> shutdown_step S S'"
| by_world: "sd_exit S = None \<Longrightarrow> world_step S S' \<Longrightarrow> shutdown_step S S'"

inductive shutdown_steps :: "shutdown_state \<Rightarrow> shutdown_state \<Rightarrow> bool" where
  refl: "shutdown_steps S S"
| step: "shutdown_steps S S' \<Longrightarrow> shutdown_step S' S'' \<Longrightarrow> shutdown_steps S S''"

inductive_cases start_stepE: "start_step S S'"
inductive_cases main_stepE: "main_step S S'"
inductive_cases stop_stepE: "stop_step S S'"
inductive_cases signal_stepE: "signal_step S S'"
inductive_cases world_stepE: "world_step S S'"
inductive_cases shutdown_stepE: "shutdown_step S S'"

lemmas step_cases = shutdown_stepE main_stepE start_stepE signal_stepE stop_stepE world_stepE

section \<open>Invariants\<close>

text \<open>
  What holds in every reachable state; \<open>c\<close> and \<open>h\<close> say that the cleanup was set and the server
  was set when the signal came.
\<close>

definition orderly :: "bool \<Rightarrow> bool \<Rightarrow> shutdown_state \<Rightarrow> bool" where
  "orderly c h S \<longleftrightarrow>
     (c \<longrightarrow> sd_cleanupCancel S) \<and> (h \<longrightarrow> sd_httpServer S) \<and>
     (sd_main S \<in> {Starting, ServerSet} \<longrightarrow> \<not> sd_cleanupCancel S) \<and>
     (sd_signal S \<notin> {Waiting, Stopping} \<and> c \<longrightarrow> \<not> sd_cleanup S) \<and>
     (sd_signal S \<in> {Draining, Drained, StoreClosed} \<and> h \<longrightarrow> sd_shut S) \<and>
     (sd_shut S \<longrightarrow> sd_signal S \<in> {Draining, Drained, StoreClosed}) \<and>
     (sd_shut S \<and> sd_signal S \<in> {Drained, StoreClosed} \<longrightarrow> sd_inflight S = 0 \<or> sd_timeout S) \<and>
     (sd_store_open S \<longleftrightarrow> sd_signal S \<noteq> StoreClosed) \<and>
     (sd_exit S = Some 0 \<longrightarrow> sd_signal S = StoreClosed)"

lemma orderly_step: "shutdown_step S S' \<Longrightarrow> orderly c h S \<Longrightarrow> orderly c h S'"
  by (elim step_cases) (auto simp: orderly_def)

lemma orderly_steps: "shutdown_steps S S' \<Longrightarrow> orderly c h S \<Longrightarrow> orderly c h S'"
  by (induction rule: shutdown_steps.induct) (auto intro: orderly_step)

lemma orderly_boot: "orderly False False boot_state"
  by (simp add: orderly_def boot_state_def)

lemma orderly_signal:
  "orderly False False S \<Longrightarrow> sd_signal S = Waiting \<Longrightarrow> orderly (sd_cleanupCancel S) (sd_httpServer S) S"
  by (auto simp: orderly_def)

text \<open>A server that serves has set both fields.\<close>

definition serving_set :: "shutdown_state \<Rightarrow> bool" where
  "serving_set S \<longleftrightarrow>
     (sd_main S \<in> {ServerSet, CleanupSet, Serving} \<longrightarrow> sd_httpServer S) \<and>
     (sd_main S \<in> {CleanupSet, Serving} \<longrightarrow> sd_cleanupCancel S)"

lemma serving_step: "shutdown_step S S' \<Longrightarrow> serving_set S \<Longrightarrow> serving_set S'"
  by (elim step_cases) (auto simp: serving_set_def)

lemma serving_steps: "shutdown_steps S S' \<Longrightarrow> serving_set S \<Longrightarrow> serving_set S'"
  by (induction rule: shutdown_steps.induct) (auto intro: serving_step)

text \<open>Every serving state is reached, whatever the number of requests.\<close>

lemma shutdown_steps_trans: "shutdown_steps S' S'' \<Longrightarrow> shutdown_steps S S' \<Longrightarrow> shutdown_steps S S''"
  by (induction rule: shutdown_steps.induct) (auto intro: shutdown_steps.intros)

lemma three_steps:
  "shutdown_step S S1 \<Longrightarrow> shutdown_step S1 S2 \<Longrightarrow> shutdown_step S2 S3 \<Longrightarrow> shutdown_steps S S3"
  by (rule shutdown_steps.step [OF shutdown_steps.step [OF shutdown_steps.step [OF shutdown_steps.refl]]])

lemma running_reachable: "shutdown_steps boot_state (running_state n)"
proof (induction n)
  case 0
  define S1 where "S1 = boot_state\<lparr>sd_main := ServerSet, sd_httpServer := True\<rparr>"
  define S2 where "S2 = S1\<lparr>sd_main := CleanupSet, sd_cleanupCancel := True, sd_cleanup := True\<rparr>"
  note d = S2_def S1_def boot_state_def
  have "shutdown_step boot_state S1" unfolding S1_def by (rule by_main [OF _ start [OF set_server]]) (simp_all add: d)
  moreover have "shutdown_step S1 S2" unfolding S2_def by (rule by_main [OF _ start [OF set_cleanup]]) (simp_all add: d)
  moreover have "shutdown_step S2 (S2\<lparr>sd_main := Serving\<rparr>)" by (rule by_main [OF _ start [OF serve]]) (simp_all add: d)
  ultimately have "shutdown_steps boot_state (S2\<lparr>sd_main := Serving\<rparr>)" by (rule three_steps)
  then show ?case by (simp add: d running_state_def)
next
  case (Suc n)
  have "shutdown_step (running_state n) ((running_state n)\<lparr>sd_inflight := Suc (sd_inflight (running_state n))\<rparr>)"
    by (rule by_world [OF _ arrive]) (simp_all add: running_state_def)
  then have "shutdown_step (running_state n) (running_state (Suc n))" by (simp add: running_state_def)
  with Suc show ?case by (rule shutdown_steps.step)
qed

section \<open>Properties\<close>

text \<open>
  C23: what an exit with 0 guarantees, from the moment \<open>main\<close> has called \<open>HandleSignals\<close> and in
  any interleaving. Let the signal come in the state \<open>T\<close>. When the program exits with 0 the
  store is closed; if \<open>T\<close> has the HTTP server, \<open>Shutdown\<close> was called and no request is in flight
  or the ten seconds are over; and if \<open>T\<close> has the cleanup, it is cancelled. For a server that
  serves both hold. As soon as the store is closed, the same is true before the exit.
\<close>

theorem exit_zero_is_orderly:
  assumes "shutdown_steps boot_state T" "sd_signal T = Waiting" "shutdown_steps T S"
    "sd_exit S = Some 0 \<or> \<not> sd_store_open S"
  shows "\<not> sd_store_open S \<and>
    (sd_httpServer T \<longrightarrow> sd_shut S \<and> (sd_inflight S = 0 \<or> sd_timeout S)) \<and>
    (sd_cleanupCancel T \<longrightarrow> \<not> sd_cleanup S) \<and>
    (sd_main T = Serving \<longrightarrow> sd_httpServer T \<and> sd_cleanupCancel T)"
proof -
  have "orderly (sd_cleanupCancel T) (sd_httpServer T) S"
    by (rule orderly_steps [OF assms(3)], rule orderly_signal [OF orderly_steps [OF assms(1) orderly_boot] assms(2)])
  note inv = this [unfolded orderly_def]
  have closed: "sd_signal S = StoreClosed" using inv assms(4) by blast
  have "serving_set T" by (rule serving_steps [OF assms(1)]) (simp add: serving_set_def boot_state_def)
  with inv show ?thesis by (simp add: closed serving_set_def)
qed

text \<open>
  A signal during \<open>Start\<close> has none of that: from the first moment there is a run that exits
  with 0 while the cleanup is live, the server serves and any number of requests is in flight.
\<close>

theorem startup_signal_skips_draining:
  "\<exists>S. shutdown_steps boot_state S \<and> sd_exit S = Some 0 \<and> sd_cleanup S \<and> sd_inflight S = n \<and> \<not> sd_timeout S"
proof -
  define T where "T = boot_state\<lparr>sd_signal := Drained\<rparr>"
  define A where "A = boot_state\<lparr>sd_signal := Stopping\<rparr>"
  define B where "B = A\<lparr>sd_signal := Cancelled\<rparr>"
  note d = T_def A_def B_def boot_state_def
  have "shutdown_step boot_state A" unfolding A_def by (rule by_signal [OF _ signalled]) (simp_all add: d)
  moreover have "shutdown_step A B" unfolding B_def by (rule by_signal [OF _ stop [OF no_cancel]]) (simp_all add: d)
  moreover have "shutdown_step B (B\<lparr>sd_signal := Drained\<rparr>)" by (rule by_signal [OF _ stop [OF no_shutdown]]) (simp_all add: d)
  ultimately have "shutdown_steps boot_state (B\<lparr>sd_signal := Drained\<rparr>)" by (rule three_steps)
  then have "shutdown_steps boot_state T" by (simp add: d)
  moreover have "shutdown_steps T ((running_state n)\<lparr>sd_signal := Drained\<rparr>)"
  proof (induction n)
    case 0
    define S1 where "S1 = T\<lparr>sd_main := ServerSet, sd_httpServer := True\<rparr>"
    define S2 where "S2 = S1\<lparr>sd_main := CleanupSet, sd_cleanupCancel := True, sd_cleanup := True\<rparr>"
    note d = S2_def S1_def T_def boot_state_def
    have "shutdown_step T S1" unfolding S1_def by (rule by_main [OF _ start [OF set_server]]) (simp_all add: d)
    moreover have "shutdown_step S1 S2" unfolding S2_def by (rule by_main [OF _ start [OF set_cleanup]]) (simp_all add: d)
    moreover have "shutdown_step S2 (S2\<lparr>sd_main := Serving\<rparr>)" by (rule by_main [OF _ start [OF serve]]) (simp_all add: d)
    ultimately have "shutdown_steps T (S2\<lparr>sd_main := Serving\<rparr>)" by (rule three_steps)
    then show ?case by (simp add: d running_state_def)
  next
    case (Suc n)
    let ?R = "(running_state n)\<lparr>sd_signal := Drained\<rparr>"
    have "shutdown_step ?R (?R\<lparr>sd_inflight := Suc (sd_inflight ?R)\<rparr>)"
      by (rule by_world [OF _ arrive]) (simp_all add: running_state_def)
    then have "shutdown_step ?R ((running_state (Suc n))\<lparr>sd_signal := Drained\<rparr>)" by (simp add: running_state_def)
    with Suc show ?case by (rule shutdown_steps.step)
  qed
  ultimately have r: "shutdown_steps boot_state ((running_state n)\<lparr>sd_signal := Drained\<rparr>)"
    by (rule shutdown_steps_trans [rotated])
  let ?C = "(running_state n)\<lparr>sd_signal := StoreClosed, sd_store_open := False\<rparr>"
  have "shutdown_step ((running_state n)\<lparr>sd_signal := Drained\<rparr>)
      ((running_state n)\<lparr>sd_signal := Drained, sd_signal := StoreClosed, sd_store_open := False\<rparr>)"
    by (rule by_signal [OF _ stop [OF close_store]]) (simp_all add: running_state_def)
  moreover have "shutdown_step ?C (?C\<lparr>sd_exit := Some 0\<rparr>)" by (rule by_signal [OF _ exit_ok]) (simp_all add: running_state_def)
  ultimately have "shutdown_steps boot_state (?C\<lparr>sd_exit := Some 0\<rparr>)" using r by (simp, metis shutdown_steps.step)
  then show ?thesis by (intro exI conjI) (assumption | simp add: running_state_def)+
qed

text \<open>
  C24: but the stop need not be orderly: \<open>Serve\<close> returns as soon as the shutdown begins, and
  \<open>main\<close> takes that for an error and exits. From any number of requests in flight there is a
  run on a signal that exits with 1 with all of them still unfinished and the store open.
\<close>

theorem shutdown_may_drop_requests:
  "\<exists>S. shutdown_steps (running_state n) S \<and> sd_exit S = Some 1 \<and> sd_inflight S = n \<and> \<not> sd_timeout S \<and> sd_store_open S"
proof -
  define S0 where "S0 = (running_state n)\<lparr>sd_signal := Stopping\<rparr>"
  define S1 where "S1 = S0\<lparr>sd_signal := Cancelled, sd_cleanup := False\<rparr>"
  define S2 where "S2 = S1\<lparr>sd_signal := Draining, sd_shut := True\<rparr>"
  define S3 where "S3 = S2\<lparr>sd_main := Returned\<rparr>"
  note d = S3_def S2_def S1_def S0_def running_state_def
  have "shutdown_step (running_state n) S0" unfolding S0_def by (rule by_signal [OF _ signalled]) (simp_all add: d)
  moreover have "shutdown_step S0 S1" unfolding S1_def by (rule by_signal [OF _ stop [OF cancel]]) (simp_all add: d)
  moreover have "shutdown_step S1 S2" unfolding S2_def by (rule by_signal [OF _ stop [OF shutdown]]) (simp_all add: d)
  moreover have "shutdown_step S2 S3" unfolding S3_def by (rule by_main [OF _ start [OF serve_returns]]) (simp_all add: d)
  moreover have "shutdown_step S3 (S3\<lparr>sd_exit := Some 1\<rparr>)" by (rule by_main [OF _ exit_error]) (simp_all add: d)
  ultimately have "shutdown_steps (running_state n) (S3\<lparr>sd_exit := Some 1\<rparr>)" by (meson shutdown_steps.intros)
  then show ?thesis by (intro exI conjI) (assumption | simp add: d)+
qed

theorem exit_zero_is_orderly_witness:
  "\<exists>S. shutdown_steps boot_state S \<and> sd_exit S = Some 0 \<and> \<not> sd_store_open S \<and> sd_shut S \<and> \<not> sd_cleanup S"
proof -
  define S0 where "S0 = (running_state 0)\<lparr>sd_signal := Stopping\<rparr>"
  define S1 where "S1 = S0\<lparr>sd_signal := Cancelled, sd_cleanup := False\<rparr>"
  define S2 where "S2 = S1\<lparr>sd_signal := Draining, sd_shut := True\<rparr>"
  define S3 where "S3 = S2\<lparr>sd_signal := Drained\<rparr>"
  define S4 where "S4 = S3\<lparr>sd_signal := StoreClosed, sd_store_open := False\<rparr>"
  note d = S4_def S3_def S2_def S1_def S0_def running_state_def
  have "shutdown_step (running_state 0) S0" unfolding S0_def by (rule by_signal [OF _ signalled]) (simp_all add: d)
  moreover have "shutdown_step S0 S1" unfolding S1_def by (rule by_signal [OF _ stop [OF cancel]]) (simp_all add: d)
  moreover have "shutdown_step S1 S2" unfolding S2_def by (rule by_signal [OF _ stop [OF shutdown]]) (simp_all add: d)
  moreover have "shutdown_step S2 S3" unfolding S3_def by (rule by_signal [OF _ stop [OF drained]]) (simp_all add: d)
  moreover have "shutdown_step S3 S4" unfolding S4_def by (rule by_signal [OF _ stop [OF close_store]]) (simp_all add: d)
  moreover have "shutdown_step S4 (S4\<lparr>sd_exit := Some 0\<rparr>)" by (rule by_signal [OF _ exit_ok]) (simp_all add: d)
  ultimately have r: "shutdown_steps (running_state 0) (S4\<lparr>sd_exit := Some 0\<rparr>)" by (meson shutdown_steps.intros)
  have x: "sd_signal (running_state 0) = Waiting" "sd_exit (S4\<lparr>sd_exit := Some 0\<rparr>) = Some 0 \<or> \<not> sd_store_open (S4\<lparr>sd_exit := Some 0\<rparr>)"
    by (simp_all add: running_state_def)
  show ?thesis
    using exit_zero_is_orderly [OF running_reachable x(1) r x(2)] shutdown_steps_trans [OF r running_reachable]
    by (auto simp: running_state_def)
qed

end
