(* ===== verification/Telegram.thy ===== *)
theory Telegram
  imports Http SqliteStore
begin

text \<open>
  \<open>internal/telegram\<close>: the bot that writes messages to the Telegram API (\<open>bot.go\<close>) and
  the webhook that receives button presses and commands (\<open>webhook.go\<close>), over any request
  store. The network is an argument; every call returns the posts it attempted.
\<close>

section \<open>The bot\<close>

record Bot =
  bot_token :: string
  bot_webhookURL :: string
  miniAppURL :: string

definition NewBot :: "string \<Rightarrow> string \<Rightarrow> string \<Rightarrow> Bot" where
  "NewBot token url app = \<lparr>bot_token = token, bot_webhookURL = url, miniAppURL = app\<rparr>"

record InlineKeyboardButton =
  btn_Text :: string
  btn_URL :: string
  btn_WebApp :: "string option" \<comment> \<open>the URL of a \<open>WebAppInfo\<close>\<close>
  btn_CallbackData :: string
  btn_Type :: string

type_synonym InlineKeyboardMarkup = "InlineKeyboardButton list list"

definition json_of_button :: "InlineKeyboardButton \<Rightarrow> json" where
  "json_of_button b = JObj (
     [(''text'', JStr (btn_Text b))] @
     (if btn_URL b = [] then [] else [(''url'', JStr (btn_URL b))]) @
     (case btn_WebApp b of None \<Rightarrow> [] | Some u \<Rightarrow> [(''web_app'', JObj [(''url'', JStr u)])]) @
     (if btn_CallbackData b = [] then [] else [(''callback_data'', JStr (btn_CallbackData b))]))"

definition json_of_keyboard :: "InlineKeyboardMarkup \<Rightarrow> json" where
  "json_of_keyboard rows = JObj [(''inline_keyboard'', JArr (map (\<lambda>row. JArr (map json_of_button row)) rows))]"

record APIResponse =
  api_Ok :: bool
  api_ErrorCode :: int
  api_Description :: string

record tg_reply =
  reply_code :: int
  reply_status :: string
  reply_body :: string

record tg_net =
  tg_bad_url :: "string \<Rightarrow> go_error option"
  tg_do :: "string \<Rightarrow> json \<Rightarrow> go_error + tg_reply"
  tg_decode :: "string \<Rightarrow> go_error + APIResponse"
  format_hm :: "gotime \<Rightarrow> string" \<comment> \<open>the layout \<open>15:04 MST\<close> in the zone of the time\<close>

text \<open>A post to the API: the URL and the JSON body.\<close>

definition sendRequest :: "tg_net \<Rightarrow> Bot \<Rightarrow> string \<Rightarrow> json \<Rightarrow> (string \<times> json) list \<times> go_error option" where
  "sendRequest net b method payload =
     (let url = ''https://api.telegram.org/bot'' @ bot_token b @ ''/'' @ method
      in case tg_bad_url net url of
           Some err \<Rightarrow> ([], Some (''create request: '' @ err))
         | None \<Rightarrow>
             (case tg_do net url payload of
                Inl err \<Rightarrow> ([(url, payload)], Some (''send request: '' @ err))
              | Inr resp \<Rightarrow>
                  if reply_code resp \<noteq> StatusOK then
                    ([(url, payload)], Some (''API error: '' @ reply_status resp @ '' - '' @ reply_body resp))
                  else case tg_decode net (reply_body resp) of
                         Inl err \<Rightarrow> ([(url, payload)], Some (''parse response: '' @ err))
                       | Inr result \<Rightarrow>
                           if \<not> api_Ok result then
                             ([(url, payload)],
                              Some (''API error: '' @ show_int (api_ErrorCode result) @ '' - '' @ api_Description result))
                           else ([(url, payload)], None)))"

definition reply_markup :: "InlineKeyboardMarkup option \<Rightarrow> (string \<times> json) list" where
  "reply_markup keyboard = (case keyboard of None \<Rightarrow> [] | Some k \<Rightarrow> [(''reply_markup'', json_of_keyboard k)])"

definition SendMessage ::
  "tg_net \<Rightarrow> Bot \<Rightarrow> int \<Rightarrow> string \<Rightarrow> InlineKeyboardMarkup option \<Rightarrow> (string \<times> json) list \<times> go_error option" where
  "SendMessage net b chatID txt keyboard =
     sendRequest net b ''sendMessage''
       (JObj ([(''chat_id'', JInt chatID), (''parse_mode'', JStr ''HTML'')] @ reply_markup keyboard @ [(''text'', JStr txt)]))"

definition EditMessageText ::
  "tg_net \<Rightarrow> Bot \<Rightarrow> int \<Rightarrow> int \<Rightarrow> string \<Rightarrow> InlineKeyboardMarkup option \<Rightarrow>
     (string \<times> json) list \<times> go_error option" where
  "EditMessageText net b chatID messageID txt keyboard =
     sendRequest net b ''editMessageText''
       (JObj ([(''chat_id'', JInt chatID), (''message_id'', JInt messageID), (''parse_mode'', JStr ''HTML'')] @
              reply_markup keyboard @ [(''text'', JStr txt)]))"

definition AnswerCallbackQuery ::
  "tg_net \<Rightarrow> Bot \<Rightarrow> string \<Rightarrow> string \<Rightarrow> bool \<Rightarrow> (string \<times> json) list \<times> go_error option" where
  "AnswerCallbackQuery net b callbackID txt showAlert =
     sendRequest net b ''answerCallbackQuery''
       (JObj [(''callback_query_id'', JStr callbackID), (''show_alert'', JBool showAlert), (''text'', JStr txt)])"

definition SetWebhook :: "tg_net \<Rightarrow> Bot \<Rightarrow> string \<Rightarrow> (string \<times> json) list \<times> go_error option" where
  "SetWebhook net b url =
     sendRequest net b ''setWebhook'' (JObj [(''drop_pending_updates'', JBool False), (''url'', JStr url)])"

definition DeleteWebhook :: "tg_net \<Rightarrow> Bot \<Rightarrow> (string \<times> json) list \<times> go_error option" where
  "DeleteWebhook net b = sendRequest net b ''deleteWebhook'' JNull"

text \<open>Characters outside ASCII, by their code points.\<close>

definition emoji_lock :: string where "emoji_lock = string_of_runes [0x1F510]"
definition emoji_cross :: string where "emoji_cross = string_of_runes [0x274C]"
definition emoji_check :: string where "emoji_check = string_of_runes [0x2705]"
definition emoji_stop :: string where "emoji_stop = string_of_runes [0x1F6AB]"
definition emoji_clock :: string where "emoji_clock = string_of_runes [0x23F1, 0xFE0F]"
definition emoji_crab :: string where "emoji_crab = string_of_runes [0x1F980]"
definition nl :: string where "nl = [CHR 0x0A]"

definition BuildApprovalKeyboard :: "Bot \<Rightarrow> string \<Rightarrow> InlineKeyboardMarkup" where
  "BuildApprovalKeyboard b requestID =
     (let approvalURL = miniAppURL b;
          approvalURL = (if \<not> has_suffix approvalURL ''/'' then approvalURL @ ''/'' else approvalURL);
          approvalURL = approvalURL @ ''pam.html?request_id='' @ requestID
      in [[\<lparr>btn_Text = emoji_lock @ '' Authenticate & Approve'', btn_URL = [], btn_WebApp = Some approvalURL,
            btn_CallbackData = [], btn_Type = ''webapp''\<rparr>],
          [\<lparr>btn_Text = emoji_cross @ '' Deny'', btn_URL = [], btn_WebApp = None,
            btn_CallbackData = ''deny_'' @ requestID, btn_Type = ''callback''\<rparr>]])"

text \<open>\<open>strings.ReplaceAll\<close> of one ASCII character.\<close>

definition replace_char :: "char \<Rightarrow> string \<Rightarrow> string \<Rightarrow> string" where
  "replace_char c new s = concat (map (\<lambda>x. if x = c then new else [x]) s)"

definition escapeHTML :: "string \<Rightarrow> string" where
  "escapeHTML s =
     (let s = replace_char (CHR ''&'') ''&amp;'' s;
          s = replace_char (CHR ''<'') ''&lt;'' s;
          s = replace_char (CHR ''>'') ''&gt;'' s;
          s = replace_char (CHR 0x22) ''&quot;'' s
      in s)"

text \<open>The bot's own view of a request.\<close>

record bot_request =
  br_ID :: string
  br_TargetSystem :: string
  br_Command :: string
  br_Reason :: string
  br_Requester :: string
  br_ExpiresAt :: gotime

definition BuildApprovalMessage :: "tg_net \<Rightarrow> bot_request \<Rightarrow> string" where
  "BuildApprovalMessage net req =
     ''<b>'' @ emoji_lock @ '' Elevation Request</b>'' @ nl @ nl @
     ''<b>Target:</b> '' @ escapeHTML (br_TargetSystem req) @ nl @
     ''<b>Requester:</b> '' @ escapeHTML (br_Requester req) @ nl @
     ''<b>Command:</b>'' @ nl @ ''<pre>'' @ escapeHTML (br_Command req) @ ''</pre>'' @ nl @
     ''<b>Reason:</b> '' @ escapeHTML (br_Reason req) @ nl @ nl @
     emoji_clock @ '' Expires: '' @ format_hm net (br_ExpiresAt req)"

definition BuildApprovalResultMessage :: "tg_net \<Rightarrow> gotime \<Rightarrow> bot_request \<Rightarrow> bool \<Rightarrow> string \<Rightarrow> string" where
  "BuildApprovalResultMessage net now req approved approver =
     (if approved then
        emoji_check @ '' <b>Approved</b>'' @ nl @ nl @
        ''<b>Target:</b> '' @ escapeHTML (br_TargetSystem req) @ nl @
        ''<b>Command:</b>'' @ nl @ ''<pre>'' @ escapeHTML (br_Command req) @ ''</pre>'' @ nl @
        ''<b>By:</b> '' @ escapeHTML approver @ nl @
        ''<b>Time:</b> '' @ format_hm net now
      else
        emoji_stop @ '' <b>Denied</b>'' @ nl @ nl @
        ''<b>Target:</b> '' @ escapeHTML (br_TargetSystem req) @ nl @
        ''<b>Command:</b>'' @ nl @ ''<pre>'' @ escapeHTML (br_Command req) @ ''</pre>'' @ nl @
        ''<b>Time:</b> '' @ format_hm net now)"

definition NewBotFromEnv :: "(string \<Rightarrow> string) \<Rightarrow> Bot option" where
  "NewBotFromEnv env =
     (let token = env ''KINGCRAB_TELEGRAM_BOT_TOKEN''
      in if token = [] then None
         else Some (NewBot token (env ''KINGCRAB_TELEGRAM_WEBHOOK_URL'') (env ''KINGCRAB_TELEGRAM_MINIAPP_URL'')))"

section \<open>The webhook\<close>

record tg_user =
  tgu_ID :: int
  tgu_Username :: string
  tgu_FirstName :: string
  tgu_LastName :: string

record Message =
  msg_ID :: int
  msg_Chat :: "int option"
  msg_From :: "tg_user option"
  msg_Text :: string

record CallbackQuery =
  cq_ID :: string
  cq_From :: "tg_user option"
  cq_Message :: "Message option"
  cq_Data :: string
  cq_ChatInstance :: string

record Update =
  up_ID :: int
  up_Message :: "Message option"
  up_CallbackQuery :: "CallbackQuery option"

record 's WebhookHandler =
  wh_bot :: Bot
  wh_store :: "'s RequestStore"
  notifyURL :: string
  secretToken :: string

definition NewWebhookHandler :: "Bot \<Rightarrow> 's RequestStore \<Rightarrow> string \<Rightarrow> string \<Rightarrow> 's WebhookHandler" where
  "NewWebhookHandler b store url secret =
     \<lparr>wh_bot = b, wh_store = store, notifyURL = url, secretToken = secret\<rparr>"

definition toElevationRequest :: "ElevationRequest \<Rightarrow> bot_request" where
  "toElevationRequest req =
     \<lparr>br_ID = ID req, br_TargetSystem = TargetSystem req, br_Command = Command req, br_Reason = Reason req,
      br_Requester = Requester req, br_ExpiresAt = ExpiresAt req\<rparr>"

text \<open>
  \<open>notifyExternal\<close>: what an attempt meets, and what the loop does, attempt by attempt.
\<close>

datatype attempt_result =
    BadRequest go_error
  | SendFailed go_error
  | GotStatus int

datatype notify_event =
    Attempt nat
  | Sleep int \<comment> \<open>milliseconds\<close>

definition maxRetries :: nat where "maxRetries = 3"

definition backoff :: "nat \<Rightarrow> int" where
  "backoff attempt = 100 * 2 ^ (attempt - 1)"

function notify_loop :: "(nat \<Rightarrow> attempt_result) \<Rightarrow> nat \<Rightarrow> notify_event list" where
  "notify_loop net attempt =
     (if attempt > maxRetries then []
      else case net attempt of
             BadRequest _ \<Rightarrow> notify_loop net (attempt + 1)
           | SendFailed _ \<Rightarrow>
               if attempt < maxRetries
               then Attempt attempt # Sleep (backoff attempt) # notify_loop net (attempt + 1)
               else [Attempt attempt]
           | GotStatus code \<Rightarrow>
               if code \<ge> 200 \<and> code < 300 then [Attempt attempt]
               else if code \<ge> 400 \<and> code < 500 then [Attempt attempt]
               else if attempt < maxRetries
               then Attempt attempt # Sleep (backoff attempt) # notify_loop net (attempt + 1)
               else Attempt attempt # notify_loop net (attempt + 1))"
  by pat_completeness auto
termination by (relation "measure (\<lambda>(net, attempt). maxRetries + 1 - attempt)") auto

declare notify_loop.simps [simp del]

definition notifyExternal :: "(nat \<Rightarrow> attempt_result) \<Rightarrow> notify_event list" where
  "notifyExternal net = notify_loop net 1"

text \<open>What a handler does outside the store: posts to the API, and the goroutine it starts.\<close>

datatype hook_event =
    ApiPost "string \<times> json"
  | NotifyGo string string string \<comment> \<open>request, status and approver, for \<open>notifyExternal\<close>\<close>

definition api :: "(string \<times> json) list \<times> go_error option \<Rightarrow> hook_event list" where
  "api r = map ApiPost (fst r)"

definition sender_name :: "tg_user \<Rightarrow> string" where
  "sender_name u = (if tgu_Username u = [] then ''tg:'' @ show_int (tgu_ID u) else tgu_Username u)"

definition hook_handleDeny ::
  "'s WebhookHandler \<Rightarrow> tg_net \<Rightarrow> clock \<Rightarrow> CallbackQuery \<Rightarrow> string \<Rightarrow> 's \<Rightarrow> 's \<times> hook_event list" where
  "hook_handleDeny h net clk cq requestID s =
     (let answer = (\<lambda>txt alert. api (AnswerCallbackQuery net (wh_bot h) (cq_ID cq) txt alert))
      in case cq_From cq of
           None \<Rightarrow> (s, answer ''Invalid callback query'' True)
         | Some from_user \<Rightarrow>
      (case Get (wh_store h) requestID s of
         (s1, Inl _) \<Rightarrow> (s1, answer ''Request not found'' True)
       | (s1, Inr None) \<Rightarrow> (s1, answer ''Request not found'' True)
       | (s1, Inr (Some req)) \<Rightarrow>
           if time_after (clk 0) (ExpiresAt req) then (s1, answer ''Request expired'' True)
           else
             let username = sender_name from_user
             in case UpdateStateIf (wh_store h) (clk_from 1 clk) requestID ''pending'' ''denied'' username s1 of
                  (s2, Inl _) \<Rightarrow> (s2, answer ''Error updating request'' True)
                | (s2, Inr success) \<Rightarrow>
                    if \<not> success then (s2, answer ''Request already processed'' False)
                    else
                      (s2, answer ''Request denied'' False @
                         (case cq_Message cq of
                            None \<Rightarrow> []
                          | Some m \<Rightarrow>
                              (case msg_Chat m of
                                 None \<Rightarrow> []
                               | Some chat \<Rightarrow>
                                   api (EditMessageText net (wh_bot h) chat (msg_ID m)
                                     (BuildApprovalResultMessage net (clk 3) (toElevationRequest req) False
                                       (sender_name from_user)) None))) @
                         (if notifyURL h = [] then [] else [NotifyGo (ID req) ''denied'' username]))))"

definition handleCallbackQuery ::
  "'s WebhookHandler \<Rightarrow> tg_net \<Rightarrow> clock \<Rightarrow> CallbackQuery \<Rightarrow> 's \<Rightarrow> 's \<times> hook_event list" where
  "handleCallbackQuery h net clk cq s =
     (let data = cq_Data cq
      in if data = [] then (s, api (AnswerCallbackQuery net (wh_bot h) (cq_ID cq) ''Invalid request'' True))
         else if length data > 5 \<and> take 5 data = ''deny_'' then hook_handleDeny h net clk cq (drop 5 data) s
         else (s, api (AnswerCallbackQuery net (wh_bot h) (cq_ID cq) ''Unknown action'' False)))"

definition handleStart :: "'s WebhookHandler \<Rightarrow> tg_net \<Rightarrow> int \<Rightarrow> hook_event list" where
  "handleStart h net chatID =
     api (SendMessage net (wh_bot h) chatID
       (''<b>Welcome to KingCrab PAM! '' @ emoji_crab @ ''</b>'' @ nl @ nl @
        ''This bot handles elevation request approvals for your systems.'' @ nl @ nl @
        ''<b>Commands:</b>'' @ nl @ ''/start - Show this message'' @ nl @ ''/status - Check bot status'' @ nl @ nl @
        ''You'' @ [CHR 0x27] @ ''ll receive elevation requests here when they need approval.'') None)"

definition handleStatus ::
  "'s WebhookHandler \<Rightarrow> tg_net \<Rightarrow> clock \<Rightarrow> int \<Rightarrow> 's \<Rightarrow> 's \<times> hook_event list" where
  "handleStatus h net clk chatID s =
     (let (s1, q) = ListPending (wh_store h) clk s;
          n = (case q of Inl _ \<Rightarrow> 0 | Inr pending \<Rightarrow> length pending);
          status = (if n > 0 then emoji_check @ '' Bot running - '' @ show_nat n @ '' pending request(s)''
                    else emoji_check @ '' Bot is running'')
      in (s1, api (SendMessage net (wh_bot h) chatID status None)))"

definition maxBodyBytes :: nat where "maxBodyBytes = 1048576"

definition is_command :: "Update \<Rightarrow> string \<Rightarrow> int option" where
  "is_command u c =
     (case up_Message u of
        None \<Rightarrow> None
      | Some m \<Rightarrow> (case msg_Chat m of None \<Rightarrow> None | Some chat \<Rightarrow> if msg_Text m = c then Some chat else None))"

definition hook_ServeHTTP ::
  "'s WebhookHandler \<Rightarrow> tg_net \<Rightarrow> (string \<Rightarrow> go_error + Update) \<Rightarrow> clock \<Rightarrow> http_request \<Rightarrow> 's \<Rightarrow>
     's \<times> hook_event list \<times> http_response" where
  "hook_ServeHTTP h net decode_update clk r s =
     (if secretToken h \<noteq> [] \<and> Header r ''X-Telegram-Bot-Api-Secret-Token'' \<noteq> secretToken h then
        (s, [], http_Error ''unauthorized'' StatusUnauthorized)
      else case decode_update (take maxBodyBytes (ReqBody r)) of
        Inl _ \<Rightarrow> (s, [], http_Error ''bad request'' StatusBadRequest)
      | Inr update \<Rightarrow>
          (case up_CallbackQuery update of
             Some cq \<Rightarrow> (let (s1, evs) = handleCallbackQuery h net clk cq s in (s1, evs, empty_response StatusOK))
           | None \<Rightarrow>
               (case is_command update ''/start'' of
                  Some chat \<Rightarrow> (s, handleStart h net chat, empty_response StatusOK)
                | None \<Rightarrow>
                    (case is_command update ''/status'' of
                       Some chat \<Rightarrow>
                         (let (s1, evs) = handleStatus h net clk chat s in (s1, evs, empty_response StatusOK))
                     | None \<Rightarrow> (s, [], empty_response StatusOK)))))"

section \<open>Escaping\<close>

definition esc_char :: "char \<Rightarrow> string" where
  "esc_char c = (if c = CHR ''&'' then ''&amp;'' else if c = CHR ''<'' then ''&lt;''
     else if c = CHR ''>'' then ''&gt;'' else if c = CHR 0x22 then ''&quot;'' else [c])"

text \<open>A reference decoder of the four entities.\<close>

function html_unescape :: "string \<Rightarrow> string" where
  "html_unescape s =
     (if s = [] then []
      else if has_prefix s ''&amp;'' then CHR ''&'' # html_unescape (drop 5 s)
      else if has_prefix s ''&lt;'' then CHR ''<'' # html_unescape (drop 4 s)
      else if has_prefix s ''&gt;'' then CHR ''>'' # html_unescape (drop 4 s)
      else if has_prefix s ''&quot;'' then CHR 0x22 # html_unescape (drop 6 s)
      else hd s # html_unescape (tl s))"
  by pat_completeness auto
termination by (relation "measure length") auto

declare html_unescape.simps [simp del]

lemma replace_char_simps [simp]:
  "replace_char c new [] = []" "replace_char c new (x # s) = (if x = c then new else [x]) @ replace_char c new s"
  by (simp_all add: replace_char_def)

lemma replace_char_append [simp]: "replace_char c new (s @ t) = replace_char c new s @ replace_char c new t"
  by (simp add: replace_char_def)

lemma escapeHTML_chars: "escapeHTML s = concat (map esc_char s)"
  by (induction s) (simp_all add: escapeHTML_def esc_char_def)

lemma html_unescape_esc: "html_unescape (esc_char c @ s) = c # html_unescape s"
  by (subst html_unescape.simps) (auto simp: esc_char_def has_prefix_def)

text \<open>
  C36: escaping is safe and loses nothing: the four replacements, one after the other, leave
  no angle bracket and no double quote in the text, and a decoder of the four entities gives
  the original text back, ampersands and texts that look like entities included.
\<close>

theorem escapeHTML_roundtrip:
  "html_unescape (escapeHTML s) = s \<and> set (escapeHTML s) \<inter> {CHR ''<'', CHR ''>'', CHR 0x22} = {}"
proof -
  have "html_unescape (concat (map esc_char s)) = s"
    by (induction s) (simp_all add: html_unescape_esc html_unescape.simps [of "[]"])
  moreover have "set (concat (map esc_char s)) \<inter> {CHR ''<'', CHR ''>'', CHR 0x22} = {}"
    by (auto simp: esc_char_def split: if_splits)
  ultimately show ?thesis by (simp add: escapeHTML_chars)
qed

section \<open>Retries\<close>

fun attempts_of :: "notify_event list \<Rightarrow> nat list" where
  "attempts_of [] = []"
| "attempts_of (Attempt n # es) = n # attempts_of es"
| "attempts_of (Sleep ms # es) = attempts_of es"

fun slept :: "notify_event list \<Rightarrow> int" where
  "slept [] = 0"
| "slept (Attempt n # es) = slept es"
| "slept (Sleep ms # es) = ms + slept es"

definition final_reply :: "attempt_result \<Rightarrow> bool" where
  "final_reply r \<longleftrightarrow> (\<exists>code. r = GotStatus code \<and> (200 \<le> code \<and> code < 300 \<or> 400 \<le> code \<and> code < 500))"

lemma notify_loop_end [simp]: "notify_loop net 4 = []"
  by (simp add: notify_loop.simps [of net 4] maxRetries_def)

lemma notify_loop_3:
  "notify_loop net 3 = (case net 3 of BadRequest _ \<Rightarrow> [] | _ \<Rightarrow> [Attempt 3])"
  by (simp add: notify_loop.simps [of net 3] maxRetries_def split: attempt_result.split)

lemma notify_loop_2:
  "notify_loop net 2 = (case net 2 of BadRequest _ \<Rightarrow> notify_loop net 3
     | r \<Rightarrow> if final_reply r then [Attempt 2] else Attempt 2 # Sleep 200 # notify_loop net 3)"
  by (subst notify_loop.simps)
    (auto simp: maxRetries_def final_reply_def backoff_def split: attempt_result.split)

lemma notify_loop_1:
  "notify_loop net 1 = (case net 1 of BadRequest _ \<Rightarrow> notify_loop net 2
     | r \<Rightarrow> if final_reply r then [Attempt 1] else Attempt 1 # Sleep 100 # notify_loop net 2)"
proof -
  have "notify_loop net (Suc (Suc 0)) = notify_loop net 2" by (simp add: numeral_2_eq_2)
  then show ?thesis
    by (subst notify_loop.simps)
      (auto simp: maxRetries_def final_reply_def backoff_def split: attempt_result.split)
qed

text \<open>
  C35: the notification of the external system ends: at most three posts, numbered upwards, none
  of them after an answer that settles the matter (a success or a client error), and at most
  300 milliseconds of sleep between them, whatever the network does.
\<close>

theorem notifyExternal_bounds:
  "length (attempts_of (notifyExternal net)) \<le> 3 \<and> sorted_wrt (<) (attempts_of (notifyExternal net)) \<and>
   filter (\<lambda>n. final_reply (net n)) (butlast (attempts_of (notifyExternal net))) = [] \<and>
   0 \<le> slept (notifyExternal net) \<and> slept (notifyExternal net) \<le> 300"
  unfolding notifyExternal_def notify_loop_1 notify_loop_2 notify_loop_3
  by (auto split: attempt_result.split)

section \<open>What the webhook can do to a request\<close>

context request_store
begin

lemma hook_handleDeny_effect:
  assumes "wh_store h = st" "ok s" "in_years (clk 1)" "in_years (clk 2)" "hook_handleDeny h net clk cq i s = (s', evs)"
  shows "ok s' \<and> (lookup s' = lookup s \<or>
     (\<exists>r r' u. cq_From cq = Some u \<and> lookup s i = Some r \<and> Status r = ''pending'' \<and> clk 0 \<le> ExpiresAt r \<and>
        lookup s' = (lookup s)(i \<mapsto> r') \<and> Status r' = ''denied'' \<and> same_subject r r'))"
proof (cases "cq_From cq")
  case None
  then show ?thesis using assms(2,5) by (simp add: hook_handleDeny_def)
next
  case (Some u)
  obtain s1 q where g: "Get (wh_store h) i s = (s1, q)" by fastforce
  note l = get [OF assms(2) g [unfolded assms(1)]]
  obtain s2 b where c: "UpdateStateIf (wh_store h) (clk_from 1 clk) i ''pending'' ''denied'' (sender_name u) s1 = (s2, b)"
    by fastforce
  have years: "in_years (clk_from 1 clk 0)" "in_years (clk_from 1 clk 1)"
    using assms(3,4) by (simp_all add: numeral_2_eq_2)
  have "s' = s1 \<or> (\<exists>r. q = Inr (Some r) \<and> \<not> time_after (clk 0) (ExpiresAt r) \<and> s' = s2)"
    using assms(5) g c by (auto simp: hook_handleDeny_def Some Let_def split: sum.splits option.splits if_splits)
  then show ?thesis
  proof
    assume "s' = s1"
    then show ?thesis using l by simp
  next
    assume "\<exists>r. q = Inr (Some r) \<and> \<not> time_after (clk 0) (ExpiresAt r) \<and> s' = s2"
    then obtain r where r: "lookup s i = Some r" "clk 0 \<le> ExpiresAt r" "s' = s2"
      using l by (auto simp: time_after_def)
    from cas [OF _ years c [unfolded assms(1)]] l have "ok s2" "lookup s2 = lookup s \<or>
        (\<exists>r r'. lookup s i = Some r \<and> lookup s2 = (lookup s)(i \<mapsto> r') \<and> Status r = ''pending'' \<and>
           Status r' = ''denied'' \<and> same_subject r r')" by metis+
    with r Some show ?thesis by auto
  qed
qed

lemma hook_effect:
  assumes "wh_store h = st" "ok s" "in_years (clk 1)" "in_years (clk 2)"
    "hook_ServeHTTP h net decode_update clk r s = (s', evs, resp)" "lookup s' i \<noteq> lookup s i"
  shows "\<exists>up cq u q q'. (secretToken h = [] \<or> Header r ''X-Telegram-Bot-Api-Secret-Token'' = secretToken h) \<and>
     decode_update (take maxBodyBytes (ReqBody r)) = Inr up \<and> up_CallbackQuery up = Some cq \<and>
     cq_Data cq = ''deny_'' @ i \<and> cq_From cq = Some u \<and>
     lookup s i = Some q \<and> Status q = ''pending'' \<and> clk 0 \<le> ExpiresAt q \<and>
     lookup s' i = Some q' \<and> Status q' = ''denied'' \<and> same_subject q q'"
proof -
  have sec: "secretToken h = [] \<or> Header r ''X-Telegram-Bot-Api-Secret-Token'' = secretToken h"
  proof (rule ccontr)
    assume "\<not> ?thesis"
    then have "s' = s" using assms(5) by (simp add: hook_ServeHTTP_def)
    with assms(6) show False by simp
  qed
  obtain up where up: "decode_update (take maxBodyBytes (ReqBody r)) = Inr up"
    using assms(5,6) by (auto simp: hook_ServeHTTP_def split: sum.splits if_splits)
  have "lookup (fst (handleStatus h net clk chat s)) = lookup s" for chat
    using list_pending [OF assms(2) prod.collapse [symmetric], of clk] assms(1)
    by (simp add: handleStatus_def split_beta Let_def)
  then obtain cq where cq: "up_CallbackQuery up = Some cq" "s' = fst (handleCallbackQuery h net clk cq s)"
    using assms(5,6) sec up
    by (auto simp: hook_ServeHTTP_def split_beta Let_def split: option.splits)
  have d: "length (cq_Data cq) > 5" "take 5 (cq_Data cq) = ''deny_''"
    using cq(2) assms(6) by (auto simp: handleCallbackQuery_def Let_def split: if_splits)
  let ?j = "drop 5 (cq_Data cq)"
  obtain s1 evs1 where h: "hook_handleDeny h net clk cq ?j s = (s1, evs1)" by fastforce
  have "s' = s1" using cq(2) d h by (auto simp: handleCallbackQuery_def Let_def)
  with hook_handleDeny_effect [OF assms(1-4) h] assms(6) obtain q q' u where
    e: "cq_From cq = Some u" "lookup s ?j = Some q" "Status q = ''pending''" "clk 0 \<le> ExpiresAt q"
      "lookup s' = (lookup s)(?j \<mapsto> q')" "Status q' = ''denied''" "same_subject q q'" by metis
  have "i = ?j" using e(5) assms(6) by (auto split: if_splits)
  moreover have "cq_Data cq = ''deny_'' @ ?j" using d(2) append_take_drop_id [of 5 "cq_Data cq"] by simp
  ultimately show ?thesis using sec up cq(1) e by auto
qed

end


definition sample_hook :: "SQLiteRequestStore WebhookHandler" where
  "sample_hook = NewWebhookHandler (NewBot ''1:a'' [] ''https://app'') sqlite_store [] ''s3cret''"

definition sample_press :: CallbackQuery where
  "sample_press = \<lparr>cq_ID = ''77'', cq_From = Some \<lparr>tgu_ID = 666, tgu_Username = [], tgu_FirstName = ''Eve'', tgu_LastName = []\<rparr>,
     cq_Message = None, cq_Data = ''deny_r1'', cq_ChatInstance = []\<rparr>"

definition sample_hook_request :: http_request where
  "sample_hook_request = \<lparr>Method = ''POST'', URLPath = ''/webhook'', Header = (\<lambda>_. ''s3cret''), QueryGet = (\<lambda>_. []),
     RemoteAddr = [], ReqBody = []\<rparr>"

definition sample_tg_net :: tg_net where
  "sample_tg_net = \<lparr>tg_bad_url = (\<lambda>_. None), tg_do = (\<lambda>u j. Inl ''no route''), tg_decode = (\<lambda>_. Inl []), format_hm = (\<lambda>_. [])\<rparr>"

definition sample_hook_run :: "SQLiteRequestStore \<times> hook_event list \<times> http_response" where
  "sample_hook_run = hook_ServeHTTP sample_hook sample_tg_net
     (\<lambda>_. Inr \<lparr>up_ID = 1, up_Message = None, up_CallbackQuery = Some sample_press\<rparr>)
     (\<lambda>i. 1700000100000000000 + int i) sample_hook_request sample_db"


end
