(* ===== verification/LegacyDaemon.thy ===== *)
theory LegacyDaemon
  imports Http Executor
begin

text \<open>
  The first daemon: \<open>internal/daemon/server.go\<close>, an in-memory queue behind a mutex, and
  \<open>internal/daemon/executor.go\<close>, which hands a command to the shell. Approval and denial hold
  the mutex from the lookup to the end, the execution included, so a request is one step on
  the queue. The calls of the logger are left out. The shell, the JSON decoder, the identifier and the clock are arguments.
\<close>

section \<open>The executor\<close>

record legacy_Executor =
  legacy_allowed :: "string list"

definition legacy_NewExecutor :: "string list \<Rightarrow> legacy_Executor" where
  "legacy_NewExecutor cmds = \<lparr>legacy_allowed = cmds\<rparr>"

definition legacy_IsAllowed :: "legacy_Executor \<Rightarrow> string \<Rightarrow> bool" where
  "legacy_IsAllowed e command =
     list_ex (\<lambda>p. let pattern = trim_space p
                  in if pattern = [] then False
                     else if has_suffix pattern ''*'' \<and> has_prefix command (trim_suffix pattern ''*'') then True
                     else command = pattern)
       (legacy_allowed e)"

text \<open>The shell's combined output, its error and the time it took.\<close>

record sh_outcome =
  sh_output :: string
  sh_error :: "run_error option"
  sh_millis :: int

definition legacy_ErrCommandNotAllowed :: go_error where
  "legacy_ErrCommandNotAllowed = ''command not allowed''"

text \<open>First the argument vector of the process that was started, if one was.\<close>

definition legacy_Execute ::
  "legacy_Executor \<Rightarrow> (string list \<Rightarrow> sh_outcome) \<Rightarrow> string \<Rightarrow>
     string list option \<times> ExecuteResult option \<times> go_error option" where
  "legacy_Execute e run command =
     (if \<not> legacy_IsAllowed e command then (None, None, Some legacy_ErrCommandNotAllowed)
      else
        let argv = [''sh'', ''-c'', command];
            out = run argv;
            result = \<lparr>Stdout = [], Stderr = [], ExitCode = 0, Duration = sh_millis out\<rparr>;
            result = (case sh_error out of
                        Some err \<Rightarrow> result\<lparr>ExitCode := run_error_code err\<rparr>
                      | None \<Rightarrow> result\<lparr>ExitCode := 0\<rparr>)
        in (Some argv, Some (result\<lparr>Stdout := sh_output out\<rparr>), None))"

section \<open>The server\<close>

record legacy_request =
  lr_ID :: string
  lr_Command :: string
  lr_Reason :: string
  lr_Status :: string
  lr_Timestamp :: gotime
  lr_Result :: "ExecuteResult option"

record legacy_Server =
  ls_requireReason :: bool
  ls_executor :: legacy_Executor

type_synonym legacy_queue = "string \<Rightarrow> legacy_request option"

record legacy_env =
  legacy_decode :: "string \<Rightarrow> go_error + string \<times> string" \<comment> \<open>command and reason\<close>
  legacy_uuid :: string
  legacy_now :: gotime
  legacy_run :: "string list \<Rightarrow> sh_outcome"
  legacy_order :: "legacy_queue \<Rightarrow> string list" \<comment> \<open>the order in which \<open>range\<close> visits the map\<close>
  legacy_locate :: "http_request \<Rightarrow> string \<Rightarrow> string" \<comment> \<open>the URL of a redirection\<close>

definition legacy_NewServer :: "string list \<Rightarrow> bool \<Rightarrow> legacy_Server \<times> legacy_queue" where
  "legacy_NewServer cmds reason =
     (\<lparr>ls_requireReason = reason, ls_executor = legacy_NewExecutor cmds\<rparr>, Map.empty)"

definition json_of_result :: "ExecuteResult \<Rightarrow> json" where
  "json_of_result r = JObj [(''Stdout'', JStr (Stdout r)), (''Stderr'', JStr (Stderr r)),
     (''ExitCode'', JInt (ExitCode r)), (''Duration'', JInt (Duration r))]"

definition json_of_legacy :: "legacy_request \<Rightarrow> json" where
  "json_of_legacy r = JObj (
     [(''id'', JStr (lr_ID r)), (''command'', JStr (lr_Command r)), (''reason'', JStr (lr_Reason r)),
      (''status'', JStr (lr_Status r)), (''timestamp'', JTime (lr_Timestamp r))] @
     (case lr_Result r of None \<Rightarrow> [] | Some x \<Rightarrow> [(''result'', json_of_result x)]))"

definition legacy_handleHealth :: http_response where
  "legacy_handleHealth = respond (JObj [(''status'', JStr ''ok''), (''version'', JStr ''0.1.0'')])"

definition legacy_handleRequests :: "legacy_env \<Rightarrow> legacy_queue \<Rightarrow> http_response" where
  "legacy_handleRequests env q =
     respond (JArr (map json_of_legacy (List.map_filter q (legacy_order env q))))"

definition legacy_handleRequest ::
  "legacy_Server \<Rightarrow> legacy_env \<Rightarrow> http_request \<Rightarrow> legacy_queue \<Rightarrow> legacy_queue \<times> http_response" where
  "legacy_handleRequest s env r q =
     (if Method r \<noteq> ''POST'' then (q, http_Error ''method not allowed'' StatusMethodNotAllowed)
      else case legacy_decode env (ReqBody r) of
        Inl _ \<Rightarrow> (q, http_Error ''invalid request body'' StatusBadRequest)
      | Inr (command, reason) \<Rightarrow>
          if command = [] then (q, http_Error ''command is required'' StatusBadRequest)
          else if \<not> legacy_IsAllowed (ls_executor s) command then
            (q, http_Error ''command not in allowlist'' StatusForbidden)
          else if ls_requireReason s \<and> reason = [] then
            (q, http_Error ''reason is required'' StatusBadRequest)
          else
            let request = \<lparr>lr_ID = legacy_uuid env, lr_Command = command, lr_Reason = reason,
                  lr_Status = ''pending'', lr_Timestamp = legacy_now env, lr_Result = None\<rparr>
            in (q(lr_ID request \<mapsto> request),
                (respond (json_of_legacy request))\<lparr>resp_status := StatusCreated\<rparr>))"

text \<open>The guards that approval and denial share: the method, the identifier, the queue, the status.\<close>

definition legacy_pending ::
  "string \<Rightarrow> http_request \<Rightarrow> legacy_queue \<Rightarrow> http_response + legacy_request" where
  "legacy_pending prefix r q =
     (if Method r \<noteq> ''POST'' then Inl (http_Error ''method not allowed'' StatusMethodNotAllowed)
      else
        let i = trim_prefix (URLPath r) prefix
        in if i = [] then Inl (http_Error ''request id required'' StatusBadRequest)
           else case q i of
                  None \<Rightarrow> Inl (http_Error ''request not found'' StatusNotFound)
                | Some req \<Rightarrow>
                    if lr_Status req \<noteq> ''pending''
                    then Inl (http_Error ''request already processed'' StatusBadRequest)
                    else Inr req)"

text \<open>The queue holds pointers: the request changes in place, under the key it was found by.\<close>

definition legacy_handleApprove ::
  "legacy_Server \<Rightarrow> legacy_env \<Rightarrow> http_request \<Rightarrow> legacy_queue \<Rightarrow>
     legacy_queue \<times> (string \<times> string list) list \<times> http_response" where
  "legacy_handleApprove s env r q =
     (case legacy_pending ''/approve/'' r q of
        Inl resp \<Rightarrow> (q, [], resp)
      | Inr req \<Rightarrow>
          let i = trim_prefix (URLPath r) ''/approve/'';
              (started, result, err) = legacy_Execute (ls_executor s) (legacy_run env) (lr_Command req);
              req1 = req\<lparr>lr_Status := (case err of Some _ \<Rightarrow> ''failed'' | None \<Rightarrow> ''completed''), lr_Result := result\<rparr>
          in (q(i \<mapsto> req1), (case started of None \<Rightarrow> [] | Some argv \<Rightarrow> [(i, argv)]), respond (json_of_legacy req1)))"

definition legacy_handleDeny ::
  "http_request \<Rightarrow> legacy_queue \<Rightarrow> legacy_queue \<times> http_response" where
  "legacy_handleDeny r q =
     (case legacy_pending ''/deny/'' r q of
        Inl resp \<Rightarrow> (q, resp)
      | Inr req \<Rightarrow>
          let req1 = req\<lparr>lr_Status := ''denied''\<rparr>
          in (q(trim_prefix (URLPath r) ''/deny/'' \<mapsto> req1), respond (json_of_legacy req1)))"

text \<open>The routes, behind the cleaning and the redirections of \<open>http.ServeMux\<close>.\<close>

definition legacy_router ::
  "legacy_Server \<Rightarrow> legacy_env \<Rightarrow> http_request \<Rightarrow> legacy_queue \<Rightarrow>
     legacy_queue \<times> (string \<times> string list) list \<times> http_response" where
  "legacy_router s env r q =
     (let path = (if Method r = ''CONNECT'' then URLPath r else http_clean_path (URLPath r))
      in if URLPath r = ''*'' then
        (q, [], (empty_response StatusBadRequest)\<lparr>resp_headers := [(''Connection'', ''close'')]\<rparr>)
      else if path = ''/approve'' \<or> path = ''/deny'' then
        (q, [], redirect r (legacy_locate env r (http_clean_path (URLPath r) @ ''/'')))
      else if path \<noteq> URLPath r then (q, [], redirect r (legacy_locate env r path))
      else if URLPath r = ''/health'' then (q, [], legacy_handleHealth)
      else if URLPath r = ''/requests'' then (q, [], legacy_handleRequests env q)
      else if URLPath r = ''/request'' then
        (let (q1, resp) = legacy_handleRequest s env r q in (q1, [], resp))
      else if has_prefix (URLPath r) ''/approve/'' then legacy_handleApprove s env r q
      else if has_prefix (URLPath r) ''/deny/'' then
        (let (q1, resp) = legacy_handleDeny r q in (q1, [], resp))
      else (q, [], http_NotFound))"

text \<open>A history of the server: the requests it serves one after the other, each with its environment.\<close>

fun legacy_serve ::
  "legacy_Server \<Rightarrow> (legacy_env \<times> http_request) list \<Rightarrow> legacy_queue \<Rightarrow>
     legacy_queue \<times> (string \<times> string list) list" where
  "legacy_serve s [] q = (q, [])"
| "legacy_serve s ((env, r) # rs) q =
     (let (q1, started, resp) = legacy_router s env r q; (q2, started2) = legacy_serve s rs q1
      in (q2, started @ started2))"

section \<open>Properties\<close>

text \<open>What is left to start: one process while the request is pending.\<close>

definition legacy_credit :: "string \<Rightarrow> legacy_queue \<Rightarrow> nat" where
  "legacy_credit i q = (case q i of Some r \<Rightarrow> if lr_Status r = ''pending'' then 1 else 0 | None \<Rightarrow> 0)"

lemma legacy_credit_le: "legacy_credit i q \<le> 1"
  by (simp add: legacy_credit_def split: option.split)

lemma legacy_pending_Inr:
  "legacy_pending p r q = Inr req \<Longrightarrow> q (trim_prefix (URLPath r) p) = Some req \<and> lr_Status req = ''pending''"
  by (auto simp: legacy_pending_def Let_def split: if_splits option.splits)

lemma legacy_router_credit:
  assumes "legacy_router s env r q = (q1, started, resp)"
  shows "length (filter (\<lambda>x. fst x = i) started) + legacy_credit i q1 \<le>
     legacy_credit i q + (if legacy_uuid env = i then 1 else 0)"
proof -
  have create: "legacy_credit i (fst (legacy_handleRequest s env r q)) \<le>
      legacy_credit i q + (if legacy_uuid env = i then 1 else 0)"
    by (auto simp: legacy_handleRequest_def legacy_credit_def Let_def split: sum.split)
  have deny: "legacy_credit i (fst (legacy_handleDeny r q)) \<le> legacy_credit i q"
    by (auto simp: legacy_handleDeny_def legacy_credit_def Let_def split: sum.split)
  have approve: "length (filter (\<lambda>x. fst x = i) (fst (snd (legacy_handleApprove s env r q)))) +
      legacy_credit i (fst (legacy_handleApprove s env r q)) \<le> legacy_credit i q"
    using legacy_pending_Inr [of "''/approve/''" r q]
    by (auto simp: legacy_handleApprove_def legacy_credit_def split_beta Let_def split: sum.split option.splits)
  show ?thesis
    using assms unfolding legacy_router_def Let_def
    by (elim if_split_elim) (use create deny approve in \<open>auto simp: split_beta\<close>)
qed

text \<open>
  C32: the first daemon starts at most one process for each identifier that is drawn: in any
  history of the server, from any queue, the processes started for a request are no more than
  the times its identifier was drawn, plus one if it was already waiting.
\<close>

theorem legacy_starts_bounded:
  "length (filter (\<lambda>x. fst x = i) (snd (legacy_serve s rs q))) \<le>
     length (filter (\<lambda>x. legacy_uuid (fst x) = i) rs) + legacy_credit i q"
proof (induction rs arbitrary: q)
  case (Cons x rs)
  obtain env r where x: "x = (env, r)" by (cases x)
  obtain q1 started resp where h: "legacy_router s env r q = (q1, started, resp)" by (metis prod_cases3)
  from Cons [of q1] legacy_router_credit [OF h, of i] show ?case
    by (auto simp: x h split_beta Let_def split: if_splits)
qed simp

text \<open>
  C33: the wildcard of the first daemon is a prefix of the command line, which the shell then
  interprets: with an allowed pattern that ends in a star, every command line that begins
  with the text before the star is allowed and run by \<open>sh -c\<close>, whatever follows.
\<close>

theorem legacy_wildcard_runs_anything:
  assumes "p \<in> set (legacy_allowed e)" "trim_space p = start @ ''*''"
  shows "legacy_IsAllowed e (start @ rest) \<and> fst (legacy_Execute e run (start @ rest)) = Some [''sh'', ''-c'', start @ rest]"
proof -
  have t: "trim_suffix (start @ ''*'') ''*'' = start"
    by (simp add: trim_suffix_def has_suffix_iff)
  have "legacy_IsAllowed e (start @ rest)"
    unfolding legacy_IsAllowed_def list_ex_iff
    by (rule bexI [OF _ assms(1)]) (simp add: assms(2) t has_suffix_iff Let_def)
  then show ?thesis by (simp add: legacy_Execute_def Let_def)
qed

theorem legacy_wildcard_runs_anything_witness:
  "legacy_IsAllowed (legacy_NewExecutor [''apt install *'']) ''apt install x; rm -rf /'' \<and>
   \<not> IsAllowed (NewExecutor [''apt install *''] 0) ''apt install x; rm -rf /''"
proof -
  have p: "''apt install *'' \<in> set (legacy_allowed (legacy_NewExecutor [''apt install *'']))"
    by (simp add: legacy_NewExecutor_def)
  have t: "trim_space ''apt install *'' = ''apt install '' @ ''*''" by code_simp
  have "\<not> IsAllowed (NewExecutor [''apt install *''] 0) ''apt install x; rm -rf /''" by code_simp
  moreover from legacy_wildcard_runs_anything [OF p t, of "''x; rm -rf /''" "\<lambda>_. undefined"]
  have "legacy_IsAllowed (legacy_NewExecutor [''apt install *'']) (''apt install '' @ ''x; rm -rf /'')" by blast
  ultimately show ?thesis by simp
qed

end
