(* ===== verification/PgStore.thy ===== *)
theory PgStore
  imports Requests
begin

text \<open>
  \<open>internal/pam/store_db.go\<close>: the request store on PostgreSQL, with the users and the audit
  log, over the schema \<open>internal/db/migrations/001_pam_schema.sql\<close>. The state is the tables and
  the outcomes of the coming statements. The CHECK constraints are those of the schema. The
  rest of what the server does with a value is an argument: the text form of a UUID
  (\<open>uuid_in\<close> gives the canonical one), the rounding of a time to microseconds, and the
  errors of the column types.
\<close>

section \<open>Tables\<close>

record pg_row =
  p_id :: string
  p_requester :: string
  p_target_system :: string
  p_command :: string
  p_reason :: "string option"
  p_status :: "string option"
  p_created_at :: "gotime option"
  p_expires_at :: gotime
  p_approved_at :: "gotime option"
  p_approved_by :: "string option"
  p_ip_address :: "string option"
  p_user_agent :: "string option"
  p_notify_chat_id :: "int option"
  p_output :: "string option"
  p_exit_code :: "int option"

record audit_row =
  a_request_id :: "string option"
  a_device_id :: "int option"
  a_user_id :: "int option"
  a_action :: string
  a_ip_address :: string
  a_user_agent :: string
  a_details :: "(string \<times> string) list"

record user_row =
  u_telegram_id :: "int option"
  u_display_name :: "string option"
  u_is_active :: "bool option"

record DBRequestStore =
  pg_requests :: "pg_row list"
  pg_audit :: "audit_row list"
  pg_users :: "user_row list"
  pg_outcomes :: "go_error option list"

record pg_env =
  uuid_in :: "string \<Rightarrow> go_error + string"
  pg_time :: "gotime \<Rightarrow> gotime"
  row_types :: "pg_row \<Rightarrow> go_error option"
  audit_types :: "audit_row \<Rightarrow> go_error option"
  unique_error :: go_error

text \<open>The two CHECK constraints that matter here.\<close>

definition status_values :: "string list" where
  "status_values = [''pending'', ''approved'', ''denied'', ''expired'', ''executing'', ''failed'']"

definition audit_actions :: "string list" where
  "audit_actions = [''approve'', ''deny'', ''fail_expire'', ''fail_invalid_token'', ''fail_invalid_init'',
     ''fail_unauthorized'', ''fail_not_found'']"

definition check_error :: "string \<Rightarrow> string \<Rightarrow> go_error" where
  "check_error table_name constr =
     ''pq: new row for relation \"'' @ table_name @ ''\" violates check constraint \"'' @ constr @ ''\"''"

definition row_error :: "pg_env \<Rightarrow> pg_row \<Rightarrow> go_error option" where
  "row_error env r =
     (case row_types env r of
        Some e \<Rightarrow> Some e
      | None \<Rightarrow>
          (case p_status r of
             None \<Rightarrow> None
           | Some st \<Rightarrow> if st \<in> set status_values then None
                        else Some (check_error ''elevation_requests'' ''elevation_requests_status_check'')))"

definition audit_error :: "pg_env \<Rightarrow> audit_row \<Rightarrow> go_error option" where
  "audit_error env a =
     (case audit_types env a of
        Some e \<Rightarrow> Some e
      | None \<Rightarrow> if a_action a \<in> set audit_actions then None
                 else Some (check_error ''approval_audit'' ''approval_audit_action_check''))"

section \<open>Statements\<close>

definition pg_next :: "DBRequestStore \<Rightarrow> DBRequestStore \<times> go_error option" where
  "pg_next db = (case pg_outcomes db of [] \<Rightarrow> (db, None) | x # xs \<Rightarrow> (db\<lparr>pg_outcomes := xs\<rparr>, x))"

text \<open>
  \<open>UPDATE ... SET f WHERE id = $1 AND p\<close>: the argument must be a UUID, and one row that
  violates a type or a constraint fails the statement. The count of the rows comes with the
  result of the statement.
\<close>

definition pg_update ::
  "pg_env \<Rightarrow> string \<Rightarrow> (pg_row \<Rightarrow> bool) \<Rightarrow> (pg_row \<Rightarrow> pg_row) \<Rightarrow> DBRequestStore \<Rightarrow>
     DBRequestStore \<times> (go_error + nat)" where
  "pg_update env i p f db =
     (case pg_next db of
        (db1, Some e) \<Rightarrow> (db1, Inl e)
      | (db1, None) \<Rightarrow>
          (case uuid_in env i of
             Inl e \<Rightarrow> (db1, Inl e)
           | Inr key \<Rightarrow>
               let hit = (\<lambda>r. p_id r = key \<and> p r)
               in case List.find (\<lambda>r. hit r \<and> row_error env (f r) \<noteq> None) (pg_requests db1) of
                    Some r \<Rightarrow> (db1, Inl (the (row_error env (f r))))
                  | None \<Rightarrow>
                      (db1\<lparr>pg_requests := map (\<lambda>r. if hit r then f r else r) (pg_requests db1)\<rparr>,
                       Inr (length (filter hit (pg_requests db1))))))"

text \<open>\<open>result.RowsAffected()\<close> can report an error of the driver.\<close>

definition pg_rows_affected :: "nat \<Rightarrow> DBRequestStore \<Rightarrow> DBRequestStore \<times> (go_error + nat)" where
  "pg_rows_affected n db =
     (case pg_next db of (db1, Some e) \<Rightarrow> (db1, Inl e) | (db1, None) \<Rightarrow> (db1, Inr n))"

definition NewDBRequestStore :: "DBRequestStore \<Rightarrow> DBRequestStore" where
  "NewDBRequestStore db = db"

definition pg_insert_row :: "pg_env \<Rightarrow> string \<Rightarrow> ElevationRequest \<Rightarrow> pg_row" where
  "pg_insert_row env key req =
     \<lparr>p_id = key, p_requester = Requester req, p_target_system = TargetSystem req, p_command = Command req,
      p_reason = Some (Reason req), p_status = Some (Status req), p_created_at = Some (pg_time env (CreatedAt req)),
      p_expires_at = pg_time env (ExpiresAt req), p_approved_at = None, p_approved_by = None,
      p_ip_address = Some (IPAddress req), p_user_agent = Some (UserAgent req),
      p_notify_chat_id = Some (NotifyChatID req), p_output = None, p_exit_code = None\<rparr>"

definition pg_Create ::
  "pg_env \<Rightarrow> ElevationRequest \<Rightarrow> DBRequestStore \<Rightarrow> DBRequestStore \<times> go_error option" where
  "pg_Create env req db =
     (case pg_next db of
        (db1, Some e) \<Rightarrow> (db1, Some e)
      | (db1, None) \<Rightarrow>
          (case uuid_in env (ID req) of
             Inl e \<Rightarrow> (db1, Some e)
           | Inr key \<Rightarrow>
               (case row_error env (pg_insert_row env key req) of
                  Some e \<Rightarrow> (db1, Some e)
                | None \<Rightarrow>
                    if list_ex (\<lambda>r. p_id r = key) (pg_requests db1) then (db1, Some (unique_error env))
                    else (db1\<lparr>pg_requests := pg_requests db1 @ [pg_insert_row env key req]\<rparr>, None))))"

definition null_error :: "string \<Rightarrow> string \<Rightarrow> string \<Rightarrow> go_error" where
  "null_error i column typ =
     ''sql: Scan error on column index '' @ i @ '', name \"'' @ column @ ''\": converting NULL to '' @ typ @ '' is unsupported''"

text \<open>The columns in the order of the SELECT; the first NULL among those that do not allow it is the error.\<close>

definition pg_scan :: "pg_row \<Rightarrow> go_error + ElevationRequest" where
  "pg_scan row =
     (case p_reason row of None \<Rightarrow> Inl (null_error ''4'' ''reason'' ''string'') | Some reason \<Rightarrow>
      case p_status row of None \<Rightarrow> Inl (null_error ''5'' ''status'' ''string'') | Some status \<Rightarrow>
      case p_created_at row of
        None \<Rightarrow> Inl (''sql: Scan error on column index 6, name \"created_at\": unsupported Scan, '' @
                     ''storing driver.Value type <nil> into type *time.Time'')
      | Some created \<Rightarrow>
      case p_ip_address row of None \<Rightarrow> Inl (null_error ''10'' ''ip_address'' ''string'') | Some ip \<Rightarrow>
      case p_user_agent row of None \<Rightarrow> Inl (null_error ''11'' ''user_agent'' ''string'') | Some ua \<Rightarrow>
      case p_notify_chat_id row of None \<Rightarrow> Inl (null_error ''12'' ''notify_chat_id'' ''int64'') | Some chat \<Rightarrow>
      let req = zero_request\<lparr>ID := p_id row, Requester := p_requester row, TargetSystem := p_target_system row,
            Command := p_command row, Reason := reason, Status := status, CreatedAt := created,
            ExpiresAt := p_expires_at row, IPAddress := ip, UserAgent := ua, NotifyChatID := chat\<rparr>;
          req = (case p_approved_by row of None \<Rightarrow> req | Some a \<Rightarrow> req\<lparr>ApprovedBy := a\<rparr>)
      in Inr (case p_approved_at row of None \<Rightarrow> req | Some t \<Rightarrow> req\<lparr>ApprovedAt := Some t\<rparr>))"

definition pg_Get ::
  "pg_env \<Rightarrow> string \<Rightarrow> DBRequestStore \<Rightarrow> DBRequestStore \<times> (go_error + ElevationRequest option)" where
  "pg_Get env i db =
     (case pg_next db of
        (db1, Some e) \<Rightarrow> (db1, Inl e)
      | (db1, None) \<Rightarrow>
          (case uuid_in env i of
             Inl e \<Rightarrow> (db1, Inl e)
           | Inr key \<Rightarrow>
               (case List.find (\<lambda>r. p_id r = key) (pg_requests db1) of
                  None \<Rightarrow> (db1, Inr None)
                | Some row \<Rightarrow> (case pg_scan row of Inl e \<Rightarrow> (db1, Inl e) | Inr req \<Rightarrow> (db1, Inr (Some req))))))"

definition pg_Update ::
  "pg_env \<Rightarrow> ElevationRequest \<Rightarrow> DBRequestStore \<Rightarrow> DBRequestStore \<times> go_error option" where
  "pg_Update env req db =
     (let approvedBy = (if ApprovedBy req \<noteq> [] then Some (ApprovedBy req) else None);
          approvedAt = (case ApprovedAt req of None \<Rightarrow> None | Some t \<Rightarrow> Some (pg_time env t))
      in case pg_update env (ID req) (\<lambda>r. True)
                (\<lambda>r. r\<lparr>p_status := Some (Status req), p_approved_by := approvedBy, p_approved_at := approvedAt,
                       p_output := Output req, p_exit_code := ReqExitCode req\<rparr>) db of
           (db1, Inl e) \<Rightarrow> (db1, Some e)
         | (db1, Inr n) \<Rightarrow> (db1, None))"

text \<open>The four statements of \<open>UpdateStateIf\<close>; \<open>now\<close> is the clock of the server.\<close>

definition pg_cas_statement ::
  "pg_env \<Rightarrow> gotime \<Rightarrow> string \<Rightarrow> string \<Rightarrow> string \<Rightarrow> string \<Rightarrow> DBRequestStore \<Rightarrow>
     DBRequestStore \<times> (go_error + nat)" where
  "pg_cas_statement env now i expectedState newState approvedBy db =
     (let by_ptr = (if approvedBy \<noteq> [] then Some approvedBy else None)
      in if newState = ''approved'' then
           pg_update env i (\<lambda>r. p_status r = Some expectedState \<and> p_expires_at r > now)
             (\<lambda>r. r\<lparr>p_status := Some newState, p_approved_by := by_ptr, p_approved_at := Some now\<rparr>) db
         else if newState = ''expired'' then
           pg_update env i (\<lambda>r. p_status r = Some expectedState) (\<lambda>r. r\<lparr>p_status := Some newState\<rparr>) db
         else if newState = ''denied'' \<or> newState = ''failed'' then
           pg_update env i (\<lambda>r. p_status r = Some expectedState \<and> p_expires_at r > now)
             (\<lambda>r. r\<lparr>p_status := Some newState, p_approved_by := by_ptr, p_approved_at := Some now\<rparr>) db
         else pg_update env i (\<lambda>r. p_status r = Some expectedState) (\<lambda>r. r\<lparr>p_status := Some newState\<rparr>) db)"

definition pg_UpdateStateIf ::
  "pg_env \<Rightarrow> clock \<Rightarrow> string \<Rightarrow> string \<Rightarrow> string \<Rightarrow> string \<Rightarrow> DBRequestStore \<Rightarrow>
     DBRequestStore \<times> (go_error + bool)" where
  "pg_UpdateStateIf env clk i expectedState newState approvedBy db =
     (case pg_cas_statement env (pg_time env (clk 0)) i expectedState newState approvedBy db of
        (db1, Inl e) \<Rightarrow> (db1, Inl e)
      | (db1, Inr n) \<Rightarrow>
          (case pg_rows_affected n db1 of
             (db2, Inl e) \<Rightarrow> (db2, Inl e)
           | (db2, Inr k) \<Rightarrow> (db2, Inr (k > 0))))"

fun pg_scan_rows :: "pg_row list \<Rightarrow> go_error + ElevationRequest list" where
  "pg_scan_rows [] = Inr []"
| "pg_scan_rows (r # rs) =
     (case pg_scan r of
        Inl e \<Rightarrow> Inl e
      | Inr q \<Rightarrow> (case pg_scan_rows rs of Inl e \<Rightarrow> Inl e | Inr qs \<Rightarrow> Inr (q # qs)))"

text \<open>\<open>ORDER BY created_at DESC\<close> puts NULL first; rows that tie come in the order of the table.\<close>

definition pg_order :: "pg_row list \<Rightarrow> pg_row list" where
  "pg_order rs = filter (\<lambda>r. p_created_at r = None) rs @
     sort_key (\<lambda>r. - the (p_created_at r)) (filter (\<lambda>r. p_created_at r \<noteq> None) rs)"

definition pg_ListPending ::
  "pg_env \<Rightarrow> clock \<Rightarrow> DBRequestStore \<Rightarrow> DBRequestStore \<times> (go_error + ElevationRequest list)" where
  "pg_ListPending env clk db =
     (case pg_next db of
        (db1, Some e) \<Rightarrow> (db1, Inl e)
      | (db1, None) \<Rightarrow>
          let now = pg_time env (clk 0)
          in (db1, pg_scan_rows (pg_order
                (filter (\<lambda>r. p_status r = Some ''pending'' \<and> p_expires_at r > now) (pg_requests db1)))))"

definition pg_Delete :: "pg_env \<Rightarrow> string \<Rightarrow> DBRequestStore \<Rightarrow> DBRequestStore \<times> go_error option" where
  "pg_Delete env i db =
     (case pg_next db of
        (db1, Some e) \<Rightarrow> (db1, Some e)
      | (db1, None) \<Rightarrow>
          (case uuid_in env i of
             Inl e \<Rightarrow> (db1, Some e)
           | Inr key \<Rightarrow> (db1\<lparr>pg_requests := filter (\<lambda>r. p_id r \<noteq> key) (pg_requests db1)\<rparr>, None)))"

definition pg_ExpireOldRequests :: "pg_env \<Rightarrow> clock \<Rightarrow> DBRequestStore \<Rightarrow> DBRequestStore \<times> (go_error + int)" where
  "pg_ExpireOldRequests env clk db =
     (case pg_next db of
        (db1, Some e) \<Rightarrow> (db1, Inl e)
      | (db1, None) \<Rightarrow>
          let now = pg_time env (clk 0);
              old = (\<lambda>r. p_status r = Some ''pending'' \<and> p_expires_at r \<le> now);
              db2 = db1\<lparr>pg_requests := map (\<lambda>r. if old r then r\<lparr>p_status := Some ''expired''\<rparr> else r) (pg_requests db1)\<rparr>
          in (case pg_rows_affected (length (filter old (pg_requests db1))) db2 of
                (db3, Inl e) \<Rightarrow> (db3, Inl e)
              | (db3, Inr k) \<Rightarrow> (db3, Inr (int k))))"

section \<open>Audit log and users\<close>

definition pg_LogAudit ::
  "pg_env \<Rightarrow> string \<Rightarrow> string option \<Rightarrow> int option \<Rightarrow> int option \<Rightarrow> string \<Rightarrow> string \<Rightarrow> (string \<times> string) list \<Rightarrow>
     DBRequestStore \<Rightarrow> DBRequestStore \<times> go_error option" where
  "pg_LogAudit env action requestID deviceID userID ipAddress userAgent details db =
     (let row = \<lparr>a_request_id = requestID, a_device_id = deviceID, a_user_id = userID, a_action = action,
            a_ip_address = ipAddress, a_user_agent = userAgent, a_details = details\<rparr>
      in case pg_next db of
           (db1, Some e) \<Rightarrow> (db1, Some e)
         | (db1, None) \<Rightarrow>
             (case audit_error env row of
                Some e \<Rightarrow> (db1, Some e)
              | None \<Rightarrow> (db1\<lparr>pg_audit := pg_audit db1 @ [row]\<rparr>, None)))"

definition pg_GetAuthorizedUsers :: "DBRequestStore \<Rightarrow> DBRequestStore \<times> (go_error + User list)" where
  "pg_GetAuthorizedUsers db =
     (case pg_next db of
        (db1, Some e) \<Rightarrow> (db1, Inl e)
      | (db1, None) \<Rightarrow>
          (db1, Inr (map (\<lambda>u. \<lparr>TelegramID = the (u_telegram_id u),
                               Name = (case u_display_name u of None \<Rightarrow> [] | Some n \<Rightarrow> n)\<rparr>)
             (filter (\<lambda>u. u_is_active u = Some True \<and> u_telegram_id u \<noteq> None) (pg_users db1)))))"

text \<open>The store as the handlers see it; they ignore the error of \<open>LogAudit\<close>.\<close>

definition pg_store :: "pg_env \<Rightarrow> DBRequestStore RequestStore" where
  "pg_store env =
     \<lparr>Create = pg_Create env, Get = pg_Get env, Update = pg_Update env, UpdateStateIf = pg_UpdateStateIf env,
      ListPending = pg_ListPending env, Delete = pg_Delete env, ExpireOldRequests = pg_ExpireOldRequests env,
      DBOps = Some \<lparr>GetAuthorizedUsers = pg_GetAuthorizedUsers,
        LogAudit = (\<lambda>a db. fst (pg_LogAudit env (audit_action a) None None (audit_user a) (audit_ip a)
          (audit_agent a) (audit_details a) db))\<rparr>\<rparr>"

text \<open>\<open>MustDBRequestStore\<close> panics (\<open>None\<close>) on any other store.\<close>

definition MustDBRequestStore :: "'s RequestStore \<Rightarrow> 's RequestStore option" where
  "MustDBRequestStore store = (case DBOps store of None \<Rightarrow> None | Some _ \<Rightarrow> Some store)"

section \<open>Properties\<close>

text \<open>
  The calls of the store that decide the row of a key, however the caller spells the identifier,
  and the calls that cannot make it pending again.
\<close>

fun pg_decides :: "pg_env \<Rightarrow> string \<Rightarrow> store_call \<times> bool \<Rightarrow> bool" where
  "pg_decides env key (CallUpdateStateIf j old new a, b) \<longleftrightarrow> b \<and> uuid_in env j = Inr key \<and> old = ''pending''"
| "pg_decides env key _ \<longleftrightarrow> False"

fun pg_call_ok :: "pg_env \<Rightarrow> string \<Rightarrow> clock \<times> store_call \<Rightarrow> bool" where
  "pg_call_ok env key (clk, CallCreate r) \<longleftrightarrow> (uuid_in env (ID r) = Inr key \<longrightarrow> Status r \<noteq> ''pending'')"
| "pg_call_ok env key (clk, CallUpdate r) \<longleftrightarrow> (uuid_in env (ID r) = Inr key \<longrightarrow> Status r \<noteq> ''pending'')"
| "pg_call_ok env key (clk, CallUpdateStateIf j old new a) \<longleftrightarrow> (uuid_in env j = Inr key \<longrightarrow> new \<noteq> ''pending'')"
| "pg_call_ok env key (clk, _) \<longleftrightarrow> True"

text \<open>The pending rows of a key; the primary key makes them one at most.\<close>

definition waits :: "string \<Rightarrow> pg_row \<Rightarrow> bool" where
  "waits key r \<longleftrightarrow> p_id r = key \<and> p_status r = Some ''pending''"

definition pg_waiting :: "string \<Rightarrow> DBRequestStore \<Rightarrow> nat" where
  "pg_waiting key db = length (filter (waits key) (pg_requests db))"

definition pg_keys :: "DBRequestStore \<Rightarrow> string list" where
  "pg_keys db = map p_id (pg_requests db)"

lemma pg_waiting_le: "distinct (pg_keys db) \<Longrightarrow> pg_waiting key db \<le> 1"
proof -
  have absent: "filter (waits key) rs = []" if "key \<notin> p_id ` set rs" for rs
    using that by (auto simp: filter_empty_conv waits_def)
  have "length (filter (waits key) rs) \<le> 1" if "distinct (map p_id rs)" for rs
    using that
  proof (induction rs)
    case (Cons r rs)
    show ?case
    proof (cases "waits key r")
      case True
      with Cons.prems have "filter (waits key) rs = []" by (intro absent) (auto simp: waits_def)
      then show ?thesis by simp
    next
      case False
      with Cons show ?thesis by simp
    qed
  qed simp
  then show "distinct (pg_keys db) \<Longrightarrow> pg_waiting key db \<le> 1" by (simp add: pg_waiting_def pg_keys_def)
qed

lemma pg_next_rows [simp]: "pg_requests (fst (pg_next db)) = pg_requests db"
  by (simp add: pg_next_def split: list.split)

lemma pg_next_rows_eq: "pg_next db = (db1, x) \<Longrightarrow> pg_requests db1 = pg_requests db"
  by (auto simp: pg_next_def split: list.splits)

lemma pg_rows_affected_rows: "pg_rows_affected n db = (db1, q) \<Longrightarrow>
    pg_requests db1 = pg_requests db \<and> (\<forall>k. q = Inr k \<longrightarrow> k = n)"
  by (auto simp: pg_rows_affected_def dest: pg_next_rows_eq split: prod.splits option.splits)

text \<open>An update hits the rows of one key; those it hits and that were pending no longer wait.\<close>

lemma pg_update_cases:
  assumes "pg_update env i p f db = (db1, q)"
  obtains (failed) e where "q = Inl e" "pg_requests db1 = pg_requests db"
  | (ran) k where "uuid_in env i = Inr k"
      "pg_requests db1 = map (\<lambda>r. if p_id r = k \<and> p r then f r else r) (pg_requests db)"
      "q = Inr (length (filter (\<lambda>r. p_id r = k \<and> p r) (pg_requests db)))"
proof -
  obtain db0 x where n: "pg_next db = (db0, x)" by fastforce
  note rows = pg_next_rows_eq [OF n]
  show thesis
  proof (cases "q = Inl (projl q)")
    case True
    then have "pg_requests db1 = pg_requests db \<and> (\<exists>e. q = Inl e)"
      using assms rows by (auto simp: pg_update_def n Let_def split: option.splits sum.splits)
    then show thesis using failed by blast
  next
    case False
    then show thesis using assms rows
      by (intro ran [of "projr (uuid_in env i)"])
        (auto simp: pg_update_def n Let_def split: option.splits sum.splits)
  qed
qed

lemma waits_hit:
  assumes "\<And>r. p_id (f r) = p_id r" "k = key \<Longrightarrow> \<forall>r. p_status (f r) \<noteq> Some ''pending''"
  shows "length (filter (waits key) (map (\<lambda>r. if p_id r = k \<and> p r then f r else r) rs)) +
      (if k = key then length (filter (\<lambda>r. waits key r \<and> p r) rs) else 0) = length (filter (waits key) rs)"
  using assms by (induction rs) (auto simp: waits_def)

lemma pg_update_waiting:
  assumes "pg_update env i p f db = (db1, q)" "\<And>r. p_id (f r) = p_id r"
    "uuid_in env i = Inr key \<Longrightarrow> \<forall>r. p_status (f r) \<noteq> Some ''pending''"
  shows "pg_waiting key db1 \<le> pg_waiting key db"
    "\<lbrakk>\<And>r. p r \<Longrightarrow> p_status r = Some ''pending''; q = Inr n; uuid_in env i = Inr key\<rbrakk> \<Longrightarrow>
      pg_waiting key db1 + n = pg_waiting key db"
proof -
  have "pg_waiting key db1 \<le> pg_waiting key db \<and>
    ((\<forall>r. p r \<longrightarrow> p_status r = Some ''pending'') \<and> q = Inr n \<and> uuid_in env i = Inr key \<longrightarrow>
      pg_waiting key db1 + n = pg_waiting key db)"
    using assms(1)
  proof (cases rule: pg_update_cases)
    case (ran k)
    have e: "length (filter (waits key) (pg_requests db1)) +
        (if k = key then length (filter (\<lambda>r. waits key r \<and> p r) (pg_requests db)) else 0) =
      length (filter (waits key) (pg_requests db))"
      unfolding ran(2) by (rule waits_hit) (use assms(2,3) ran(1) in auto)
    have "filter (\<lambda>r. waits key r \<and> p r) (pg_requests db) = filter (\<lambda>r. p_id r = key \<and> p r) (pg_requests db)"
      if "\<forall>r. p r \<longrightarrow> p_status r = Some ''pending''"
      by (rule filter_cong) (use that in \<open>auto simp: waits_def\<close>)
    with e ran show ?thesis by (auto simp: pg_waiting_def split: if_splits)
  qed (simp add: pg_waiting_def)
  then show "pg_waiting key db1 \<le> pg_waiting key db"
    "\<lbrakk>\<And>r. p r \<Longrightarrow> p_status r = Some ''pending''; q = Inr n; uuid_in env i = Inr key\<rbrakk> \<Longrightarrow>
      pg_waiting key db1 + n = pg_waiting key db" by blast+
qed

text \<open>The four statements of the compare-and-set are such updates.\<close>

lemma pg_cas_statement_update:
  obtains p f where "pg_cas_statement env now i old new a db = pg_update env i p f db"
    "\<And>r. p r \<Longrightarrow> p_status r = Some old" "\<And>r. p_id (f r) = p_id r" "\<And>r. p_status (f r) = Some new"
  by (rule that [of
      "\<lambda>r. p_status r = Some old \<and> (new \<in> {''approved'', ''denied'', ''failed''} \<longrightarrow> p_expires_at r > now)"
      "\<lambda>r. if new \<in> {''approved'', ''denied'', ''failed''}
           then r\<lparr>p_status := Some new, p_approved_by := (if a \<noteq> [] then Some a else None), p_approved_at := Some now\<rparr>
           else r\<lparr>p_status := Some new\<rparr>"])
    (auto simp: pg_cas_statement_def Let_def)

lemma pg_cas_waiting:
  assumes "uuid_in env i = Inr key \<Longrightarrow> new \<noteq> ''pending''" "pg_UpdateStateIf env clk i old new a db = (db1, b)"
  shows "pg_waiting key db1 + (if b = Inr True \<and> uuid_in env i = Inr key \<and> old = ''pending'' then 1 else 0) \<le> pg_waiting key db"
proof -
  obtain p f where u: "pg_cas_statement env (pg_time env (clk 0)) i old new a db = pg_update env i p f db"
    "\<And>r. p r \<Longrightarrow> p_status r = Some old" "\<And>r. p_id (f r) = p_id r" "\<And>r. p_status (f r) = Some new"
    by (rule pg_cas_statement_update [of env "pg_time env (clk 0)" i old new a db]) (rule that)
  obtain db2 q where q: "pg_update env i p f db = (db2, q)" by fastforce
  have f: "uuid_in env i = Inr key \<Longrightarrow> \<forall>r. p_status (f r) \<noteq> Some ''pending''" using assms(1) u(4) by simp
  note w = pg_update_waiting [OF q u(3) f]
  have same: "pg_requests db1 = pg_requests db2" and pos: "b = Inr True \<Longrightarrow> \<exists>n > 0. q = Inr n"
    using assms(2) by (auto simp: pg_UpdateStateIf_def u(1) q dest: pg_rows_affected_rows split: sum.splits prod.splits)
  then have d: "pg_waiting key db1 = pg_waiting key db2" by (simp add: pg_waiting_def)
  show ?thesis
  proof (cases "b = Inr True \<and> uuid_in env i = Inr key \<and> old = ''pending''")
    case True
    then obtain n where n: "n > 0" "q = Inr n" using pos by blast
    have "pg_waiting key db2 + n = pg_waiting key db" by (rule w(2)) (use True u(2) n in auto)
    then show ?thesis using n(1) d by simp
  next
    case False
    then show ?thesis using w(1) d by auto
  qed
qed

lemma waits_filter: "length (filter (waits key) (filter g rs)) \<le> length (filter (waits key) rs)"
  by (induction rs) auto

lemma waits_expire: "length (filter (waits key) (map (\<lambda>r. if g r then r\<lparr>p_status := Some ''expired''\<rparr> else r) rs)) \<le>
    length (filter (waits key) rs)"
  by (induction rs) (auto simp: waits_def)

lemma pg_call_waiting:
  assumes "pg_call_ok env key (clk, c)"
  shows "pg_waiting key (fst (do_call (pg_store env) clk c db)) +
      (if pg_decides env key (c, snd (do_call (pg_store env) clk c db)) then 1 else 0) \<le> pg_waiting key db"
proof (cases c)
  case (CallCreate r)
  obtain db1 e where n: "pg_next db = (db1, e)" by fastforce
  have "\<not> waits key (pg_insert_row env k r)" if "uuid_in env (ID r) = Inr k" for k
    using assms that by (auto simp: CallCreate waits_def pg_insert_row_def)
  then show ?thesis using pg_next_rows_eq [OF n]
    by (auto simp: CallCreate pg_store_def pg_Create_def n pg_waiting_def split: option.split sum.split)
next
  case (CallGet i)
  obtain db1 e where n: "pg_next db = (db1, e)" by fastforce
  show ?thesis using pg_next_rows_eq [OF n]
    by (auto simp: CallGet pg_store_def pg_Get_def n pg_waiting_def split: option.split sum.split)
next
  case (CallUpdate r)
  let ?f = "\<lambda>x. x\<lparr>p_status := Some (Status r),
      p_approved_by := if ApprovedBy r \<noteq> [] then Some (ApprovedBy r) else None,
      p_approved_at := (case ApprovedAt r of None \<Rightarrow> None | Some t \<Rightarrow> Some (pg_time env t)),
      p_output := Output r, p_exit_code := ReqExitCode r\<rparr>"
  obtain db1 q where u: "pg_update env (ID r) (\<lambda>r. True) ?f db = (db1, q)" by fastforce
  have "pg_waiting key db1 \<le> pg_waiting key db"
    by (rule pg_update_waiting(1) [OF u]) (use assms in \<open>auto simp: CallUpdate\<close>)
  moreover have "fst (pg_Update env r db) = db1" by (simp add: pg_Update_def Let_def u split: sum.split)
  ultimately show ?thesis by (simp add: CallUpdate pg_store_def)
next
  case (CallUpdateStateIf j old new a)
  obtain db1 b where u: "pg_UpdateStateIf env clk j old new a db = (db1, b)" by fastforce
  have "uuid_in env j = Inr key \<Longrightarrow> new \<noteq> ''pending''" using assms by (simp add: CallUpdateStateIf)
  from pg_cas_waiting [OF this u] show ?thesis by (simp add: CallUpdateStateIf pg_store_def u)
next
  case CallListPending
  obtain db1 e where n: "pg_next db = (db1, e)" by fastforce
  show ?thesis using pg_next_rows_eq [OF n]
    by (auto simp: CallListPending pg_store_def pg_ListPending_def n pg_waiting_def Let_def split: option.split)
next
  case (CallDelete i)
  obtain db1 e where n: "pg_next db = (db1, e)" by fastforce
  show ?thesis using pg_next_rows_eq [OF n] waits_filter
    by (auto simp: CallDelete pg_store_def pg_Delete_def n pg_waiting_def split: option.split sum.split)
next
  case CallExpire
  obtain db1 e where n: "pg_next db = (db1, e)" by fastforce
  let ?old = "\<lambda>r. p_status r = Some ''pending'' \<and> p_expires_at r \<le> pg_time env (clk 0)"
  let ?db2 = "db1\<lparr>pg_requests := map (\<lambda>r. if ?old r then r\<lparr>p_status := Some ''expired''\<rparr> else r) (pg_requests db1)\<rparr>"
  obtain db3 q where r: "pg_rows_affected (length (filter ?old (pg_requests db1))) ?db2 = (db3, q)" by fastforce
  have "fst (pg_ExpireOldRequests env clk db) = (if e = None then db3 else db1)"
    using r by (auto simp: pg_ExpireOldRequests_def n Let_def split: option.split sum.split)
  moreover have "pg_waiting key db3 \<le> pg_waiting key db" "pg_waiting key db1 = pg_waiting key db"
    using pg_rows_affected_rows [OF r] pg_next_rows_eq [OF n] waits_expire [of key ?old "pg_requests db"]
    by (simp_all add: pg_waiting_def)
  ultimately show ?thesis by (simp add: CallExpire pg_store_def)
qed

lemma pg_run_bound:
  "\<forall>c \<in> set cs. pg_call_ok env key c \<Longrightarrow>
     length (filter (pg_decides env key) (snd (run_calls (pg_store env) cs db))) \<le> pg_waiting key db"
proof (induction cs arbitrary: db)
  case (Cons x cs)
  obtain clk c where x: "x = (clk, c)" by (cases x)
  obtain db1 b where d: "do_call (pg_store env) clk c db = (db1, b)" by fastforce
  have "pg_call_ok env key (clk, c)" using Cons.prems by (simp add: x)
  from pg_call_waiting [OF this, of db] Cons.IH [of db1] Cons.prems show ?case
    by (auto simp: x d split_beta Let_def split: if_splits)
qed simp

text \<open>
  C13: on PostgreSQL, too, a request is decided once. Take any sequence of calls of the store,
  creations, updates, deletions, clean-ups and compare-and-sets, whatever statements fail, in
  which no call writes the status pending on the row of a key (no second creation as
  pending, no update or compare-and-set to pending). Then at most one compare-and-set from
  pending succeeds on the row, however the callers spell its identifier.
\<close>

theorem pg_at_most_one_decision:
  assumes "distinct (pg_keys db)" "\<forall>c \<in> set cs. pg_call_ok env key c"
  shows "length (filter (pg_decides env key) (snd (run_calls (pg_store env) cs db))) \<le> 1"
  using pg_run_bound [OF assms(2), of db] pg_waiting_le [OF assms(1), of key] by linarith

text \<open>
  C40: the result of a successful execution cannot be recorded on PostgreSQL: the status
  \<open>completed\<close> is not among the values of the schema's CHECK constraint, so \<open>Update\<close> with
  it fails on every stored request and leaves the table as it was.
\<close>

theorem pg_completed_rejected:
  assumes "pg_outcomes db = []" "uuid_in env (ID req) = Inr key" "row \<in> set (pg_requests db)" "p_id row = key"
    "Status req = ''completed''"
  shows "\<exists>e. pg_Update env req db = (db, Some e)"
proof -
  let ?f = "\<lambda>r. r\<lparr>p_status := Some (Status req),
      p_approved_by := if ApprovedBy req \<noteq> [] then Some (ApprovedBy req) else None,
      p_approved_at := (case ApprovedAt req of None \<Rightarrow> None | Some t \<Rightarrow> Some (pg_time env t)),
      p_output := Output req, p_exit_code := ReqExitCode req\<rparr>"
  have bad: "row_error env (?f r) \<noteq> None" for r
    using assms(5) by (auto simp: row_error_def status_values_def split: option.split)
  have "List.find (\<lambda>r. (p_id r = key \<and> True) \<and> row_error env (?f r) \<noteq> None) (pg_requests db) \<noteq> None"
    using assms(3,4) bad by (auto simp: find_None_iff)
  then obtain r where "List.find (\<lambda>r. (p_id r = key \<and> True) \<and> row_error env (?f r) \<noteq> None) (pg_requests db) = Some r"
    by blast
  then have "pg_update env (ID req) (\<lambda>r. True) ?f db = (db, Inl (the (row_error env (?f r))))"
    using assms(1,2) by (simp add: pg_update_def pg_next_def Let_def)
  then show ?thesis by (simp add: pg_Update_def Let_def)
qed

definition sample_pg_env :: pg_env where
  "sample_pg_env = \<lparr>uuid_in = (\<lambda>i. if i = ''R1'' then Inr ''r1'' else Inr i), pg_time = (\<lambda>t. t),
     row_types = (\<lambda>_. None), audit_types = (\<lambda>_. None), unique_error = ''duplicate key''\<rparr>"

definition sample_pg :: DBRequestStore where
  "sample_pg = fst (pg_Create sample_pg_env (zero_request\<lparr>ID := ''r1'', Status := ''pending'', ExpiresAt := 1700000300000000000\<rparr>)
     \<lparr>pg_requests = [], pg_audit = [], pg_users = [], pg_outcomes = []\<rparr>)"

definition sample_pg_calls :: "(clock \<times> store_call) list" where
  "sample_pg_calls =
     [((\<lambda>_. 1700000001000000000), CallUpdateStateIf ''r1'' ''pending'' ''approved'' ''tg:1''),
      ((\<lambda>_. 1700000002000000000), CallUpdateStateIf ''R1'' ''pending'' ''denied'' ''tg:2''),
      ((\<lambda>_. 1700000003000000000), CallExpire)]"

theorem pg_at_most_one_decision_witness:
  "map snd (snd (run_calls (pg_store sample_pg_env) sample_pg_calls sample_pg)) = [True, False, False] \<and>
   length (filter (pg_decides sample_pg_env ''r1'') (snd (run_calls (pg_store sample_pg_env) sample_pg_calls sample_pg))) \<le> 1"
proof -
  have k: "distinct (pg_keys sample_pg)" by code_simp
  have n: "\<forall>c \<in> set sample_pg_calls. pg_call_ok sample_pg_env ''r1'' c" by (simp add: sample_pg_calls_def)
  have "map snd (snd (run_calls (pg_store sample_pg_env) sample_pg_calls sample_pg)) = [True, False, False]" by code_simp
  with pg_at_most_one_decision [OF k n] show ?thesis by blast
qed

theorem pg_completed_rejected_witness:
  "\<exists>e. pg_Update sample_pg_env (zero_request\<lparr>ID := ''r1'', Status := ''completed''\<rparr>) sample_pg = (sample_pg, Some e)"
proof -
  let ?row = "hd (pg_requests sample_pg)"
  have o: "pg_outcomes sample_pg = []" and r: "pg_requests sample_pg \<noteq> []" and i: "p_id ?row = ''r1''" by code_simp+
  have u: "uuid_in sample_pg_env (ID (zero_request\<lparr>ID := ''r1'', Status := ''completed''\<rparr>)) = Inr ''r1''"
    by (simp add: sample_pg_env_def)
  have m: "?row \<in> set (pg_requests sample_pg)" using r by simp
  show ?thesis by (rule pg_completed_rejected [OF o u m i]) simp
qed

end
