(* ===== verification/Spec2Isabelle.thy ===== *)
theory Spec2Isabelle
  imports Lifecycle Telegram LegacyDaemon PgStore
begin

text \<open>
  A verification development of KingCrab, a service that lets an agent ask for a privileged
  command, a person approve it, and then runs it. The paths below are relative to
  \<open>src/internal\<close> unless they say otherwise.

  \<^bold>\<open>The program.\<close> A client creates a request for a command; the command must pass an
  allowlist. The request is stored as pending with an expiry. A person approves or denies it,
  over the REST interface (\<open>api/v1.go\<close>), the Telegram mini-app interface with a biometric token
  (\<open>pam/handlers.go\<close>), or a button of the Telegram bot (\<open>telegram/webhook.go\<close>, denial only).
  The decision is a compare-and-set on the store: pending to approved, denied or expired. The
  REST interface then runs the command and records the result. \<open>daemon/server_v2.go\<close> wires
  these parts, \<open>cmd/kingcrab/main.go\<close> (under \<open>src\<close>) starts and stops them.

  \<^bold>\<open>Theories, from the bottom up.\<close>

  \<^item> \<open>Prelude\<close>, \<open>GoText\<close>, \<open>GoStrings\<close>, \<open>GoTime\<close>: what the program uses of Go. Errors as
    strings in a sum type, 64-bit integers as \<open>int\<close> with \<open>wrap64\<close>, UTF-8 strings as lists of
    bytes with their runes, the functions of \<open>strings\<close>, \<open>path/filepath\<close>, \<open>net/url\<close>,
    \<open>encoding/hex\<close>, \<open>strconv\<close> and \<open>fmt.Sscanf\<close> that occur, times as nanoseconds since
    1970 with their RFC 3339 texts, and the order of these texts.
  \<^item> \<open>Executor\<close> (\<open>executor/executor.go\<close>): tokenizer, allowlist, execution. The process is an
    argument; \<open>Execute\<close> returns the argument vector it started.
  \<^item> \<open>Requests\<close> (\<open>pam/store_request.go\<close>): the request, the interface of the stores as a record
    of functions, its contract as the locale \<open>request_store\<close>, the in-memory store.
  \<^item> \<open>SqliteStore\<close> (\<open>pam/store_sqlite.go\<close>), \<open>PgStore\<close> (\<open>pam/store_db.go\<close> with its schema): the
    tables as lists of rows, each statement with an outcome taken from a list in the state, so
    that every pattern of database errors is covered.
  \<^item> \<open>Tokens\<close> (\<open>pam/pam.go\<close>, \<open>pam/store.go\<close>), \<open>ClawVaultStore\<close> (\<open>pam/clawvault.go\<close>): the stores of
    biometric tokens behind the locale \<open>token_store\<close>, the expiry of tokens, the choice of the store.
    Files and random bytes are state; AES-GCM, SHA-256, the JSON codec and the keyring tools are
    arguments with their documented laws as hypotheses.
  \<^item> \<open>InitData\<close> (\<open>pam/validation.go\<close>): the launch data of a Telegram mini-app, its parsing and
    its signature; HMAC-SHA256 is an argument.
  \<^item> \<open>Http\<close>: requests, responses, the JSON values in them, and the path cleaning of \<open>ServeMux\<close>.
    \<open>Logger\<close> (\<open>logger/logger.go\<close>).
  \<^item> \<open>OpenClaw\<close> (\<open>notifications/openclaw.go\<close>), \<open>Telegram\<close> (\<open>telegram/bot.go\<close>,
    \<open>telegram/webhook.go\<close>): what is posted to the outside; the network is an argument.
  \<^item> \<open>PamHandler\<close> (\<open>pam/handlers.go\<close>): every endpoint, on any stores; what other goroutines do
    between two accesses to a store is an argument (\<open>interference\<close>).
  \<^item> \<open>ApiV1\<close> (\<open>api/v1.go\<close>): every endpoint, with its calls of the logger and those of the
    executor it runs (\<open>execute_log\<close>) as events; \<open>V1Threads\<close>: the approval handler cut at its accesses
    to the store, in a step relation that interleaves any number of goroutines with any other
    calls of the store.
  \<^item> \<open>Config\<close> (\<open>config/config.go\<close>); \<open>Db\<close> (\<open>db/db.go\<close>): the driver is a record of functions on
    its state, which the migration threads through begin, statements, commit and rollback; what
    a transaction promises is the hypothesis \<open>tx_laws\<close>, with an instance.
  \<^item> \<open>Server\<close> (\<open>daemon/server_v2.go\<close>): wiring, multiplexer, middlewares, cleanup; \<open>Lifecycle\<close>
    (\<open>main.go\<close>, signals): the program from \<open>HandleSignals\<close> on as a step relation of two
    goroutines, \<open>Start\<close> and its end in \<open>main\<close> on one side, the signals and \<open>Stop\<close> on the other.
  \<^item> \<open>LegacyDaemon\<close> (\<open>daemon/server.go\<close>, \<open>daemon/executor.go\<close>): the first daemon.

  \<^bold>\<open>How code becomes definitions.\<close> A struct is a record, a method a function that takes the
  state and returns it with its result; an error result is the left of a sum or \<open>Some\<close> of an
  option, a panic a value of its own (\<open>handler_panic\<close>, \<open>None\<close>, \<open>LoadPanic\<close>). The clock is a function
  from the number of the reading to the time, so each reading of a handler is a different one;
  nothing is assumed about their order. Names are those of the code, with a prefix where two
  packages share one (\<open>sqlite_\<close>, \<open>pg_\<close>, \<open>mem_\<close>, \<open>pam_\<close>, \<open>v1_\<close>, \<open>oc_\<close>, \<open>claw_\<close>, \<open>legacy_\<close>, \<open>hook_\<close>).

  \<^bold>\<open>What the lemmas show.\<close>

  \<^item> Stores: each keeps its invariant and meets the contract \<open>request_store\<close> (interpretations
    \<open>mem\<close> and \<open>sqlite\<close>); at most one decision per request, for any sequence of calls and any
    errors, on all three stores, if no call makes the request pending again; read back what was written; what expiry means when times are
    compared as text, to the nanosecond; the limits of the PostgreSQL schema.
  \<^item> Commands: the exact set of allowed commands, what a started process can be, quoting as a right
    inverse of the tokenizer, agreement of the two matchers on commands without quotes.
  \<^item> Tokens and launch data: round trips of the token stores with non-interference between users,
    expiry, soundness and completeness of the validation of launch data.
  \<^item> Interfaces: whatever is answered, an approval is authenticated, authorized and decides one
    request, or none is decided; a refusal changes nothing; at most one process per request in every interleaving; an approval of a fresh request
    completes; pages and paths.
  \<^item> Server: who reaches which handler in the program as wired, the CORS policy, what the request
    log keeps, that the cleanup leaves nothing overdue, what an exit code says about the stop,
    also for a signal that arrives while the server starts.
  \<^item> Configuration, notifications and migrations: where every setting comes from, bounds of the retry loop, escaping, atomic migrations.

  \<^bold>\<open>Bounds and fuel.\<close> No definition takes fuel. Loops are structural recursions, or terminate by a
  measure: \<open>notify_loop\<close> by the attempts left of \<open>maxRetries = 3\<close>, the text scanners by the length
  of what is left. Times are assumed to have a four-digit year (\<open>in_years\<close>) where their text is
  compared, as Go's format fixes the width only there.

  \<^bold>\<open>Not modelled.\<close> The front end, the plugin and the scripts of the repository, which are not Go;
  reading and writing sockets, and the text form of JSON (a decoder is an argument, an encoder a
  value of type \<open>json\<close>); the log lines of the Telegram webhook (\<open>log.Printf\<close>) and of the first
  daemon; unsynchronized reads of the fields of the server that are out of program order, and an
  \<open>Accept\<close> that fails outside a shutdown; the context argument and its cancellation, except that a failing call may be the
  effect of one; the connection pool, except that SQLite's single connection makes calls
  atomic. The multiplexer looks at a path as decoded, so a path with an encoded slash or dot
  is outside the model. Column types of PostgreSQL other than the CHECK constraints are arguments.
\<close>

end
